(* ===== verification/Prelude.thy ===== *)
theory Prelude
  imports Main "HOL-Library.Word"
begin

text \<open>
  What every component shares: the error values of \<^verbatim>\<open>coreerr.E\<close>, the standard-library string
  and number functions the sources call (\<^verbatim>\<open>strings\<close>, \<^verbatim>\<open>strconv\<close>, \<^verbatim>\<open>fmt\<close>, reached in the code
  through the \<^verbatim>\<open>core\<close> framework's functions of the same names), instants of time, the
  iteration of a Go map in an order the runtime chooses, push iterators, and the contract of a
  keyed store.  The collections \<open>go_defs\<close> and \<open>go_simps\<close> hold the unfolding equations and the
  rewrite rules the component theories use.
\<close>

named_theorems go_defs
named_theorems go_simps

section \<open>Bytes, strings, errors, time\<close>

text \<open>A Go string is a sequence of bytes: \<^typ>\<open>string\<close>.  A \<^verbatim>\<open>[]byte\<close> is a list of 8-bit words.\<close>

type_synonym byte = "8 word"
type_synonym bytes = "byte list"

definition bytes_of_string :: "string \<Rightarrow> bytes" where
  "bytes_of_string s = map of_char s"

definition string_of_bytes :: "bytes \<Rightarrow> string" where
  "string_of_bytes bs = map (\<lambda>b. char_of (unat b)) bs"

text \<open>
  \<^verbatim>\<open>coreerr.E(op, msg, cause)\<close> and errors of the libraries.  A result is \<open>Inl\<close> of an error or
  \<open>Inr\<close> of a value, which also models the framework's \<^verbatim>\<open>core.Result\<close>.
\<close>

datatype err = E string string "err option" | Ext string

type_synonym 'a res = "err + 'a"

fun ok :: "'a res \<Rightarrow> bool" where
  "ok (Inl e) = False"
| "ok (Inr v) = True"

text \<open>
  \<^verbatim>\<open>time.Time\<close> is an instant in nanoseconds counted from the zero \<^verbatim>\<open>time.Time\<close>;
  \<^verbatim>\<open>time.Duration\<close> is a number of nanoseconds.
\<close>

type_synonym gotime = int

definition IsZero :: "gotime \<Rightarrow> bool" where
  "IsZero t \<longleftrightarrow> t = 0"

definition After :: "gotime \<Rightarrow> gotime \<Rightarrow> bool" where
  "After t u \<longleftrightarrow> u < t"

text \<open>
  The option bag of the framework, over its type \<open>'o\<close>, with the accessors the code uses: texts,
  integers and flags, with a default when the key is absent, and \<^verbatim>\<open>Get\<close>, whose value may be a byte
  slice or something else.
\<close>

datatype any_value = AnyBytes bytes | AnyOther

record 'o options_lib =
  String_opt :: "'o \<Rightarrow> string \<Rightarrow> string"
  Int_opt :: "'o \<Rightarrow> string \<Rightarrow> int"
  Bool_opt :: "'o \<Rightarrow> string \<Rightarrow> bool"
  Get_opt :: "'o \<Rightarrow> string \<Rightarrow> any_value option"

text \<open>An option bag for examples: every option is a text, an integer its length, a flag its presence.\<close>

definition text_options :: "((string \<times> string) list) options_lib" where
  "text_options =
     \<lparr>String_opt = (\<lambda>opts k. case map_of opts k of None \<Rightarrow> [] | Some v \<Rightarrow> v),
      Int_opt = (\<lambda>opts k. case map_of opts k of None \<Rightarrow> 0 | Some v \<Rightarrow> int (length v)),
      Bool_opt = (\<lambda>opts k. map_of opts k \<noteq> None),
      Get_opt = (\<lambda>opts k. map_option (AnyBytes \<circ> bytes_of_string) (map_of opts k))\<rparr>"

lemma unat_of_char [simp]: "unat (of_char c :: byte) = of_char c"
  by (simp add: of_char_def)

lemma string_of_bytes_of_string [simp]: "string_of_bytes (bytes_of_string s) = s"
  by (simp add: bytes_of_string_def string_of_bytes_def comp_def)

lemma of_char_char_of [simp]: "(of_char (char_of (unat b)) :: byte) = b"
proof -
  have "unat b < 2 ^ LENGTH(8)" by (rule unsigned_less)
  then have "unat (of_char (char_of (unat b)) :: byte) = unat b" by simp
  then show ?thesis by (simp only: word_unat_eq_iff)
qed

lemma bytes_of_string_of_bytes [simp]: "bytes_of_string (string_of_bytes bs) = bs"
  by (simp add: bytes_of_string_def string_of_bytes_def comp_def)

lemma bytes_of_string_inj [simp]: "bytes_of_string s = bytes_of_string t \<longleftrightarrow> s = t"
  by (metis string_of_bytes_of_string)

section \<open>Strings\<close>

definition HasPrefix :: "'a list \<Rightarrow> 'a list \<Rightarrow> bool" where
  "HasPrefix s p \<longleftrightarrow> length p \<le> length s \<and> take (length p) s = p"

definition HasSuffix :: "'a list \<Rightarrow> 'a list \<Rightarrow> bool" where
  "HasSuffix s p \<longleftrightarrow> length p \<le> length s \<and> drop (length s - length p) s = p"

fun Contains :: "'a list \<Rightarrow> 'a list \<Rightarrow> bool" where
  "Contains [] p = (p = [])"
| "Contains (c # s) p = (HasPrefix (c # s) p \<or> Contains s p)"

definition TrimPrefix :: "'a list \<Rightarrow> 'a list \<Rightarrow> 'a list" where
  "TrimPrefix s p = (if HasPrefix s p then drop (length p) s else s)"

definition TrimSuffix :: "'a list \<Rightarrow> 'a list \<Rightarrow> 'a list" where
  "TrimSuffix s p = (if HasSuffix s p then take (length s - length p) s else s)"

text \<open>\<^verbatim>\<open>strings.Split\<close> at a separator of one byte: never an empty list.\<close>

fun Split :: "'a list \<Rightarrow> 'a \<Rightarrow> 'a list list" where
  "Split [] d = [[]]"
| "Split (c # s) d =
     (if c = d then [] # Split s d
      else (case Split s d of [] \<Rightarrow> [[c]] | f # fs \<Rightarrow> (c # f) # fs))"

fun Join :: "'a list \<Rightarrow> 'a list list \<Rightarrow> 'a list" where
  "Join d [] = []"
| "Join d [x] = x"
| "Join d (x # y # xs) = x @ d @ Join d (y # xs)"

lemma HasPrefix_iff [go_simps]: "HasPrefix s p \<longleftrightarrow> (\<exists>t. s = p @ t)"
  by (auto simp: HasPrefix_def) (metis append_take_drop_id)

lemma HasSuffix_iff [go_simps]: "HasSuffix s p \<longleftrightarrow> (\<exists>t. s = t @ p)"
  by (auto simp: HasSuffix_def) (metis append_take_drop_id)

lemma HasPrefix_append [simp]: "HasPrefix (p @ s) p"
  by (auto simp: HasPrefix_iff)

lemma HasSuffix_append [simp]: "HasSuffix (s @ p) p"
  by (auto simp: HasSuffix_iff)

lemma HasPrefix_self [simp]: "HasPrefix s s"
  by (auto simp: HasPrefix_iff)

lemma HasPrefix_Cons [simp]: "HasPrefix (c # s) (d # p) \<longleftrightarrow> c = d \<and> HasPrefix s p"
  by (auto simp: HasPrefix_iff)

lemma HasPrefix_Nil [simp]: "HasPrefix s []" and HasPrefix_of_Nil [simp]: "HasPrefix [] p \<longleftrightarrow> p = []"
  by (auto simp: HasPrefix_iff)

lemma HasSuffix_Nil [simp]: "HasSuffix s []"
  by (auto simp: HasSuffix_iff)

lemma HasSuffix_same_length:
  "length a = length b \<Longrightarrow> HasSuffix (s @ a) b \<longleftrightarrow> a = b"
  by (auto simp: HasSuffix_def)

lemma TrimPrefix_append [simp]: "TrimPrefix (p @ s) p = s"
  by (simp add: TrimPrefix_def)

lemma TrimSuffix_append [simp]: "TrimSuffix (s @ p) p = s"
  by (simp add: TrimSuffix_def)

lemma Contains_single [simp]: "Contains s [c] \<longleftrightarrow> c \<in> set s"
  by (induction s) (auto simp: HasPrefix_def)

lemma Split_nonempty [simp]: "Split s d \<noteq> []"
  by (induction s) (auto split: list.splits)

lemma Split_no_sep: "d \<notin> set s \<Longrightarrow> Split s d = [s]"
  by (induction s) (auto split: list.splits)

lemma Split_append_sep:
  "d \<notin> set s \<Longrightarrow> Split (s @ d # t) d = s # Split t d"
  by (induction s) auto

lemma length_Split: "length (Split s d) = Suc (count_list s d)"
  by (induction s) (auto split: list.splits)

lemma Join_Split: "Join [d] (Split s d) = s"
proof (induction s)
  case (Cons c s)
  obtain f fs where fs: "Split s d = f # fs" by (cases "Split s d") auto
  with Cons show ?case by (cases fs) auto
qed simp

lemma Split_append: "Split (s @ d # t) d = Split s d @ Split t d"
  by (induction s) (auto split: list.splits)

lemma Split_parts: "x \<in> set (Split s d) \<Longrightarrow> d \<notin> set x"
  by (induction s arbitrary: x) (auto split: list.splits if_splits)

lemma Join_append:
  "xs \<noteq> [] \<Longrightarrow> ys \<noteq> [] \<Longrightarrow> Join d (xs @ ys) = Join d xs @ d @ Join d ys"
proof (induction xs)
  case (Cons x xs)
  show ?case
  proof (cases xs)
    case Nil
    with Cons.prems show ?thesis by (cases ys) auto
  next
    case (Cons y zs)
    with Cons.IH Cons.prems show ?thesis by simp
  qed
qed simp

lemma Join_eq_Nil: "xs \<noteq> [] \<Longrightarrow> Join [c] xs = [] \<longleftrightarrow> xs = [[]]"
  by (induction "[c]" xs rule: Join.induct) auto

lemma Split_eq_single_Nil [simp]: "Split s d = [[]] \<longleftrightarrow> s = []"
  using Join_Split [of d s] by auto

lemma Split_eq_append:
  assumes "Split r d = Split p d @ xs" and "xs \<noteq> []"
  shows "r = p @ d # Join [d] xs"
proof -
  have "r = Join [d] (Split p d @ xs)" using Join_Split [of d r] assms(1) by simp
  also have "\<dots> = p @ d # Join [d] xs" using assms(2) by (simp add: Join_append Join_Split)
  finally show ?thesis .
qed

section \<open>Numbers as text\<close>

definition digit_char :: "nat \<Rightarrow> char" where
  "digit_char d = char_of (48 + d)"

definition digit_val :: "char \<Rightarrow> nat option" where
  "digit_val c = (let n = (of_char c :: nat) in if 48 \<le> n \<and> n \<le> 57 then Some (n - 48) else None)"

fun nat_to_dec :: "nat \<Rightarrow> string" where
  "nat_to_dec n =
     (if n < 10 then [digit_char n] else nat_to_dec (n div 10) @ [digit_char (n mod 10)])"

declare nat_to_dec.simps [simp del]

text \<open>The verb \<^verbatim>\<open>%d\<close> on an integer.\<close>

definition itoa :: "int \<Rightarrow> string" where
  "itoa i = (if i < 0 then CHR ''-'' # nat_to_dec (nat (- i)) else nat_to_dec (nat i))"

fun dec_acc :: "nat \<Rightarrow> string \<Rightarrow> nat option" where
  "dec_acc a [] = Some a"
| "dec_acc a (c # s) = (case digit_val c of None \<Rightarrow> None | Some d \<Rightarrow> dec_acc (10 * a + d) s)"

text \<open>
  \<^verbatim>\<open>strconv.ParseUint(s, 10, bits)\<close>: digits only, no sign, at least one, and in range.
  \<^verbatim>\<open>strconv.Atoi\<close>: an optional sign, then digits, in the range of a 64-bit \<^verbatim>\<open>int\<close>.
\<close>

definition ParseUint :: "string \<Rightarrow> nat \<Rightarrow> nat res" where
  "ParseUint s bits =
     (if s = [] then Inl (Ext ''strconv.ParseUint: invalid syntax'')
      else case dec_acc 0 s of
        None \<Rightarrow> Inl (Ext ''strconv.ParseUint: invalid syntax'')
      | Some n \<Rightarrow> (if n < 2 ^ bits then Inr n
                   else Inl (Ext ''strconv.ParseUint: value out of range'')))"

definition Atoi :: "string \<Rightarrow> int res" where
  "Atoi s =
     (let neg = HasPrefix s ''-'';
          ds = (if neg \<or> HasPrefix s ''+'' then drop 1 s else s)
      in if ds = [] then Inl (Ext ''strconv.Atoi: invalid syntax'')
         else case dec_acc 0 ds of
           None \<Rightarrow> Inl (Ext ''strconv.Atoi: invalid syntax'')
         | Some n \<Rightarrow>
             (let i = (if neg then - int n else int n)
              in if - (2 ^ 63) \<le> i \<and> i < 2 ^ 63 then Inr i
                 else Inl (Ext ''strconv.Atoi: value out of range'')))"

lemma digit_char_numeral [simp]:
  "digit_char 0 = CHR ''0''" "digit_char (Suc 0) = CHR ''1''" "digit_char 2 = CHR ''2''"
  "digit_char 3 = CHR ''3''" "digit_char 4 = CHR ''4''" "digit_char 5 = CHR ''5''"
  "digit_char 6 = CHR ''6''" "digit_char 7 = CHR ''7''" "digit_char 8 = CHR ''8''"
  "digit_char 9 = CHR ''9''"
  by code_simp+

lemma of_char_digit_char: "d < 10 \<Longrightarrow> of_char (digit_char d) = (48 + d :: nat)"
  by (simp add: digit_char_def of_char_of)

lemma digit_val_char [simp]: "d < 10 \<Longrightarrow> digit_val (digit_char d) = Some d"
  by (simp add: digit_val_def of_char_digit_char)

lemma digit_val_range: "digit_val c = Some d \<Longrightarrow> d < 10"
  by (auto simp: digit_val_def Let_def split: if_splits)

lemma dec_acc_append:
  "dec_acc a (xs @ ys) = (case dec_acc a xs of None \<Rightarrow> None | Some b \<Rightarrow> dec_acc b ys)"
  by (induction xs arbitrary: a) (auto split: option.splits)

lemma dec_acc_nat_to_dec [simp]: "dec_acc 0 (nat_to_dec n) = Some n"
proof (induction n rule: nat_to_dec.induct)
  case (1 n)
  show ?case
  proof (cases "n < 10")
    case True
    then show ?thesis by (simp add: nat_to_dec.simps [of n])
  next
    case False
    with 1 have "dec_acc 0 (nat_to_dec (n div 10)) = Some (n div 10)" by simp
    with False show ?thesis by (simp add: nat_to_dec.simps [of n] dec_acc_append)
  qed
qed

lemma nat_to_dec_inj: "nat_to_dec m = nat_to_dec n \<longleftrightarrow> m = n"
  by (metis dec_acc_nat_to_dec option.inject)

lemma nat_to_dec_nonempty [simp]: "nat_to_dec n \<noteq> []"
  by (subst nat_to_dec.simps) simp

lemma nat_to_dec_digits: "c \<in> set (nat_to_dec n) \<Longrightarrow> \<exists>d<10. c = digit_char d"
proof (induction n rule: nat_to_dec.induct)
  case (1 n)
  show ?case
  proof (cases "n < 10")
    case True
    with "1.prems" show ?thesis by (auto simp: nat_to_dec.simps [of n])
  next
    case False
    with "1.prems" have "c = digit_char (n mod 10) \<or> c \<in> set (nat_to_dec (n div 10))"
      by (simp add: nat_to_dec.simps [of n])
    with "1.IH" [OF False] show ?thesis by (metis mod_less_divisor zero_less_numeral)
  qed
qed

lemma nat_to_dec_no_char:
  assumes "\<And>d. d < 10 \<Longrightarrow> c \<noteq> digit_char d"
  shows "c \<notin> set (nat_to_dec n)"
  using assms nat_to_dec_digits by blast

lemma digit_val_digit_charD: "digit_val c = None \<Longrightarrow> d < 10 \<Longrightarrow> c \<noteq> digit_char d"
  by auto

lemma nat_to_dec_no_sep: "digit_val c = None \<Longrightarrow> c \<notin> set (nat_to_dec n)"
  by (rule nat_to_dec_no_char) (rule digit_val_digit_charD)

lemma itoa_nonneg: "0 \<le> i \<Longrightarrow> itoa i = nat_to_dec (nat i)"
  by (simp add: itoa_def)

lemma itoa_inj_nonneg: "0 \<le> i \<Longrightarrow> 0 \<le> j \<Longrightarrow> itoa i = itoa j \<longleftrightarrow> i = j"
  by (auto simp: itoa_nonneg nat_to_dec_inj)

lemma ParseUint_nat_to_dec [simp]: "n < 2 ^ bits \<Longrightarrow> ParseUint (nat_to_dec n) bits = Inr n"
  by (simp add: ParseUint_def)

lemma Atoi_nat_to_dec [simp]:
  assumes "n < 2 ^ 63"
  shows "Atoi (nat_to_dec n) = Inr (int n)"
proof -
  have "\<not> HasPrefix (nat_to_dec n) [c]" if "digit_val c = None" for c
    using nat_to_dec_no_sep [OF that, of n] by (auto simp: HasPrefix_iff)
  then have "\<not> HasPrefix (nat_to_dec n) ''-''" "\<not> HasPrefix (nat_to_dec n) ''+''"
    by (simp_all add: digit_val_def)
  moreover have "int n < 2 ^ 63" using assms by simp
  ultimately show ?thesis by (simp add: Atoi_def)
qed

text \<open>
  The verb \<^verbatim>\<open>%q\<close>: \<^verbatim>\<open>strconv.Quote\<close>.  Bytes from \<open>0x80\<close> up are kept, which is what it does to
  valid UTF-8 text made of printable characters.
\<close>

definition hex_digit :: "nat \<Rightarrow> char" where
  "hex_digit n = ''0123456789abcdef'' ! (n mod 16)"

definition quote_char :: "char \<Rightarrow> string" where
  "quote_char c =
     (let n = (of_char c :: nat) in
      if n = 34 \<or> n = 92 then [char_of (92::nat), c]
      else if n = 7 then [char_of (92::nat), CHR ''a'']
      else if n = 8 then [char_of (92::nat), CHR ''b'']
      else if n = 12 then [char_of (92::nat), CHR ''f'']
      else if n = 10 then [char_of (92::nat), CHR ''n'']
      else if n = 13 then [char_of (92::nat), CHR ''r'']
      else if n = 9 then [char_of (92::nat), CHR ''t'']
      else if n = 11 then [char_of (92::nat), CHR ''v'']
      else if n < 32 \<or> n = 127
        then [char_of (92::nat), CHR ''x'', hex_digit (n div 16), hex_digit n]
      else [c])"

definition Quote :: "string \<Rightarrow> string" where
  "Quote s = [char_of (34::nat)] @ concat (map quote_char s) @ [char_of (34::nat)]"

section \<open>Go maps and iterators\<close>

text \<open>
  A Go map is a partial function.  A \<^verbatim>\<open>range\<close> over it visits its keys in an order the runtime
  chooses: the operations that iterate take that order as an argument, and \<open>enumerates\<close>
  says it is one the runtime may choose.
\<close>

definition enumerates :: "'k list \<Rightarrow> ('k \<rightharpoonup> 'v) \<Rightarrow> bool" where
  "enumerates ks m \<longleftrightarrow> distinct ks \<and> set ks = dom m"

lemma enumerates_finite: "enumerates ks m \<Longrightarrow> finite (dom m)"
  by (metis List.finite_set enumerates_def)

lemma enumerates_card: "enumerates ks m \<Longrightarrow> length ks = card (dom m)"
  by (metis distinct_card enumerates_def)

lemma enumerates_exists: "finite (dom m) \<Longrightarrow> \<exists>ks. enumerates ks m"
  by (metis enumerates_def finite_distinct_list)

text \<open>The loop variable of \<^verbatim>\<open>for _, v := range m\<close>: the values in visiting order.\<close>

definition range_values :: "'k list \<Rightarrow> ('k \<rightharpoonup> 'v) \<Rightarrow> 'v list" where
  "range_values ks m = List.map_filter m ks"

lemma set_range_values: "enumerates ks m \<Longrightarrow> set (range_values ks m) = ran m"
  by (force simp: range_values_def enumerates_def map_filter_def ran_def dom_def)

lemma length_range_values: "enumerates ks m \<Longrightarrow> length (range_values ks m) = card (dom m)"
proof -
  assume e: "enumerates ks m"
  then have "filter (\<lambda>k. m k \<noteq> None) ks = ks"
    by (auto simp: enumerates_def dom_def intro: filter_True)
  with e show ?thesis
    by (simp add: range_values_def map_filter_def comp_def enumerates_card)
qed

text \<open>
  A push iterator \<^verbatim>\<open>iter.Seq\<close>: the consumer's \<^verbatim>\<open>yield\<close> gets each element and its own state,
  and answers whether to go on.
\<close>

fun seq_run :: "('a \<Rightarrow> 's \<Rightarrow> bool \<times> 's) \<Rightarrow> 'a list \<Rightarrow> 's \<Rightarrow> 's" where
  "seq_run yield [] s = s"
| "seq_run yield (x # xs) s =
     (case yield x s of (go, s') \<Rightarrow> if go then seq_run yield xs s' else s')"

text \<open>A consumer that collects what it is given until it has seen \<open>n\<close> elements.\<close>

definition collect_until :: "nat \<Rightarrow> 'a \<Rightarrow> 'a list \<Rightarrow> bool \<times> 'a list" where
  "collect_until n x acc = (length acc + 1 < n, acc @ [x])"

lemma seq_run_collect_until:
  "length acc < n \<Longrightarrow> seq_run (collect_until n) xs acc = acc @ take (n - length acc) xs"
proof (induction xs arbitrary: acc)
  case (Cons x xs)
  show ?case
  proof (cases "length acc + 1 < n")
    case True
    then have "seq_run (collect_until n) xs (acc @ [x]) = (acc @ [x]) @ take (n - Suc (length acc)) xs"
      using Cons.IH [of "acc @ [x]"] by simp
    moreover have "n - length acc = Suc (n - Suc (length acc))" using True by simp
    moreover have "collect_until n x acc = (True, acc @ [x])"
      using True by (simp add: collect_until_def)
    ultimately show ?thesis by simp
  next
    case False
    with Cons.prems have "n - length acc = 1" by simp
    with False show ?thesis by (simp add: collect_until_def)
  qed
qed simp

section \<open>The contract of a keyed store\<close>

text \<open>
  Several components keep values under a string key behind an insert, a lookup and a delete:
  the agent registry and the session stores.  Their clients rely on the laws below only.  The
  insert may refuse its argument; \<open>key\<close> and \<open>stored\<close> say where an accepted argument goes and
  what is kept of it.  A history of such calls is a list of \<open>store_op\<close>; \<open>replay\<close> is what the
  history does to a plain map, the abstract specification of every such store.
\<close>

datatype 'a store_op = Put 'a | Del string

fun run_ops :: "('a \<Rightarrow> 's \<Rightarrow> 's res) \<Rightarrow> (string \<Rightarrow> 's \<Rightarrow> 's) \<Rightarrow> 'a store_op list \<Rightarrow> 's \<Rightarrow> 's" where
  "run_ops ins rmv [] s = s"
| "run_ops ins rmv (Put a # xs) s =
     run_ops ins rmv xs (case ins a s of Inl _ \<Rightarrow> s | Inr s' \<Rightarrow> s')"
| "run_ops ins rmv (Del k # xs) s = run_ops ins rmv xs (rmv k s)"

fun replay :: "('a \<Rightarrow> bool) \<Rightarrow> ('a \<Rightarrow> string) \<Rightarrow> ('a \<Rightarrow> 'v) \<Rightarrow> 'a store_op list \<Rightarrow>
    (string \<rightharpoonup> 'v) \<Rightarrow> (string \<rightharpoonup> 'v)" where
  "replay acc key stored [] m = m"
| "replay acc key stored (Put a # xs) m =
     replay acc key stored xs (if acc a then m(key a \<mapsto> stored a) else m)"
| "replay acc key stored (Del k # xs) m = replay acc key stored xs (m(k := None))"

locale keyed_store =
  fixes lookup :: "'s \<Rightarrow> string \<Rightarrow> 'v option"
    and ins :: "'a \<Rightarrow> 's \<Rightarrow> 's res"
    and rmv :: "string \<Rightarrow> 's \<Rightarrow> 's"
    and accepts :: "'a \<Rightarrow> bool"
    and key :: "'a \<Rightarrow> string"
    and stored :: "'a \<Rightarrow> 'v"
    and inv :: "'s \<Rightarrow> bool"
  assumes ins_accepts: "inv s \<Longrightarrow> ok (ins a s) \<longleftrightarrow> accepts a"
    and lookup_ins: "inv s \<Longrightarrow> ins a s = Inr s' \<Longrightarrow> lookup s' = (lookup s)(key a \<mapsto> stored a)"
    and lookup_rmv: "inv s \<Longrightarrow> lookup (rmv k s) = (lookup s)(k := None)"
    and inv_ins: "inv s \<Longrightarrow> ins a s = Inr s' \<Longrightarrow> inv s'"
    and inv_rmv: "inv s \<Longrightarrow> inv (rmv k s)"
begin

lemma ins_Inr: "inv s \<Longrightarrow> accepts a \<Longrightarrow> \<exists>s'. ins a s = Inr s'"
  using ins_accepts [of s a] by (cases "ins a s") auto

lemma ins_Inl: "inv s \<Longrightarrow> \<not> accepts a \<Longrightarrow> \<exists>e. ins a s = Inl e"
  using ins_accepts [of s a] by (cases "ins a s") auto

lemma lookup_ins_same: "inv s \<Longrightarrow> ins a s = Inr s' \<Longrightarrow> lookup s' (key a) = Some (stored a)"
  by (simp add: lookup_ins)

lemma lookup_ins_other: "inv s \<Longrightarrow> ins a s = Inr s' \<Longrightarrow> k \<noteq> key a \<Longrightarrow> lookup s' k = lookup s k"
  by (simp add: lookup_ins)

lemma lookup_rmv_ins:
  "inv s \<Longrightarrow> ins a s = Inr s' \<Longrightarrow> lookup (rmv (key a) s') = lookup (rmv (key a) s)"
  by (simp add: lookup_ins lookup_rmv inv_ins)

lemma run_ops_inv: "inv s \<Longrightarrow> inv (run_ops ins rmv xs s)"
proof (induction xs arbitrary: s)
  case (Cons x xs)
  then show ?case
    by (cases x) (auto intro: inv_ins inv_rmv split: sum.splits)
qed simp

text \<open>Any history of calls leaves the store equal to the map that replays it.\<close>

lemma run_ops_replay:
  "inv s \<Longrightarrow> lookup (run_ops ins rmv xs s) = replay accepts key stored xs (lookup s)"
proof (induction xs arbitrary: s)
  case (Cons x xs)
  show ?case
  proof (cases x)
    case (Put a)
    show ?thesis
    proof (cases "accepts a")
      case True
      with Cons.prems obtain s' where s': "ins a s = Inr s'" using ins_Inr by blast
      have "lookup s' = (lookup s)(key a \<mapsto> stored a)" by (rule lookup_ins [OF Cons.prems s'])
      with Cons.IH [OF inv_ins [OF Cons.prems s']] Put True s' show ?thesis
        by (simp del: fun_upd_apply)
    next
      case False
      with Cons.prems obtain e where "ins a s = Inl e" using ins_Inl by blast
      with Cons Put False show ?thesis by simp
    qed
  next
    case (Del k)
    with Cons.IH [OF inv_rmv [OF Cons.prems]] lookup_rmv [OF Cons.prems] show ?thesis
      by (simp del: fun_upd_apply)
  qed
qed simp

end

end
