(* ===== verification/Trust.thy ===== *)
theory Trust
  imports Prelude
begin

text \<open>
  \<^verbatim>\<open>go/trust/trust.go\<close>: tiers, capabilities, agents and the registry of agents.  The registry's
  lock makes each operation atomic, so an operation is a function on the registry's state.
  The lemmas show what registration admits, that every operation keeps the registry well formed,
  and that the registry is a keyed store.
\<close>

section \<open>Tiers and capabilities\<close>

text \<open>\<^verbatim>\<open>type Tier int\<close>: any integer is a tier value, three of them are valid.\<close>

type_synonym Tier = int

definition TierUntrusted :: Tier where "TierUntrusted = 1"
definition TierVerified :: Tier where "TierVerified = 2"
definition TierFull :: Tier where "TierFull = 3"

lemmas tier_defs = TierUntrusted_def TierVerified_def TierFull_def

definition Tier_String :: "Tier \<Rightarrow> string" where
  "Tier_String t =
     (if t = TierUntrusted then ''untrusted''
      else if t = TierVerified then ''verified''
      else if t = TierFull then ''full''
      else ''unknown('' @ itoa t @ '')'')"

definition Tier_Valid :: "Tier \<Rightarrow> bool" where
  "Tier_Valid t \<longleftrightarrow> TierUntrusted \<le> t \<and> t \<le> TierFull"

type_synonym Capability = string

definition CapPushRepo :: Capability where "CapPushRepo = ''repo.push''"
definition CapMergePR :: Capability where "CapMergePR = ''pr.merge''"
definition CapCreatePR :: Capability where "CapCreatePR = ''pr.create''"
definition CapCreateIssue :: Capability where "CapCreateIssue = ''issue.create''"
definition CapCommentIssue :: Capability where "CapCommentIssue = ''issue.comment''"
definition CapReadSecrets :: Capability where "CapReadSecrets = ''secrets.read''"
definition CapRunPrivileged :: Capability where "CapRunPrivileged = ''cmd.privileged''"
definition CapAccessWorkspace :: Capability where "CapAccessWorkspace = ''workspace.access''"
definition CapModifyFlows :: Capability where "CapModifyFlows = ''flows.modify''"

lemmas cap_defs = CapPushRepo_def CapMergePR_def CapCreatePR_def CapCreateIssue_def
  CapCommentIssue_def CapReadSecrets_def CapRunPrivileged_def CapAccessWorkspace_def
  CapModifyFlows_def

section \<open>Agents and the registry\<close>

record Agent =
  Agent_Name :: string
  Agent_Tier :: Tier
  Agent_ScopedRepos :: "string list"
  Agent_RateLimit :: int
  Agent_TokenExpiresAt :: gotime
  Agent_CreatedAt :: gotime

record Registry =
  agents :: "string \<rightharpoonup> Agent"

definition NewRegistry :: Registry where
  "NewRegistry = \<lparr>agents = Map.empty\<rparr>"

definition defaultRateLimit :: "Tier \<Rightarrow> int" where
  "defaultRateLimit t =
     (if t = TierUntrusted then 10
      else if t = TierVerified then 60
      else if t = TierFull then 0
      else 10)"

text \<open>
  \<^verbatim>\<open>Register\<close> gets the agent by value, fills in the creation time (\<open>now\<close> is what
  \<^verbatim>\<open>time.Now()\<close> answers) and the rate limit, and stores it.
\<close>

definition Registry_Register :: "gotime \<Rightarrow> Agent \<Rightarrow> Registry \<Rightarrow> Registry res" where
  "Registry_Register now agent r =
     (if Agent_Name agent = '''' then Inl (E ''trust.Register'' ''agent name is required'' None)
      else if \<not> Tier_Valid (Agent_Tier agent) then
        Inl (E ''trust.Register''
              (''invalid tier '' @ itoa (Agent_Tier agent) @ '' for agent '' @ Quote (Agent_Name agent))
              None)
      else
        (let a1 = (if IsZero (Agent_CreatedAt agent) then agent\<lparr>Agent_CreatedAt := now\<rparr> else agent);
             a2 = (if Agent_RateLimit a1 = 0
                   then a1\<lparr>Agent_RateLimit := defaultRateLimit (Agent_Tier a1)\<rparr> else a1)
         in Inr (r\<lparr>agents := (agents r)(Agent_Name a2 \<mapsto> a2)\<rparr>)))"

definition Registry_Get :: "Registry \<Rightarrow> string \<Rightarrow> Agent option" where
  "Registry_Get r name = agents r name"

definition Registry_Remove :: "string \<Rightarrow> Registry \<Rightarrow> bool \<times> Registry" where
  "Registry_Remove name r =
     (case agents r name of
        None \<Rightarrow> (False, r)
      | Some _ \<Rightarrow> (True, r\<lparr>agents := (agents r)(name := None)\<rparr>))"

definition Registry_List :: "string list \<Rightarrow> Registry \<Rightarrow> Agent list" where
  "Registry_List ks r = range_values ks (agents r)"

definition Registry_ListSeq :: "string list \<Rightarrow> Registry \<Rightarrow> (Agent \<Rightarrow> 's \<Rightarrow> bool \<times> 's) \<Rightarrow> 's \<Rightarrow> 's" where
  "Registry_ListSeq ks r yield s = seq_run yield (range_values ks (agents r)) s"

definition Registry_Len :: "Registry \<Rightarrow> nat" where
  "Registry_Len r = card (dom (agents r))"

lemmas registry_defs = Registry_Register_def Registry_Get_def Registry_Remove_def

section \<open>What registration keeps\<close>

text \<open>
  The stored form of an accepted agent, and the well-formedness every operation keeps: an entry
  sits under its own nonempty name, has a valid tier and a creation time, and is without a rate
  limit only at full trust.
\<close>

definition admitted :: "Agent \<Rightarrow> bool" where
  "admitted a \<longleftrightarrow> Agent_Name a \<noteq> '''' \<and> Tier_Valid (Agent_Tier a)"

definition stored_agent :: "gotime \<Rightarrow> Agent \<Rightarrow> Agent" where
  "stored_agent now a =
     a\<lparr>Agent_RateLimit := (if Agent_RateLimit a = 0 then defaultRateLimit (Agent_Tier a)
                           else Agent_RateLimit a),
       Agent_CreatedAt := (if Agent_CreatedAt a = 0 then now else Agent_CreatedAt a)\<rparr>"

definition agent_wf :: "string \<Rightarrow> Agent \<Rightarrow> bool" where
  "agent_wf k a \<longleftrightarrow> Agent_Name a = k \<and> k \<noteq> '''' \<and> Tier_Valid (Agent_Tier a) \<and>
     (Agent_RateLimit a = 0 \<longrightarrow> Agent_Tier a = TierFull)"

definition registry_wf :: "Registry \<Rightarrow> bool" where
  "registry_wf r \<longleftrightarrow> finite (dom (agents r)) \<and> (\<forall>k a. agents r k = Some a \<longrightarrow> agent_wf k a)"

lemma Tier_Valid_cases: "Tier_Valid t \<longleftrightarrow> t = TierUntrusted \<or> t = TierVerified \<or> t = TierFull"
  by (auto simp: Tier_Valid_def tier_defs)

lemma Register_eq:
  "Registry_Register now a r =
     (if admitted a then Inr (r\<lparr>agents := (agents r)(Agent_Name a \<mapsto> stored_agent now a)\<rparr>)
      else Inl (if Agent_Name a = '''' then E ''trust.Register'' ''agent name is required'' None
                else E ''trust.Register''
                       (''invalid tier '' @ itoa (Agent_Tier a) @ '' for agent '' @ Quote (Agent_Name a))
                       None))"
  by (cases a) (auto simp: Registry_Register_def admitted_def stored_agent_def IsZero_def Let_def)

lemma Remove_state: "snd (Registry_Remove k r) = r\<lparr>agents := (agents r)(k := None)\<rparr>"
  by (cases r) (auto simp: Registry_Remove_def fun_upd_idem split: option.splits)

lemma Remove_result: "fst (Registry_Remove k r) \<longleftrightarrow> k \<in> dom (agents r)"
  by (auto simp: Registry_Remove_def split: option.splits)

lemma stored_agent_simps [simp]:
  "Agent_Name (stored_agent now a) = Agent_Name a"
  "Agent_Tier (stored_agent now a) = Agent_Tier a"
  "Agent_ScopedRepos (stored_agent now a) = Agent_ScopedRepos a"
  by (simp_all add: stored_agent_def)

lemma stored_agent_wf: "admitted a \<Longrightarrow> agent_wf (Agent_Name a) (stored_agent now a)"
  by (auto simp: agent_wf_def admitted_def stored_agent_def Tier_Valid_cases defaultRateLimit_def
      tier_defs split: if_splits)

lemma registry_wf_New: "registry_wf NewRegistry"
  by (simp add: registry_wf_def NewRegistry_def)

lemma registry_wf_Register:
  "registry_wf r \<Longrightarrow> Registry_Register now a r = Inr r' \<Longrightarrow> registry_wf r'"
  by (auto simp: registry_wf_def Register_eq stored_agent_wf split: if_splits)

lemma registry_wf_Remove: "registry_wf r \<Longrightarrow> registry_wf (snd (Registry_Remove k r))"
  by (auto simp: registry_wf_def Remove_state dom_fun_upd)

text \<open>The registry provides the keyed store its clients use.\<close>

interpretation registry: keyed_store
  Registry_Get "\<lambda>(now, a). Registry_Register now a" "\<lambda>k r. snd (Registry_Remove k r)"
  "\<lambda>(now, a). admitted a" "\<lambda>(now, a). Agent_Name a" "\<lambda>(now, a). stored_agent now a" registry_wf
  by unfold_locales
     (auto simp: Register_eq Registry_Get_def Remove_state fun_eq_iff
       intro: registry_wf_Register registry_wf_Remove [unfolded Remove_state] split: if_splits)

end
