(* ===== verification/Policy.thy ===== *)
theory Policy
  imports Trust
begin

text \<open>
  \<^verbatim>\<open>go/trust/policy.go\<close>: policies per tier, scope patterns, and the engine's evaluation of a
  capability request against the registry.  The engine holds a pointer to the registry it shares
  with its owner; here the registry is an argument of \<open>Evaluate\<close>.  The lemmas characterise the
  pattern match over path segments, say exactly when a request is allowed, and compare tiers.
\<close>

section \<open>Decisions and policies\<close>

text \<open>
  \<^verbatim>\<open>type Decision int\<close> with three named values; \<open>OtherDecision n\<close> is any further integer, which
  only a caller's conversion can make.
\<close>

datatype Decision = Deny | Allow | NeedsApproval | OtherDecision int

fun Decision_String :: "Decision \<Rightarrow> string" where
  "Decision_String Deny = ''deny''"
| "Decision_String Allow = ''allow''"
| "Decision_String NeedsApproval = ''needs_approval''"
| "Decision_String (OtherDecision n) = ''unknown('' @ itoa n @ '')''"

record Policy =
  Policy_Tier :: Tier
  Policy_Allowed :: "Capability list"
  Policy_RequiresApproval :: "Capability list"
  Policy_Denied :: "Capability list"

record PolicyEngine =
  policies :: "Tier \<rightharpoonup> Policy"

record EvalResult =
  Result_Decision :: Decision
  Result_Agent :: string
  Result_Cap :: Capability
  Result_Reason :: string

section \<open>Scope patterns\<close>

definition isRepoScoped :: "Capability \<Rightarrow> bool" where
  "isRepoScoped cap \<longleftrightarrow>
     HasPrefix cap ''repo.'' \<or> HasPrefix cap ''pr.'' \<or> cap = CapReadSecrets"

definition matchScope :: "string \<Rightarrow> string \<Rightarrow> bool" where
  "matchScope pattern repo =
     (if pattern = repo then True
      else if \<not> Contains pattern ''*'' then False
      else if HasSuffix pattern ''/**'' then
        (let prefix = take (length pattern - 3) pattern
         in if \<not> HasPrefix repo (prefix @ ''/'') then False
            else length repo > length prefix + 1)
      else if HasSuffix pattern ''/*'' then
        (let prefix = take (length pattern - 2) pattern
         in if \<not> HasPrefix repo (prefix @ ''/'') then False
            else (let remainder = drop (length prefix + 1) repo
                  in remainder \<noteq> '''' \<and> \<not> Contains remainder ''/''))
      else False)"

definition repoAllowed :: "string list \<Rightarrow> string \<Rightarrow> bool" where
  "repoAllowed scoped repo =
     (if repo = '''' then False else list_ex (\<lambda>pattern. matchScope pattern repo) scoped)"

section \<open>Evaluation\<close>

definition Evaluate :: "Registry \<Rightarrow> PolicyEngine \<Rightarrow> string \<Rightarrow> Capability \<Rightarrow> string \<Rightarrow> EvalResult" where
  "Evaluate reg pe agentName cap repo =
     (let result = (\<lambda>d why. \<lparr>Result_Decision = d, Result_Agent = agentName, Result_Cap = cap,
                             Result_Reason = why\<rparr>)
      in case Registry_Get reg agentName of
        None \<Rightarrow> result Deny ''agent not registered''
      | Some agent \<Rightarrow>
          (case policies pe (Agent_Tier agent) of
             None \<Rightarrow> result Deny (''no policy for tier '' @ Tier_String (Agent_Tier agent))
           | Some policy \<Rightarrow>
               if List.member (Policy_Denied policy) cap then
                 result Deny (''capability '' @ cap @ '' is denied for tier '' @
                              Tier_String (Agent_Tier agent))
               else if List.member (Policy_RequiresApproval policy) cap then
                 result NeedsApproval (''capability '' @ cap @ '' requires approval for tier '' @
                              Tier_String (Agent_Tier agent))
               else if List.member (Policy_Allowed policy) cap then
                 (if isRepoScoped cap \<and> length (Agent_ScopedRepos agent) > 0 \<and>
                     \<not> repoAllowed (Agent_ScopedRepos agent) repo
                  then result Deny (''agent '' @ Quote agentName @
                              '' does not have access to repo '' @ Quote repo)
                  else result Allow (''capability '' @ cap @ '' allowed for tier '' @
                              Tier_String (Agent_Tier agent)))
               else result Deny (''capability '' @ cap @ '' not granted for tier '' @
                              Tier_String (Agent_Tier agent))))"

definition SetPolicy :: "Policy \<Rightarrow> PolicyEngine \<Rightarrow> PolicyEngine res" where
  "SetPolicy p pe =
     (if \<not> Tier_Valid (Policy_Tier p)
      then Inl (E ''trust.SetPolicy'' (''invalid tier '' @ itoa (Policy_Tier p)) None)
      else Inr (pe\<lparr>policies := (policies pe)(Policy_Tier p \<mapsto> p)\<rparr>))"

definition GetPolicy :: "PolicyEngine \<Rightarrow> Tier \<Rightarrow> Policy option" where
  "GetPolicy pe t = policies pe t"

definition default_full :: Policy where
  "default_full =
     \<lparr>Policy_Tier = TierFull,
      Policy_Allowed = [CapPushRepo, CapMergePR, CapCreatePR, CapCreateIssue, CapCommentIssue,
                        CapReadSecrets, CapRunPrivileged, CapAccessWorkspace, CapModifyFlows],
      Policy_RequiresApproval = [], Policy_Denied = []\<rparr>"

definition default_verified :: Policy where
  "default_verified =
     \<lparr>Policy_Tier = TierVerified,
      Policy_Allowed = [CapPushRepo, CapCreatePR, CapCreateIssue, CapCommentIssue, CapReadSecrets],
      Policy_RequiresApproval = [CapMergePR],
      Policy_Denied = [CapAccessWorkspace, CapModifyFlows, CapRunPrivileged]\<rparr>"

definition default_untrusted :: Policy where
  "default_untrusted =
     \<lparr>Policy_Tier = TierUntrusted,
      Policy_Allowed = [CapCreatePR, CapCommentIssue],
      Policy_RequiresApproval = [],
      Policy_Denied = [CapPushRepo, CapMergePR, CapCreateIssue, CapReadSecrets, CapRunPrivileged,
                       CapAccessWorkspace, CapModifyFlows]\<rparr>"

definition loadDefaults :: "PolicyEngine \<Rightarrow> PolicyEngine" where
  "loadDefaults pe =
     pe\<lparr>policies := (policies pe)(TierFull \<mapsto> default_full, TierVerified \<mapsto> default_verified,
                                   TierUntrusted \<mapsto> default_untrusted)\<rparr>"

definition NewPolicyEngine :: PolicyEngine where
  "NewPolicyEngine = loadDefaults \<lparr>policies = Map.empty\<rparr>"

lemmas default_defs = NewPolicyEngine_def loadDefaults_def default_full_def default_verified_def
  default_untrusted_def

section \<open>What a scope pattern covers\<close>

text \<open>
  The reference reading of a pattern, over the path segments of the pattern and the repository:
  an exact match; or a last segment \<^verbatim>\<open>**\<close>, which stands for any nonempty path below the segments
  before it; or a last segment \<^verbatim>\<open>*\<close>, which stands for one nonempty segment.
\<close>

definition segments :: "string \<Rightarrow> string list" where
  "segments s = Split s CHR ''/''"

definition scope_covers :: "string \<Rightarrow> string \<Rightarrow> bool" where
  "scope_covers pattern repo =
     (let ps = segments pattern; base = butlast ps; n = length base;
          rs = segments repo; rest = drop n rs
      in pattern = repo \<or>
         (base \<noteq> [] \<and> take n rs = base \<and>
           (last ps = ''**'' \<and> rest \<noteq> [] \<and> rest \<noteq> [''''] \<or>
            last ps = ''*'' \<and> length rest = 1 \<and> rest \<noteq> [''''])))"

lemma matchScope_iff:
  "matchScope p r \<longleftrightarrow>
     p = r \<or> (\<exists>b x. p = b @ ''/**'' \<and> r = b @ ''/'' @ x \<and> x \<noteq> []) \<or>
     (\<exists>b x. p = b @ ''/*'' \<and> r = b @ ''/'' @ x \<and> x \<noteq> [] \<and> CHR ''/'' \<notin> set x)"
proof -
  consider (deep) b where "p = b @ ''/**''" | (flat) b where "p = b @ ''/*''"
    | (none) "\<not> HasSuffix p ''/**''" "\<not> HasSuffix p ''/*''"
    by (auto simp: HasSuffix_iff)
  then show ?thesis
  proof cases
    case deep
    then have "\<not> HasSuffix p ''/*''" by (auto simp: HasSuffix_iff)
    with deep show ?thesis
      by (auto simp: matchScope_def HasPrefix_iff HasSuffix_iff)
  next
    case flat
    then have "\<not> HasSuffix p ''/**''" by (auto simp: HasSuffix_iff)
    with flat show ?thesis
      by (auto simp: matchScope_def HasPrefix_iff HasSuffix_iff)
  next
    case none
    then show ?thesis by (auto simp: matchScope_def HasSuffix_iff)
  qed
qed

lemma segments_append_slash: "segments (b @ CHR ''/'' # x) = segments b @ segments x"
  by (simp add: segments_def Split_append)

lemma segments_single: "CHR ''/'' \<notin> set x \<Longrightarrow> segments x = [x]"
  by (simp add: segments_def Split_no_sep)

lemma segments_nonempty [simp]: "segments x \<noteq> []"
  by (simp add: segments_def)

text \<open>A pattern ends in a slash and a wildcard exactly if that wildcard is its last segment.\<close>

lemma last_segment_iff:
  assumes "CHR ''/'' \<notin> set w"
  shows "(\<exists>b. p = b @ ''/'' @ w) \<longleftrightarrow> last (segments p) = w \<and> butlast (segments p) \<noteq> []"
proof
  assume "\<exists>b. p = b @ ''/'' @ w"
  then show "last (segments p) = w \<and> butlast (segments p) \<noteq> []"
    using assms by (auto simp: segments_append_slash segments_single)
next
  assume r: "last (segments p) = w \<and> butlast (segments p) \<noteq> []"
  then have "segments p = butlast (segments p) @ [w]" by (metis append_butlast_last_id segments_nonempty)
  then have "p = Join ''/'' (butlast (segments p) @ [w])"
    by (metis Join_Split segments_def)
  with r show "\<exists>b. p = b @ ''/'' @ w" by (auto simp: Join_append)
qed

lemma butlast_segments: "CHR ''/'' \<notin> set w \<Longrightarrow> butlast (segments (b @ CHR ''/'' # w)) = segments b"
  by (simp add: segments_append_slash segments_single)

lemma below_iff:
  "(\<exists>x. r = b @ ''/'' @ x \<and> P (segments x)) \<longleftrightarrow>
   (\<exists>xs. segments r = segments b @ xs \<and> xs \<noteq> [] \<and> P xs)"
proof
  assume "\<exists>x. r = b @ ''/'' @ x \<and> P (segments x)"
  then show "\<exists>xs. segments r = segments b @ xs \<and> xs \<noteq> [] \<and> P xs"
    by (auto simp: segments_append_slash)
next
  assume "\<exists>xs. segments r = segments b @ xs \<and> xs \<noteq> [] \<and> P xs"
  then obtain xs where xs: "segments r = segments b @ xs" "xs \<noteq> []" "P xs" by blast
  then have r: "r = b @ CHR ''/'' # Join ''/'' xs"
    using Split_eq_append [of r "CHR ''/''" b xs] by (simp add: segments_def)
  then have "segments r = segments b @ segments (Join ''/'' xs)" by (metis segments_append_slash)
  with xs r show "\<exists>x. r = b @ ''/'' @ x \<and> P (segments x)" by auto
qed

lemma take_eq_iff: "take (length b) xs = b \<longleftrightarrow> (\<exists>ys. xs = b @ ys)"
  by (metis append_eq_conv_conj append_take_drop_id)

lemma segments_eq_single_Nil [simp]: "segments x = [[]] \<longleftrightarrow> x = []"
  by (simp add: segments_def)

lemma length_segments_1: "length (segments x) = 1 \<longleftrightarrow> CHR ''/'' \<notin> set x"
  by (auto simp: segments_def length_Split count_list_0_iff)

lemma scope_covers_iff:
  "scope_covers p r \<longleftrightarrow>
     p = r \<or> (\<exists>b x. p = b @ ''/**'' \<and> r = b @ ''/'' @ x \<and> x \<noteq> []) \<or>
     (\<exists>b x. p = b @ ''/*'' \<and> r = b @ ''/'' @ x \<and> x \<noteq> [] \<and> CHR ''/'' \<notin> set x)"
    (is "_ \<longleftrightarrow> _ \<or> ?deep \<or> ?flat")
proof -
  have wild: "(\<exists>b x. p = b @ ''/'' @ w \<and> r = b @ ''/'' @ x \<and> P (segments x)) \<longleftrightarrow>
      last (segments p) = w \<and> butlast (segments p) \<noteq> [] \<and>
      (\<exists>xs. segments r = butlast (segments p) @ xs \<and> xs \<noteq> [] \<and> P xs)" (is "?L \<longleftrightarrow> ?R")
    if w: "CHR ''/'' \<notin> set w" for w P
  proof -
    have "?L \<longleftrightarrow> (\<exists>b. p = b @ ''/'' @ w \<and> (\<exists>xs. segments r = segments b @ xs \<and> xs \<noteq> [] \<and> P xs))"
      using below_iff [of r _ P] by blast
    also have "\<dots> \<longleftrightarrow> (\<exists>b. p = b @ ''/'' @ w) \<and>
        (\<exists>xs. segments r = butlast (segments p) @ xs \<and> xs \<noteq> [] \<and> P xs)"
      using butlast_segments [OF w] by auto
    also have "\<dots> \<longleftrightarrow> ?R" using last_segment_iff [OF w, of p] by blast
    finally show ?thesis .
  qed
  have deep: "?deep \<longleftrightarrow> last (segments p) = ''**'' \<and> butlast (segments p) \<noteq> [] \<and>
      (\<exists>xs. segments r = butlast (segments p) @ xs \<and> xs \<noteq> [] \<and> xs \<noteq> [''''])"
    using wild [of "''**''" "\<lambda>xs. xs \<noteq> ['''']"] by simp
  have flat: "?flat \<longleftrightarrow> last (segments p) = ''*'' \<and> butlast (segments p) \<noteq> [] \<and>
      (\<exists>xs. segments r = butlast (segments p) @ xs \<and> xs \<noteq> [] \<and> length xs = 1 \<and> xs \<noteq> [''''])"
  proof -
    have "?flat \<longleftrightarrow> (\<exists>b x. p = b @ ''/'' @ ''*'' \<and> r = b @ ''/'' @ x \<and>
        length (segments x) = 1 \<and> segments x \<noteq> [''''])"
      unfolding length_segments_1 by auto
    then show ?thesis
      using wild [of "''*''" "\<lambda>xs. length xs = 1 \<and> xs \<noteq> ['''']"] by simp
  qed
  define base where "base = butlast (segments p)"
  have "scope_covers p r \<longleftrightarrow> p = r \<or> base \<noteq> [] \<and> (\<exists>xs. segments r = base @ xs \<and>
      (last (segments p) = ''**'' \<and> xs \<noteq> [] \<and> xs \<noteq> [''''] \<or>
       last (segments p) = ''*'' \<and> length xs = 1 \<and> xs \<noteq> ['''']))"
    unfolding scope_covers_def Let_def base_def [symmetric] take_eq_iff by auto
  then show ?thesis unfolding deep flat base_def by auto
qed

section \<open>What an evaluation decides\<close>

text \<open>
  The engine's well-formedness: a policy sits under its own valid tier, and each valid tier has
  one.  \<open>NewPolicyEngine\<close> establishes it and \<open>SetPolicy\<close> keeps it, so the branch of
  \<open>Evaluate\<close> without a policy is dead code for a registered agent.
\<close>

definition engine_wf :: "PolicyEngine \<Rightarrow> bool" where
  "engine_wf pe \<longleftrightarrow> dom (policies pe) = {TierUntrusted, TierVerified, TierFull} \<and>
     (\<forall>t p. policies pe t = Some p \<longrightarrow> Policy_Tier p = t)"

lemma engine_wf_New: "engine_wf NewPolicyEngine"
  by (auto simp: engine_wf_def default_defs tier_defs split: if_splits)

lemma engine_wf_SetPolicy:
  assumes "engine_wf pe" and "SetPolicy p pe = Inr pe'"
  shows "engine_wf pe'"
proof -
  have pe': "pe' = pe\<lparr>policies := (policies pe)(Policy_Tier p \<mapsto> p)\<rparr>" and v: "Tier_Valid (Policy_Tier p)"
    using assms(2) by (auto simp: SetPolicy_def split: if_splits)
  have "dom (policies pe') = insert (Policy_Tier p) (dom (policies pe))" by (simp add: pe')
  with assms(1) v have "dom (policies pe') = dom (policies pe)"
    by (auto simp: engine_wf_def Tier_Valid_cases)
  with assms(1) show ?thesis by (simp add: engine_wf_def pe')
qed

lemma SetPolicy_GetPolicy:
  "SetPolicy p pe = Inr pe' \<Longrightarrow> GetPolicy pe' = (GetPolicy pe)(Policy_Tier p \<mapsto> p)"
  by (auto simp: SetPolicy_def GetPolicy_def fun_eq_iff split: if_splits)

text \<open>The scope check an allowed capability still has to pass.\<close>

definition in_scope :: "Agent \<Rightarrow> Capability \<Rightarrow> string \<Rightarrow> bool" where
  "in_scope a cap repo \<longleftrightarrow>
     (if isRepoScoped cap \<and> Agent_ScopedRepos a \<noteq> []
      then repo \<noteq> '''' \<and> list_ex (\<lambda>pattern. scope_covers pattern repo) (Agent_ScopedRepos a)
      else True)"

lemma matchScope_eq: "matchScope p r = scope_covers p r"
  by (simp only: matchScope_iff scope_covers_iff)

lemma repoAllowed_eq:
  "repoAllowed ps r \<longleftrightarrow> r \<noteq> '''' \<and> list_ex (\<lambda>pattern. scope_covers pattern r) ps"
  by (simp add: repoAllowed_def matchScope_eq)

lemma Evaluate_decision:
  "Result_Decision (Evaluate reg pe n cap repo) =
     (case agents reg n of None \<Rightarrow> Deny
      | Some a \<Rightarrow> (case policies pe (Agent_Tier a) of None \<Rightarrow> Deny
          | Some p \<Rightarrow>
              if cap \<in> set (Policy_Denied p) then Deny
              else if cap \<in> set (Policy_RequiresApproval p) then NeedsApproval
              else if cap \<in> set (Policy_Allowed p) \<and> in_scope a cap repo then Allow
              else Deny))"
  by (auto simp: Evaluate_def Registry_Get_def in_scope_def repoAllowed_eq Let_def split: option.split)

lemma Evaluate_cong: "Registry_Get r n = Registry_Get r' n \<Longrightarrow> Evaluate r pe n cap repo = Evaluate r' pe n cap repo"
  by (simp add: Evaluate_def)

lemma Evaluate_echo:
  "Result_Agent (Evaluate reg pe n cap repo) = n"
  "Result_Cap (Evaluate reg pe n cap repo) = cap"
  by (simp_all add: Evaluate_def Let_def split: option.split)

lemma registered_policy:
  assumes "registry_wf reg" and "engine_wf pe" and "agents reg n = Some a"
  shows "\<exists>p. policies pe (Agent_Tier a) = Some p"
proof -
  have "Tier_Valid (Agent_Tier a)" using assms(1,3) by (auto simp: registry_wf_def agent_wf_def)
  with assms(2) show ?thesis by (auto simp: engine_wf_def Tier_Valid_cases)
qed

lemma default_policies:
  "policies NewPolicyEngine t =
     (if t = TierUntrusted then Some default_untrusted
      else if t = TierVerified then Some default_verified
      else if t = TierFull then Some default_full else None)"
  by (auto simp: NewPolicyEngine_def loadDefaults_def tier_defs)

text \<open>
  The default decision at a tier, before the scope check; it grows with the tier, in the order
  of decisions below.
\<close>

instantiation Decision :: order
begin

definition less_eq_Decision :: "Decision \<Rightarrow> Decision \<Rightarrow> bool" where
  "less_eq_Decision x y \<longleftrightarrow> x = y \<or> x = Deny \<and> y \<in> {NeedsApproval, Allow} \<or> x = NeedsApproval \<and> y = Allow"

definition less_Decision :: "Decision \<Rightarrow> Decision \<Rightarrow> bool" where
  "less_Decision x y \<longleftrightarrow> x \<le> y \<and> \<not> y \<le> (x :: Decision)"

instance
  by standard (auto simp: less_eq_Decision_def less_Decision_def)

end

lemma Decision_order_simps [simp]:
  "Deny \<le> Deny" "Deny \<le> NeedsApproval" "Deny \<le> Allow" "NeedsApproval \<le> Allow"
  "\<not> Allow \<le> Deny" "\<not> Allow \<le> NeedsApproval" "\<not> NeedsApproval \<le> Deny"
  by (simp_all add: less_eq_Decision_def)

lemma default_tier_mono:
  assumes "t \<le> u" and "policies NewPolicyEngine t = Some p" and "policies NewPolicyEngine u = Some q"
  shows "set (Policy_Allowed p) - set (Policy_Denied p) - set (Policy_RequiresApproval p) \<subseteq>
           set (Policy_Allowed q) - set (Policy_Denied q) - set (Policy_RequiresApproval q)"
    and "set (Policy_Denied q) \<subseteq> set (Policy_Denied p)"
    and "set (Policy_RequiresApproval p) - set (Policy_Denied p) \<subseteq>
           (set (Policy_RequiresApproval q) \<union> set (Policy_Allowed q)) - set (Policy_Denied q)"
  using assms
  by (auto simp: default_policies tier_defs default_full_def default_verified_def
      default_untrusted_def cap_defs split: if_splits)

section \<open>Properties\<close>

text \<open>
  C35.  The scope pattern match of the code, which works by suffixes and prefixes of the strings,
  is the reading of the pattern over path segments.
\<close>

theorem matchScope_is_scope_covers: "matchScope pattern repo \<longleftrightarrow> scope_covers pattern repo"
  by (simp only: matchScope_iff scope_covers_iff)

text \<open>
  C1.  A request is allowed exactly if the agent is registered, its tier has a policy, that policy
  lists the capability and neither denies it nor wants approval for it, and the agent's scopes,
  if it has any, cover the repository.
\<close>

theorem evaluate_allow_iff:
  "Result_Decision (Evaluate reg pe n cap repo) = Allow \<longleftrightarrow>
     (\<exists>a p. Registry_Get reg n = Some a \<and> GetPolicy pe (Agent_Tier a) = Some p \<and>
        cap \<in> set (Policy_Allowed p) - set (Policy_Denied p) - set (Policy_RequiresApproval p) \<and>
        in_scope a cap repo)"
  by (auto simp: Evaluate_decision Registry_Get_def GetPolicy_def split: option.splits)

text \<open>
  C34.  Under the default policies, of two registered agents with the same scopes the one of the higher
  tier never gets the worse decision, in the order deny, needs approval, allow, on a request that these
  scopes cover.  (Outside them approval is asked before the scopes are looked at, and a higher tier may
  be denied what a lower one may still ask for.)
\<close>

theorem default_evaluation_monotone_in_tier:
  assumes wf: "registry_wf reg"
    and m: "Registry_Get reg m = Some a" and n: "Registry_Get reg n = Some b"
    and tier: "Agent_Tier a \<le> Agent_Tier b"
    and scopes: "Agent_ScopedRepos a = Agent_ScopedRepos b" "in_scope b cap repo"
  shows "Result_Decision (Evaluate reg NewPolicyEngine m cap repo)
           \<le> Result_Decision (Evaluate reg NewPolicyEngine n cap repo)"
proof -
  have reg: "agents reg m = Some a" "agents reg n = Some b"
    using m n by (simp_all add: Registry_Get_def)
  obtain p where p: "policies NewPolicyEngine (Agent_Tier a) = Some p"
    using registered_policy [OF wf engine_wf_New reg(1)] by blast
  obtain q where q: "policies NewPolicyEngine (Agent_Tier b) = Some q"
    using registered_policy [OF wf engine_wf_New reg(2)] by blast
  have sc: "in_scope a cap repo" using scopes by (simp add: in_scope_def)
  show ?thesis
    using default_tier_mono [OF tier p q] reg p q sc scopes(2)
    by (auto simp: Evaluate_decision)
qed

definition example_registry :: Registry where
  "example_registry = \<lparr>agents = [''Clotho'' \<mapsto>
       \<lparr>Agent_Name = ''Clotho'', Agent_Tier = TierVerified, Agent_ScopedRepos = [''core/*''],
        Agent_RateLimit = 60, Agent_TokenExpiresAt = 0, Agent_CreatedAt = 1\<rparr>,
     ''Athena'' \<mapsto>
       \<lparr>Agent_Name = ''Athena'', Agent_Tier = TierFull, Agent_ScopedRepos = [''core/*''],
        Agent_RateLimit = 0, Agent_TokenExpiresAt = 0, Agent_CreatedAt = 1\<rparr>]\<rparr>"

lemma example_registry_wf: "registry_wf example_registry"
  by (auto simp: registry_wf_def example_registry_def agent_wf_def Tier_Valid_def tier_defs
      split: if_splits)

theorem default_evaluation_monotone_in_tier_witness:
  "Result_Decision (Evaluate example_registry NewPolicyEngine ''Clotho'' CapMergePR ''core/go'')
     \<le> Result_Decision (Evaluate example_registry NewPolicyEngine ''Athena'' CapMergePR ''core/go'')"
proof -
  let ?c = "\<lparr>Agent_Name = ''Clotho'', Agent_Tier = TierVerified, Agent_ScopedRepos = [''core/*''],
        Agent_RateLimit = 60, Agent_TokenExpiresAt = 0, Agent_CreatedAt = 1\<rparr>"
  let ?a = "\<lparr>Agent_Name = ''Athena'', Agent_Tier = TierFull, Agent_ScopedRepos = [''core/*''],
        Agent_RateLimit = 0, Agent_TokenExpiresAt = 0, Agent_CreatedAt = 1\<rparr>"
  have "in_scope ?a CapMergePR ''core/go''" by code_simp
  then show ?thesis
    by (intro default_evaluation_monotone_in_tier [OF example_registry_wf, where a = ?c and b = ?a])
       (simp_all add: Registry_Get_def example_registry_def tier_defs)
qed

text \<open>
  The registry after any history of registrations and removals answers a lookup as the plain
  map that replays the history: refused registrations leave no trace, the last accepted
  registration wins, and what it stores is the agent with its defaults filled in.
\<close>

theorem registry_refines_map:
  "Registry_Get (run_ops (\<lambda>(now, a). Registry_Register now a) (\<lambda>k r. snd (Registry_Remove k r))
                   history NewRegistry) =
   replay (\<lambda>(now, a). admitted a) (\<lambda>(now, a). Agent_Name a) (\<lambda>(now, a). stored_agent now a)
     history Map.empty"
proof -
  have "Registry_Get NewRegistry = Map.empty" by (simp add: Registry_Get_def NewRegistry_def fun_eq_iff)
  then show ?thesis using registry.run_ops_replay [OF registry_wf_New, of history] by simp
qed

text \<open>
  What a registration changes for the engine: the registered agent is judged by its new tier
  and scopes, every other agent as before; and once an agent is removed, all its requests are denied.
\<close>

theorem evaluate_after_register_and_remove:
  assumes "registry_wf r" and "Registry_Register now a r = Inr r'"
  shows "Evaluate r' pe n cap repo =
           (if n = Agent_Name a
            then Evaluate \<lparr>agents = [n \<mapsto> stored_agent now a]\<rparr> pe n cap repo
            else Evaluate r pe n cap repo) \<and>
         Result_Decision (Evaluate (snd (Registry_Remove n r')) pe n cap repo) = Deny"
proof
  have get: "Registry_Get r' = (Registry_Get r)(Agent_Name a \<mapsto> stored_agent now a)"
    using registry.lookup_ins [OF assms(1), of "(now, a)" r'] assms(2) by simp
  then show "Evaluate r' pe n cap repo =
           (if n = Agent_Name a
            then Evaluate \<lparr>agents = [n \<mapsto> stored_agent now a]\<rparr> pe n cap repo
            else Evaluate r pe n cap repo)"
    by (auto intro!: Evaluate_cong simp: Registry_Get_def)
  have "Registry_Get (snd (Registry_Remove n r')) n = None"
    using registry.lookup_rmv [OF registry_wf_Register [OF assms]] by simp
  then show "Result_Decision (Evaluate (snd (Registry_Remove n r')) pe n cap repo) = Deny"
    by (simp add: Evaluate_def Let_def)
qed

definition example_agent :: Agent where
  "example_agent = \<lparr>Agent_Name = ''Hypnos'', Agent_Tier = TierVerified, Agent_ScopedRepos = [],
        Agent_RateLimit = 0, Agent_TokenExpiresAt = 0, Agent_CreatedAt = 0\<rparr>"

lemma example_agent_Register:
  "Registry_Register 5 example_agent NewRegistry =
     Inr \<lparr>agents = [''Hypnos'' \<mapsto> stored_agent 5 example_agent]\<rparr>"
  by (simp add: Register_eq example_agent_def admitted_def Tier_Valid_def tier_defs NewRegistry_def)

theorem evaluate_after_register_and_remove_witness:
  "Result_Decision (Evaluate (snd (Registry_Remove ''Hypnos''
      \<lparr>agents = [''Hypnos'' \<mapsto> stored_agent 5 example_agent]\<rparr>)) NewPolicyEngine
      ''Hypnos'' CapPushRepo ''core/go'') = Deny"
  by (rule evaluate_after_register_and_remove [OF registry_wf_New example_agent_Register, THEN conjunct2])

text \<open>
  An agent of the verified tier registered without scopes may push to every repository: the
  empty scope list lifts the restriction.  At full trust the list, when there is one, restricts.
\<close>

theorem empty_scope_is_unrestricted:
  assumes "Agent_Tier a = TierVerified" and "Agent_ScopedRepos a = []"
    and "Agent_Tier b = TierFull" and "Agent_ScopedRepos b = [''core/*'']"
  shows "Result_Decision (Evaluate \<lparr>agents = [n \<mapsto> a]\<rparr> NewPolicyEngine n CapPushRepo repo) = Allow \<and>
     Result_Decision (Evaluate \<lparr>agents = [n \<mapsto> b]\<rparr> NewPolicyEngine n CapPushRepo ''host/php'') = Deny"
proof -
  have "\<not> scope_covers ''core/*'' ''host/php''" by code_simp
  with assms show ?thesis
    by (simp add: Evaluate_decision default_policies tier_defs default_verified_def default_full_def
        cap_defs in_scope_def isRepoScoped_def)
qed

theorem empty_scope_is_unrestricted_witness:
  "Result_Decision (Evaluate \<lparr>agents = [''Hypnos'' \<mapsto> example_agent]\<rparr> NewPolicyEngine
      ''Hypnos'' CapPushRepo ''any/repo'') = Allow"
  by (rule empty_scope_is_unrestricted [of _ "example_agent\<lparr>Agent_Tier := TierFull,
        Agent_ScopedRepos := [''core/*'']\<rparr>", THEN conjunct1])
     (simp_all add: example_agent_def)

end
