(* ===== verification/Approval.thy ===== *)
theory Approval
  imports Trust
begin

text \<open>
  \<^verbatim>\<open>go/trust/approval.go\<close>: the queue of capability requests that wait for a reviewer.  The queue's
  lock makes each operation atomic.  \<open>queue_step\<close> is one operation that changes the queue, and
  \<open>queue_reachable\<close> what any sequence of them reaches from a queue.  Approving and denying are two
  instances of one contract, the locale \<open>review_operation\<close>.  The lemmas show that request ids are
  never reused, that the queue is well formed in every reachable state, and that a decision is final.
\<close>

section \<open>State and operations\<close>

text \<open>\<open>OtherStatus n\<close> is an integer that is none of the three named values.\<close>

datatype ApprovalStatus = ApprovalPending | ApprovalApproved | ApprovalDenied | OtherStatus int

fun ApprovalStatus_String :: "ApprovalStatus \<Rightarrow> string" where
  "ApprovalStatus_String ApprovalPending = ''pending''"
| "ApprovalStatus_String ApprovalApproved = ''approved''"
| "ApprovalStatus_String ApprovalDenied = ''denied''"
| "ApprovalStatus_String (OtherStatus n) = ''unknown('' @ itoa n @ '')''"

record ApprovalRequest =
  Req_ID :: string
  Req_Agent :: string
  Req_Cap :: Capability
  Req_Repo :: string
  Req_Status :: ApprovalStatus
  Req_Reason :: string
  Req_RequestedAt :: gotime
  Req_ReviewedAt :: gotime
  Req_ReviewedBy :: string

record ApprovalQueue =
  requests :: "string \<rightharpoonup> ApprovalRequest"
  nextID :: int

definition NewApprovalQueue :: ApprovalQueue where
  "NewApprovalQueue = \<lparr>requests = Map.empty, nextID = 0\<rparr>"

definition approval_id :: "int \<Rightarrow> string" where
  "approval_id n = ''approval-'' @ itoa n"

definition Queue_Submit ::
    "gotime \<Rightarrow> string \<Rightarrow> Capability \<Rightarrow> string \<Rightarrow> ApprovalQueue \<Rightarrow> (string \<times> ApprovalQueue) res" where
  "Queue_Submit now agent cap repo q =
     (if agent = '''' then Inl (E ''trust.ApprovalQueue.Submit'' ''agent name is required'' None)
      else if cap = '''' then Inl (E ''trust.ApprovalQueue.Submit'' ''capability is required'' None)
      else
        (let n = nextID q + 1; rid = approval_id n
         in Inr (rid, q\<lparr>nextID := n,
              requests := (requests q)(rid \<mapsto>
                \<lparr>Req_ID = rid, Req_Agent = agent, Req_Cap = cap, Req_Repo = repo,
                 Req_Status = ApprovalPending, Req_Reason = '''', Req_RequestedAt = now,
                 Req_ReviewedAt = 0, Req_ReviewedBy = ''''\<rparr>)\<rparr>)))"

definition Queue_Approve ::
    "gotime \<Rightarrow> string \<Rightarrow> string \<Rightarrow> string \<Rightarrow> ApprovalQueue \<Rightarrow> ApprovalQueue res" where
  "Queue_Approve now rid reviewedBy reason q =
     (case requests q rid of
        None \<Rightarrow> Inl (E ''trust.ApprovalQueue.Approve'' (''request '' @ Quote rid @ '' not found'') None)
      | Some req \<Rightarrow>
          if Req_Status req \<noteq> ApprovalPending
          then Inl (E ''trust.ApprovalQueue.Approve''
                      (''request '' @ Quote rid @ '' is already '' @
                       ApprovalStatus_String (Req_Status req)) None)
          else Inr (q\<lparr>requests := (requests q)(rid \<mapsto>
                 req\<lparr>Req_Status := ApprovalApproved, Req_ReviewedBy := reviewedBy,
                     Req_Reason := reason, Req_ReviewedAt := now\<rparr>)\<rparr>))"

definition Queue_Deny ::
    "gotime \<Rightarrow> string \<Rightarrow> string \<Rightarrow> string \<Rightarrow> ApprovalQueue \<Rightarrow> ApprovalQueue res" where
  "Queue_Deny now rid reviewedBy reason q =
     (case requests q rid of
        None \<Rightarrow> Inl (E ''trust.ApprovalQueue.Deny'' (''request '' @ Quote rid @ '' not found'') None)
      | Some req \<Rightarrow>
          if Req_Status req \<noteq> ApprovalPending
          then Inl (E ''trust.ApprovalQueue.Deny''
                      (''request '' @ Quote rid @ '' is already '' @
                       ApprovalStatus_String (Req_Status req)) None)
          else Inr (q\<lparr>requests := (requests q)(rid \<mapsto>
                 req\<lparr>Req_Status := ApprovalDenied, Req_ReviewedBy := reviewedBy,
                     Req_Reason := reason, Req_ReviewedAt := now\<rparr>)\<rparr>))"

definition Queue_Get :: "ApprovalQueue \<Rightarrow> string \<Rightarrow> ApprovalRequest option" where
  "Queue_Get q rid = requests q rid"

definition Queue_Pending :: "string list \<Rightarrow> ApprovalQueue \<Rightarrow> ApprovalRequest list" where
  "Queue_Pending ks q =
     filter (\<lambda>req. Req_Status req = ApprovalPending) (range_values ks (requests q))"

definition Queue_PendingSeq ::
    "string list \<Rightarrow> ApprovalQueue \<Rightarrow> (ApprovalRequest \<Rightarrow> 's \<Rightarrow> bool \<times> 's) \<Rightarrow> 's \<Rightarrow> 's" where
  "Queue_PendingSeq ks q yield s =
     seq_run yield (filter (\<lambda>req. Req_Status req = ApprovalPending)
                      (range_values ks (requests q))) s"

definition Queue_Len :: "ApprovalQueue \<Rightarrow> nat" where
  "Queue_Len q = card (dom (requests q))"

section \<open>The contract of a review\<close>

text \<open>A review moves one pending request to the operation's verdict and refuses every other.\<close>

definition reviewed :: "ApprovalStatus \<Rightarrow> gotime \<Rightarrow> string \<Rightarrow> string \<Rightarrow> ApprovalRequest \<Rightarrow> ApprovalRequest" where
  "reviewed v now who why r =
     r\<lparr>Req_Status := v, Req_ReviewedBy := who, Req_Reason := why, Req_ReviewedAt := now\<rparr>"

definition request_wf :: "string \<Rightarrow> ApprovalRequest \<Rightarrow> bool" where
  "request_wf rid r \<longleftrightarrow> Req_ID r = rid \<and> Req_Agent r \<noteq> '''' \<and> Req_Cap r \<noteq> '''' \<and>
     Req_Status r \<in> {ApprovalPending, ApprovalApproved, ApprovalDenied} \<and>
     (Req_Status r = ApprovalPending \<longrightarrow>
        Req_Reason r = '''' \<and> Req_ReviewedBy r = '''' \<and> IsZero (Req_ReviewedAt r))"

definition queue_inv :: "ApprovalQueue \<Rightarrow> bool" where
  "queue_inv q \<longleftrightarrow> 0 \<le> nextID q \<and> dom (requests q) = approval_id ` {1..nextID q} \<and>
     (\<forall>rid r. requests q rid = Some r \<longrightarrow> request_wf rid r)"

locale review_operation =
  fixes review :: "gotime \<Rightarrow> string \<Rightarrow> string \<Rightarrow> string \<Rightarrow> ApprovalQueue \<Rightarrow> ApprovalQueue res"
    and verdict :: ApprovalStatus
  assumes verdict_final: "verdict \<in> {ApprovalApproved, ApprovalDenied}"
    and review_pending:
      "requests q rid = Some r \<Longrightarrow> Req_Status r = ApprovalPending \<Longrightarrow>
       review now rid who why q =
         Inr (q\<lparr>requests := (requests q)(rid \<mapsto> reviewed verdict now who why r)\<rparr>)"
    and review_missing: "requests q rid = None \<Longrightarrow> \<not> ok (review now rid who why q)"
    and review_decided:
      "requests q rid = Some r \<Longrightarrow> Req_Status r \<noteq> ApprovalPending \<Longrightarrow> \<not> ok (review now rid who why q)"
begin

lemma review_InrE:
  assumes "review now rid who why q = Inr q'"
  obtains r where "requests q rid = Some r" and "Req_Status r = ApprovalPending"
    and "q' = q\<lparr>requests := (requests q)(rid \<mapsto> reviewed verdict now who why r)\<rparr>"
  using assms review_pending [of q rid _ now who why] review_missing [of q rid now who why]
    review_decided [of q rid _ now who why]
  by (cases "requests q rid") fastforce+

lemma ok_review_iff:
  "ok (review now rid who why q) \<longleftrightarrow>
     (\<exists>r. requests q rid = Some r \<and> Req_Status r = ApprovalPending)"
  using review_pending review_missing review_decided
  by (cases "requests q rid") fastforce+

lemma review_inv:
  assumes "queue_inv q" and "review now rid who why q = Inr q'"
  shows "queue_inv q'"
proof -
  obtain r where r: "requests q rid = Some r" "Req_Status r = ApprovalPending"
      "q' = q\<lparr>requests := (requests q)(rid \<mapsto> reviewed verdict now who why r)\<rparr>"
    using assms(2) by (rule review_InrE)
  have "request_wf rid r" using assms(1) r(1) by (simp add: queue_inv_def)
  then have "request_wf rid (reviewed verdict now who why r)"
    using verdict_final by (auto simp: request_wf_def reviewed_def)
  moreover have "dom (requests q') = dom (requests q)" using r by auto
  ultimately show ?thesis using assms(1) r by (auto simp: queue_inv_def)
qed

text \<open>A review touches one request, which was pending and now is not; it succeeds once.\<close>

lemma review_frame:
  assumes "review now rid who why q = Inr q'"
  shows "nextID q' = nextID q" and "k \<noteq> rid \<Longrightarrow> requests q' k = requests q k"
    and "requests q k = Some r \<Longrightarrow> Req_Status r \<noteq> ApprovalPending \<Longrightarrow> requests q' k = Some r"
  using assms by (auto elim!: review_InrE)

lemma review_once:
  assumes "review now rid who why q = Inr q'"
  shows "\<not> ok (review now' rid who' why' q')"
proof -
  from assms obtain r where "requests q' rid = Some (reviewed verdict now who why r)"
    by (auto elim!: review_InrE)
  then show ?thesis
    using verdict_final by (intro review_decided) (auto simp: reviewed_def)
qed

end

interpretation approve: review_operation Queue_Approve ApprovalApproved
  by unfold_locales (auto simp: Queue_Approve_def reviewed_def)

interpretation deny: review_operation Queue_Deny ApprovalDenied
  by unfold_locales (auto simp: Queue_Deny_def reviewed_def)

section \<open>Reachable queues\<close>

inductive queue_step :: "ApprovalQueue \<Rightarrow> ApprovalQueue \<Rightarrow> bool" where
  submit: "Queue_Submit now a c rp q = Inr (rid, q') \<Longrightarrow> queue_step q q'"
| approve: "Queue_Approve now rid who why q = Inr q' \<Longrightarrow> queue_step q q'"
| deny: "Queue_Deny now rid who why q = Inr q' \<Longrightarrow> queue_step q q'"

inductive queue_reachable :: "ApprovalQueue \<Rightarrow> ApprovalQueue \<Rightarrow> bool" for q0 where
  start: "queue_reachable q0 q0"
| more: "queue_reachable q0 q \<Longrightarrow> queue_step q q' \<Longrightarrow> queue_reachable q0 q'"

inductive_cases queue_stepE: "queue_step q q'"

lemma approval_id_inj: "0 \<le> m \<Longrightarrow> 0 \<le> n \<Longrightarrow> approval_id m = approval_id n \<longleftrightarrow> m = n"
  by (simp add: approval_id_def itoa_inj_nonneg)

lemma Submit_InrE:
  assumes "Queue_Submit now a c rp q = Inr (rid, q')"
  obtains r where "a \<noteq> ''''" and "c \<noteq> ''''" and "rid = approval_id (nextID q + 1)"
    and "r = \<lparr>Req_ID = rid, Req_Agent = a, Req_Cap = c, Req_Repo = rp,
              Req_Status = ApprovalPending, Req_Reason = '''', Req_RequestedAt = now,
              Req_ReviewedAt = 0, Req_ReviewedBy = ''''\<rparr>"
    and "q' = q\<lparr>nextID := nextID q + 1, requests := (requests q)(rid \<mapsto> r)\<rparr>"
  using assms by (auto simp: Queue_Submit_def Let_def split: if_splits)

lemma next_id_fresh: "queue_inv q \<Longrightarrow> requests q (approval_id (nextID q + 1)) = None"
proof -
  assume inv: "queue_inv q"
  have "approval_id (nextID q + 1) \<notin> approval_id ` {1..nextID q}"
    using inv by (auto simp: queue_inv_def approval_id_inj)
  with inv show ?thesis by (metis domIff queue_inv_def)
qed

lemma Submit_inv:
  assumes "queue_inv q" and "Queue_Submit now a c rp q = Inr (rid, q')"
  shows "queue_inv q'"
proof -
  have ids: "{1..nextID q + 1} = insert (nextID q + 1) {1..nextID q}"
    using assms(1) by (auto simp: queue_inv_def)
  show ?thesis using assms(2)
  proof (rule Submit_InrE)
    fix r
    assume s: "a \<noteq> ''''" "c \<noteq> ''''" "rid = approval_id (nextID q + 1)"
      "r = \<lparr>Req_ID = rid, Req_Agent = a, Req_Cap = c, Req_Repo = rp,
              Req_Status = ApprovalPending, Req_Reason = '''', Req_RequestedAt = now,
              Req_ReviewedAt = 0, Req_ReviewedBy = ''''\<rparr>"
      "q' = q\<lparr>nextID := nextID q + 1, requests := (requests q)(rid \<mapsto> r)\<rparr>"
    then have "request_wf rid r" by (simp add: request_wf_def IsZero_def)
    with assms(1) s(3,5) ids show "queue_inv q'" by (auto simp: queue_inv_def)
  qed
qed

lemma queue_step_inv: "queue_step q q' \<Longrightarrow> queue_inv q \<Longrightarrow> queue_inv q'"
  by (auto elim!: queue_stepE intro: Submit_inv approve.review_inv deny.review_inv)

lemma queue_inv_New: "queue_inv NewApprovalQueue"
  by (simp add: queue_inv_def NewApprovalQueue_def)

lemma queue_reachable_inv: "queue_reachable q0 q \<Longrightarrow> queue_inv q0 \<Longrightarrow> queue_inv q"
  by (induction rule: queue_reachable.induct) (auto intro: queue_step_inv)

lemma queue_step_keeps_decided:
  assumes "queue_step q q'" and "queue_inv q"
    and "requests q k = Some r" and "Req_Status r \<noteq> ApprovalPending"
  shows "requests q' k = Some r"
  using assms(1)
proof (rule queue_stepE)
  fix now a c rp rid
  assume "Queue_Submit now a c rp q = Inr (rid, q')"
  then show ?thesis
    using next_id_fresh [OF assms(2)] assms(3) by (auto elim!: Submit_InrE)
qed (use assms in \<open>auto intro: approve.review_frame deny.review_frame\<close>)

lemma queue_step_nextID: "queue_step q q' \<Longrightarrow> nextID q \<le> nextID q'"
  by (auto elim!: queue_stepE Submit_InrE simp: approve.review_frame deny.review_frame)

lemma queue_reachable_keeps_decided:
  "queue_reachable q q' \<Longrightarrow> queue_inv q \<Longrightarrow> requests q k = Some r \<Longrightarrow>
   Req_Status r \<noteq> ApprovalPending \<Longrightarrow> requests q' k = Some r"
  by (induction rule: queue_reachable.induct)
     (auto intro: queue_step_keeps_decided queue_reachable_inv)

lemma Queue_Len_nextID:
  assumes "queue_inv q"
  shows "Queue_Len q = nat (nextID q)"
proof -
  have "inj_on approval_id {1..nextID q}" by (auto simp: inj_on_def approval_id_inj)
  then have "card (approval_id ` {1..nextID q}) = nat (nextID q)" by (simp add: card_image)
  with assms show ?thesis by (simp add: Queue_Len_def queue_inv_def)
qed

section \<open>Properties\<close>

text \<open>
  C10.  A decision is final: once a request of a reachable queue is approved or denied, every later
  queue holds it unchanged, and both reviewing operations refuse it there.
\<close>

theorem decision_is_final:
  assumes "queue_reachable NewApprovalQueue q" and "queue_reachable q q'"
    and "Queue_Get q k = Some r" and "Req_Status r \<noteq> ApprovalPending"
  shows "Queue_Get q' k = Some r \<and> \<not> ok (Queue_Approve now k who why q') \<and>
           \<not> ok (Queue_Deny now k who why q')"
proof -
  have "requests q' k = Some r"
    using queue_reachable_keeps_decided [OF assms(2) queue_reachable_inv [OF assms(1) queue_inv_New]]
      assms(3,4) by (simp add: Queue_Get_def)
  with assms(4) show ?thesis
    by (auto simp: Queue_Get_def approve.ok_review_iff deny.ok_review_iff)
qed

definition example_queue :: ApprovalQueue where
  "example_queue = (case Queue_Submit 7 ''Clotho'' CapMergePR ''core/go'' NewApprovalQueue of
     Inr (rid, q) \<Rightarrow> q)"

definition example_denied :: ApprovalQueue where
  "example_denied = (case Queue_Deny 9 ''approval-1'' ''snider'' ''policy'' example_queue of Inr q \<Rightarrow> q)"

lemma approval_id_1: "approval_id 1 = ''approval-1''"
  by code_simp

lemma example_queue_eq:
  "example_queue = \<lparr>requests = [''approval-1'' \<mapsto>
     \<lparr>Req_ID = ''approval-1'', Req_Agent = ''Clotho'', Req_Cap = CapMergePR, Req_Repo = ''core/go'',
      Req_Status = ApprovalPending, Req_Reason = '''', Req_RequestedAt = 7,
      Req_ReviewedAt = 0, Req_ReviewedBy = ''''\<rparr>], nextID = 1\<rparr>"
  by (simp add: example_queue_def Queue_Submit_def CapMergePR_def Let_def NewApprovalQueue_def approval_id_1)

lemma example_denied_eq:
  "example_denied = \<lparr>requests = [''approval-1'' \<mapsto>
     \<lparr>Req_ID = ''approval-1'', Req_Agent = ''Clotho'', Req_Cap = CapMergePR, Req_Repo = ''core/go'',
      Req_Status = ApprovalDenied, Req_Reason = ''policy'', Req_RequestedAt = 7,
      Req_ReviewedAt = 9, Req_ReviewedBy = ''snider''\<rparr>], nextID = 1\<rparr>"
  by (simp add: example_denied_def Queue_Deny_def example_queue_eq)

lemma example_queue_reachable: "queue_reachable NewApprovalQueue example_queue"
proof (rule queue_reachable.more [OF queue_reachable.start])
  show "queue_step NewApprovalQueue example_queue"
    by (rule queue_step.submit [of 7 "''Clotho''" CapMergePR "''core/go''"])
       (simp add: Queue_Submit_def CapMergePR_def Let_def NewApprovalQueue_def approval_id_1
          example_queue_eq)
qed

lemma example_denied_reachable: "queue_reachable NewApprovalQueue example_denied"
proof (rule queue_reachable.more [OF example_queue_reachable])
  show "queue_step example_queue example_denied"
    by (rule queue_step.deny [of 9 "''approval-1''" "''snider''" "''policy''"])
       (simp add: Queue_Deny_def example_queue_eq example_denied_eq)
qed

theorem decision_is_final_witness:
  "\<not> ok (Queue_Approve 11 ''approval-1'' ''mallory'' ''please'' example_denied)"
proof -
  obtain r where "Queue_Get example_denied ''approval-1'' = Some r" "Req_Status r = ApprovalDenied"
    by (simp add: Queue_Get_def example_denied_eq)
  then show ?thesis
    using decision_is_final [OF example_denied_reachable queue_reachable.start] by simp
qed

text \<open>
  C9.  In every reachable queue the ids in use are exactly \<^verbatim>\<open>approval-1\<close> to
  \<^verbatim>\<open>approval-\<close>\<open>nextID\<close>, each request sits under its own id with a named agent and capability and one
  of the three statuses, a pending one carries no reviewer, and the length is the number of submits.
\<close>

theorem reachable_queue_well_formed:
  "queue_reachable NewApprovalQueue q \<Longrightarrow> queue_inv q \<and> int (Queue_Len q) = nextID q"
  using queue_reachable_inv [OF _ queue_inv_New, of q] Queue_Len_nextID [of q]
  by (auto simp: queue_inv_def)

theorem reachable_queue_well_formed_witness: "int (Queue_Len example_denied) = nextID example_denied"
  by (rule reachable_queue_well_formed [OF example_denied_reachable, THEN conjunct2])

text \<open>
  A submission to a reachable queue gets an id no request has, leaves every other request as it
  was, and the new request waits; it is refused exactly if the agent or the capability is empty.
\<close>

theorem submit_gets_fresh_id:
  assumes "queue_reachable NewApprovalQueue q"
  shows "(case Queue_Submit now a c rp q of
            Inl e \<Rightarrow> a = '''' \<or> c = ''''
          | Inr (rid, q') \<Rightarrow> a \<noteq> '''' \<and> c \<noteq> '''' \<and> Queue_Get q rid = None \<and>
              (\<exists>r. Queue_Get q' = (Queue_Get q)(rid \<mapsto> r) \<and> Req_Agent r = a \<and> Req_Cap r = c \<and>
                   Req_Repo r = rp \<and> Req_Status r = ApprovalPending))"
  using next_id_fresh [OF queue_reachable_inv [OF assms queue_inv_New]]
  by (auto simp: Queue_Submit_def Let_def Queue_Get_def fun_eq_iff)

theorem submit_gets_fresh_id_witness:
  "(case Queue_Submit 3 ''Hypnos'' CapMergePR ''core/php'' example_denied of
      Inl e \<Rightarrow> False | Inr (rid, q') \<Rightarrow> Queue_Get example_denied rid = None)"
  using submit_gets_fresh_id [OF example_denied_reachable,
      where now = 3 and a = "''Hypnos''" and c = CapMergePR and rp = "''core/php''"]
  by (auto simp: CapMergePR_def split: sum.splits)

text \<open>
  Listing the pending requests visits exactly those, whatever order the runtime iterates in,
  and the iterator form, stopped by its consumer after \<open>n\<close> elements, yields the first \<open>n\<close> of the list.
\<close>

theorem pending_lists_agree:
  assumes "enumerates ks (requests q)" and "0 < n"
  shows "set (Queue_Pending ks q) = {r \<in> ran (requests q). Req_Status r = ApprovalPending} \<and>
         Queue_PendingSeq ks q (collect_until n) [] = take n (Queue_Pending ks q)"
  using assms by (auto simp: Queue_Pending_def Queue_PendingSeq_def set_range_values seq_run_collect_until)

theorem pending_lists_agree_witness:
  "Queue_PendingSeq [''approval-1''] example_queue (collect_until 2) [] =
     take 2 (Queue_Pending [''approval-1''] example_queue)"
  by (rule pending_lists_agree [THEN conjunct2]) (simp_all add: enumerates_def example_queue_eq)

end
