(* ===== verification/Json.thy ===== *)
theory Json
  imports Prelude
begin

text \<open>
  JSON documents as trees, and the part of \<^verbatim>\<open>encoding/json\<close> the sources use: decoding of a tree
  into strings, integers, lists and structs.  Printing a tree and parsing a text are arguments of
  the operations that use them.  The keys of an object are distinct in the documents considered.
  \<open>JFrac\<close> stands for a number that is not an integer.
\<close>

datatype json = JNull | JBool bool | JInt int | JFrac | JStr string | JArr "json list"
  | JObj "(string \<times> json) list"

definition type_error :: "'a res" where
  "type_error = Inl (Ext ''json: cannot unmarshal'')"

text \<open>Decoding \<^verbatim>\<open>null\<close> leaves the zero value in place.\<close>

fun decode_string :: "json \<Rightarrow> string res" where
  "decode_string (JStr s) = Inr s"
| "decode_string JNull = Inr ''''"
| "decode_string _ = type_error"

fun decode_int :: "json \<Rightarrow> int res" where
  "decode_int (JInt n) = (if - (2 ^ 63) \<le> n \<and> n < 2 ^ 63 then Inr n else type_error)"
| "decode_int JNull = Inr 0"
| "decode_int _ = type_error"

fun decode_all :: "(json \<Rightarrow> 'a res) \<Rightarrow> json list \<Rightarrow> 'a list res" where
  "decode_all f [] = Inr []"
| "decode_all f (x # xs) =
     (case f x of Inl e \<Rightarrow> Inl e
      | Inr y \<Rightarrow> (case decode_all f xs of Inl e \<Rightarrow> Inl e | Inr ys \<Rightarrow> Inr (y # ys)))"

fun decode_list :: "(json \<Rightarrow> 'a res) \<Rightarrow> json \<Rightarrow> 'a list res" where
  "decode_list f (JArr xs) = decode_all f xs"
| "decode_list f JNull = Inr []"
| "decode_list f _ = type_error"

text \<open>The member of an object that a struct field takes; an absent one decodes as \<^verbatim>\<open>null\<close> does.\<close>

definition member_of :: "(string \<times> json) list \<Rightarrow> string \<Rightarrow> json" where
  "member_of fs k = (case map_of fs k of None \<Rightarrow> JNull | Some v \<Rightarrow> v)"

text \<open>A \<^verbatim>\<open>[]string\<close>: a nil slice prints as \<^verbatim>\<open>null\<close>; a member marked \<^verbatim>\<open>omitempty\<close> is left out when empty.\<close>

definition encode_strings :: "string list \<Rightarrow> json" where
  "encode_strings xs = (if xs = [] then JNull else JArr (map JStr xs))"

definition omitempty :: "string \<Rightarrow> string list \<Rightarrow> (string \<times> json) list" where
  "omitempty k xs = (if xs = [] then [] else [(k, encode_strings xs)])"

lemma decode_all_map:
  "(\<And>x. x \<in> set xs \<Longrightarrow> f (g x) = Inr x) \<Longrightarrow> decode_all f (map g xs) = Inr xs"
  by (induction xs) auto

lemma decode_encode_strings [simp]: "decode_list decode_string (encode_strings xs) = Inr xs"
  by (simp add: encode_strings_def decode_all_map)

lemma member_of_simps [simp]:
  "member_of [] k = JNull"
  "member_of ((k', v) # fs) k = (if k' = k then v else member_of fs k)"
  by (auto simp: member_of_def)

lemma member_of_omitempty_append:
  "member_of (omitempty k' xs @ fs) k = (if k' = k \<and> xs \<noteq> [] then encode_strings xs else member_of fs k)"
  by (simp add: omitempty_def)

end
