(* ===== verification/AuditLog.thy ===== *)
theory AuditLog
  imports Policy Json
begin

text \<open>
  \<^verbatim>\<open>go/trust/audit.go\<close>: the log of policy evaluations, kept in memory and, when the log has a
  writer, appended to it as one line of JSON per entry.  The writer's state and its \<^verbatim>\<open>Write\<close> are
  parameters, as are the text form of an instant and the JSON printer.  The lemmas show that the
  log only grows, on every branch, and what the writer has received.
\<close>

record AuditEntry =
  Entry_Timestamp :: gotime
  Entry_Agent :: string
  Entry_Cap :: Capability
  Entry_Repo :: string
  Entry_Decision :: Decision
  Entry_Reason :: string

definition Decision_MarshalJSON :: "Decision \<Rightarrow> json" where
  "Decision_MarshalJSON d = JStr (Decision_String d)"

definition Decision_UnmarshalJSON :: "json \<Rightarrow> Decision res" where
  "Decision_UnmarshalJSON data =
     (case decode_string data of
        Inl e \<Rightarrow> Inl e
      | Inr s \<Rightarrow>
          (if s = ''deny'' then Inr Deny
           else if s = ''allow'' then Inr Allow
           else if s = ''needs_approval'' then Inr NeedsApproval
           else Inl (E ''trust.Decision.UnmarshalJSON'' (''unknown decision: '' @ s) None)))"

text \<open>The struct tags of \<^verbatim>\<open>AuditEntry\<close>; \<open>stamp\<close> is the text of an instant, which may fail.\<close>

definition AuditEntry_JSON :: "(gotime \<Rightarrow> string res) \<Rightarrow> AuditEntry \<Rightarrow> json res" where
  "AuditEntry_JSON stamp e =
     (case stamp (Entry_Timestamp e) of
        Inl err \<Rightarrow> Inl err
      | Inr ts \<Rightarrow> Inr (JObj
          ([(''timestamp'', JStr ts), (''agent'', JStr (Entry_Agent e)),
            (''capability'', JStr (Entry_Cap e))] @
           (if Entry_Repo e = '''' then [] else [(''repo'', JStr (Entry_Repo e))]) @
           [(''decision'', Decision_MarshalJSON (Entry_Decision e)),
            (''reason'', JStr (Entry_Reason e))])))"

record 'w AuditLog =
  entries :: "AuditEntry list"
  writer :: "'w option"

definition NewAuditLog :: "'w option \<Rightarrow> 'w AuditLog" where
  "NewAuditLog w = \<lparr>entries = [], writer = w\<rparr>"

text \<open>What the log is given by its surroundings: the JSON text of an entry, and the writer.\<close>

record 'w audit_env =
  json_entry :: "AuditEntry \<Rightarrow> string res"
  write_line :: "string \<Rightarrow> 'w \<Rightarrow> err option \<times> 'w"

definition entry_of :: "gotime \<Rightarrow> EvalResult \<Rightarrow> string \<Rightarrow> AuditEntry" where
  "entry_of now result repo =
     \<lparr>Entry_Timestamp = now, Entry_Agent = Result_Agent result, Entry_Cap = Result_Cap result,
      Entry_Repo = repo, Entry_Decision = Result_Decision result, Entry_Reason = Result_Reason result\<rparr>"

definition AuditLog_Record ::
    "'w audit_env \<Rightarrow> gotime \<Rightarrow> EvalResult \<Rightarrow> string \<Rightarrow> 'w AuditLog \<Rightarrow> err option \<times> 'w AuditLog" where
  "AuditLog_Record env now result repo l =
     (let entry = entry_of now result repo;
          l1 = l\<lparr>entries := entries l @ [entry]\<rparr>
      in case writer l1 of
           None \<Rightarrow> (None, l1)
         | Some w \<Rightarrow>
             (case json_entry env entry of
                Inl e \<Rightarrow> (Some (E ''trust.AuditLog.Record'' ''marshal failed'' (Some e)), l1)
              | Inr data \<Rightarrow>
                  (case write_line env (data @ [char_of (10::nat)]) w of
                     (Some e, w') \<Rightarrow>
                       (Some (E ''trust.AuditLog.Record'' ''write failed'' (Some e)),
                        l1\<lparr>writer := Some w'\<rparr>)
                   | (None, w') \<Rightarrow> (None, l1\<lparr>writer := Some w'\<rparr>))))"

definition AuditLog_Entries :: "'w AuditLog \<Rightarrow> AuditEntry list" where
  "AuditLog_Entries l = entries l"

definition AuditLog_EntriesSeq :: "'w AuditLog \<Rightarrow> (AuditEntry \<Rightarrow> 's \<Rightarrow> bool \<times> 's) \<Rightarrow> 's \<Rightarrow> 's" where
  "AuditLog_EntriesSeq l yield s = seq_run yield (entries l) s"

definition AuditLog_Len :: "'w AuditLog \<Rightarrow> nat" where
  "AuditLog_Len l = length (entries l)"

definition AuditLog_EntriesFor :: "string \<Rightarrow> 'w AuditLog \<Rightarrow> AuditEntry list" where
  "AuditLog_EntriesFor agent l = filter (\<lambda>e. Entry_Agent e = agent) (entries l)"

fun entries_for_loop :: "string \<Rightarrow> (AuditEntry \<Rightarrow> 's \<Rightarrow> bool \<times> 's) \<Rightarrow> AuditEntry list \<Rightarrow> 's \<Rightarrow> 's" where
  "entries_for_loop agent yield [] s = s"
| "entries_for_loop agent yield (e # es) s =
     (if Entry_Agent e = agent
      then (case yield e s of (go, s') \<Rightarrow> if go then entries_for_loop agent yield es s' else s')
      else entries_for_loop agent yield es s)"

definition AuditLog_EntriesForSeq ::
    "string \<Rightarrow> 'w AuditLog \<Rightarrow> (AuditEntry \<Rightarrow> 's \<Rightarrow> bool \<times> 's) \<Rightarrow> 's \<Rightarrow> 's" where
  "AuditLog_EntriesForSeq agent l yield s = entries_for_loop agent yield (entries l) s"

section \<open>What a sequence of records leaves\<close>

fun record_all :: "'w audit_env \<Rightarrow> (gotime \<times> EvalResult \<times> string) list \<Rightarrow> 'w AuditLog \<Rightarrow> 'w AuditLog" where
  "record_all env [] l = l"
| "record_all env ((now, r, rp) # xs) l = record_all env xs (snd (AuditLog_Record env now r rp l))"

definition line_of :: "'w audit_env \<Rightarrow> AuditEntry \<Rightarrow> string" where
  "line_of env e = (case json_entry env e of Inl _ \<Rightarrow> '''' | Inr data \<Rightarrow> data @ [char_of (10::nat)])"

definition appending :: "'w audit_env \<Rightarrow> ('w \<Rightarrow> string) \<Rightarrow> bool" where
  "appending env received \<longleftrightarrow>
     (\<forall>s w. fst (write_line env s w) = None \<and> received (snd (write_line env s w)) = received w @ s)"

lemma Record_entries:
  "entries (snd (AuditLog_Record env now r rp l)) = entries l @ [entry_of now r rp]"
  by (auto simp: AuditLog_Record_def Let_def split: option.split sum.split prod.split)

lemma Record_writer_None: "writer l = None \<Longrightarrow> AuditLog_Record env now r rp l =
    (None, l\<lparr>entries := entries l @ [entry_of now r rp]\<rparr>)"
  by (simp add: AuditLog_Record_def Let_def)

lemma record_all_entries:
  "entries (record_all env xs l) = entries l @ map (\<lambda>(now, r, rp). entry_of now r rp) xs"
  by (induction env xs l rule: record_all.induct) (auto simp: Record_entries)

lemma Record_received:
  assumes app: "appending env received" and w: "writer l = Some w"
  shows "\<exists>w'. writer (snd (AuditLog_Record env now r rp l)) = Some w' \<and>
    received w' = received w @ line_of env (entry_of now r rp)"
proof (cases "json_entry env (entry_of now r rp)")
  case (Inl e)
  with w show ?thesis by (simp add: AuditLog_Record_def line_of_def Let_def)
next
  case (Inr d)
  obtain w' where w': "write_line env (d @ [char_of (10::nat)]) w = (None, w')"
      "received w' = received w @ d @ [char_of (10::nat)]"
    using app unfolding appending_def by (metis prod.collapse)
  with w Inr show ?thesis by (simp add: AuditLog_Record_def line_of_def Let_def)
qed

lemma record_all_received:
  "appending env received \<Longrightarrow> writer l = Some w \<Longrightarrow>
   \<exists>w'. writer (record_all env xs l) = Some w' \<and>
     received w' = received w @ concat (map (\<lambda>(now, r, rp). line_of env (entry_of now r rp)) xs)"
proof (induction xs arbitrary: l w)
  case (Cons x xs)
  obtain now r rp where x: "x = (now, r, rp)" by (cases x)
  obtain w' where w': "writer (snd (AuditLog_Record env now r rp l)) = Some w'"
      "received w' = received w @ line_of env (entry_of now r rp)"
    using Record_received [OF Cons.prems] by blast
  show ?case using Cons.IH [OF Cons.prems(1) w'(1)] w'(2) by (auto simp: x)
qed simp

lemma entries_for_loop_eq:
  "entries_for_loop agent yield es s = seq_run yield (filter (\<lambda>e. Entry_Agent e = agent) es) s"
  by (induction es arbitrary: s) (auto split: prod.split)

section \<open>Properties\<close>

text \<open>
  The log is append-only and complete: recording any results, whether or not the JSON form or
  the writer fails, keeps the entries already there and appends one entry per result, in order.
\<close>

theorem audit_log_appends:
  "AuditLog_Entries (record_all env xs l) =
     AuditLog_Entries l @ map (\<lambda>(now, r, rp). entry_of now r rp) xs"
  by (simp add: AuditLog_Entries_def record_all_entries)

text \<open>
  A writer that appends what it is given receives, after any number of records on a new log,
  exactly the lines of the entries that have a JSON form, in the order of the entries.
\<close>

theorem audit_writer_receives_lines:
  assumes "appending env received" and "received w = ''''"
  shows "\<exists>w'. writer (record_all env xs (NewAuditLog (Some w))) = Some w' \<and>
           received w' = concat (map (line_of env)
             (AuditLog_Entries (record_all env xs (NewAuditLog (Some w)))))"
  using record_all_received [OF assms(1), where l = "NewAuditLog (Some w)" and xs = xs] assms(2)
  by (auto simp: NewAuditLog_def AuditLog_Entries_def record_all_entries comp_def split_def)

definition example_audit_env :: "string audit_env" where
  "example_audit_env = \<lparr>json_entry = (\<lambda>e. Inr (Entry_Agent e)), write_line = (\<lambda>s w. (None, w @ s))\<rparr>"

theorem audit_writer_receives_lines_witness:
  "\<exists>w'. writer (record_all example_audit_env
          [(5, Evaluate NewRegistry NewPolicyEngine ''Eve'' CapPushRepo ''a/b'', ''a/b'')]
          (NewAuditLog (Some ''''))) = Some w' \<and> w' = ''Eve'' @ [char_of (10::nat)]"
proof -
  have "appending example_audit_env (\<lambda>w. w)" by (simp add: appending_def example_audit_env_def)
  from audit_writer_receives_lines [OF this, where w = "''''" and
      xs = "[(5, Evaluate NewRegistry NewPolicyEngine ''Eve'' CapPushRepo ''a/b'', ''a/b'')]"]
  show ?thesis
    by (simp add: AuditLog_Entries_def Record_entries NewAuditLog_def line_of_def
        example_audit_env_def entry_of_def Evaluate_echo)
qed

text \<open>
  The entries of an agent are those of the log that name it, in order, and their iterator,
  stopped after \<open>n\<close> elements, yields the first \<open>n\<close> of them.
\<close>

theorem entries_for_agree:
  "0 < n \<Longrightarrow> AuditLog_EntriesForSeq agent l (collect_until n) [] = take n (AuditLog_EntriesFor agent l) \<and>
     AuditLog_EntriesSeq l (collect_until n) [] = take n (AuditLog_Entries l)"
  by (simp add: AuditLog_EntriesForSeq_def AuditLog_EntriesFor_def AuditLog_EntriesSeq_def
      AuditLog_Entries_def entries_for_loop_eq seq_run_collect_until)

theorem entries_for_agree_witness:
  "AuditLog_EntriesForSeq ''Eve'' (record_all example_audit_env
      [(5, Evaluate NewRegistry NewPolicyEngine ''Eve'' CapPushRepo ''a/b'', ''a/b'')]
      (NewAuditLog None)) (collect_until 1) [] =
   take 1 (AuditLog_EntriesFor ''Eve'' (record_all example_audit_env
      [(5, Evaluate NewRegistry NewPolicyEngine ''Eve'' CapPushRepo ''a/b'', ''a/b'')]
      (NewAuditLog None)))"
  by (rule entries_for_agree [THEN conjunct1]) simp

text \<open>
  A named decision survives its JSON form; any other integer is written but cannot be read back.
\<close>

theorem decision_json_roundtrip:
  "Decision_UnmarshalJSON (Decision_MarshalJSON d) =
     (case d of OtherDecision n \<Rightarrow>
        Inl (E ''trust.Decision.UnmarshalJSON'' (''unknown decision: unknown('' @ itoa n @ '')'') None)
      | _ \<Rightarrow> Inr d)"
  by (cases d) (simp_all add: Decision_UnmarshalJSON_def Decision_MarshalJSON_def)

end
