(* ===== verification/Config.thy ===== *)
theory Config
  imports Policy Json
begin

text \<open>
  \<^verbatim>\<open>go/trust/config.go\<close>: loading policies from JSON, applying them to an engine, and exporting an
  engine's policies.  Reading a file or a reader gives a text or an error (an argument); parsing
  and printing the text are the arguments \<open>parse\<close> and \<open>print\<close>.  The lemmas show what a document must
  be to load, that loading is all or nothing, and that an export can be applied again.
\<close>

record PolicyConfig =
  Cfg_Tier :: int
  Cfg_Allowed :: "string list"
  Cfg_RequiresApproval :: "string list"
  Cfg_Denied :: "string list"

record PoliciesConfig =
  Cfg_Policies :: "PolicyConfig list"

definition toCapabilities :: "string list \<Rightarrow> Capability list" where
  "toCapabilities ss = (if length ss = 0 then [] else map (\<lambda>s. s) ss)"

definition fromCapabilities :: "Capability list \<Rightarrow> string list" where
  "fromCapabilities caps = (if length caps = 0 then [] else map (\<lambda>c. c) caps)"

definition isKnownPolicyConfigKey :: "string \<Rightarrow> bool" where
  "isKnownPolicyConfigKey key \<longleftrightarrow>
     key = ''tier'' \<or> key = ''allowed'' \<or> key = ''requires_approval'' \<or> key = ''denied''"

section \<open>Validation\<close>

definition unknown_field :: "string \<Rightarrow> err option" where
  "unknown_field key = Some (Ext (''json: unknown field '' @ Quote key))"

fun check_keys :: "(string \<Rightarrow> bool) \<Rightarrow> (string \<times> json) list \<Rightarrow> err option" where
  "check_keys known [] = None"
| "check_keys known ((k, v) # fs) = (if \<not> known k then unknown_field k else check_keys known fs)"

fun check_policies :: "json list \<Rightarrow> err option" where
  "check_policies [] = None"
| "check_policies (JObj fs # ps) =
     (case check_keys isKnownPolicyConfigKey fs of Some e \<Rightarrow> Some e | None \<Rightarrow> check_policies ps)"
| "check_policies (_ # ps) = check_policies ps"

text \<open>
  The first decoding, into \<^verbatim>\<open>map[string]any\<close>, takes an object or \<^verbatim>\<open>null\<close>.  Of several unknown keys
  Go reports the first its iteration meets; here it is the first in the document.
\<close>

definition validatePoliciesJSON :: "json \<Rightarrow> err option" where
  "validatePoliciesJSON data =
     (case data of
        JObj raw \<Rightarrow>
          (case check_keys (\<lambda>k. k = ''policies'') raw of
             Some e \<Rightarrow> Some e
           | None \<Rightarrow>
               (case map_of raw ''policies'' of
                  Some (JArr ps) \<Rightarrow> check_policies ps
                | _ \<Rightarrow> None))
      | JNull \<Rightarrow> None
      | _ \<Rightarrow> Some (Ext ''json: cannot unmarshal''))"

section \<open>Decoding and conversion\<close>

definition decode_PolicyConfig :: "json \<Rightarrow> PolicyConfig res" where
  "decode_PolicyConfig j =
     (case (case j of JObj fs \<Rightarrow> Some fs | JNull \<Rightarrow> Some [] | _ \<Rightarrow> None) of
        None \<Rightarrow> type_error
      | Some fs \<Rightarrow>
          (case decode_int (member_of fs ''tier'') of Inl e \<Rightarrow> Inl e | Inr t \<Rightarrow>
          (case decode_list decode_string (member_of fs ''allowed'') of Inl e \<Rightarrow> Inl e | Inr al \<Rightarrow>
          (case decode_list decode_string (member_of fs ''requires_approval'') of
             Inl e \<Rightarrow> Inl e | Inr ra \<Rightarrow>
          (case decode_list decode_string (member_of fs ''denied'') of Inl e \<Rightarrow> Inl e | Inr de \<Rightarrow>
             Inr \<lparr>Cfg_Tier = t, Cfg_Allowed = al, Cfg_RequiresApproval = ra, Cfg_Denied = de\<rparr>)))))"

definition decode_PoliciesConfig :: "json \<Rightarrow> PoliciesConfig res" where
  "decode_PoliciesConfig j =
     (case (case j of JObj fs \<Rightarrow> Some fs | JNull \<Rightarrow> Some [] | _ \<Rightarrow> None) of
        None \<Rightarrow> type_error
      | Some fs \<Rightarrow>
          (case decode_list decode_PolicyConfig (member_of fs ''policies'') of
             Inl e \<Rightarrow> Inl e | Inr ps \<Rightarrow> Inr \<lparr>Cfg_Policies = ps\<rparr>))"

fun convert_from :: "nat \<Rightarrow> PolicyConfig list \<Rightarrow> Policy list res" where
  "convert_from i [] = Inr []"
| "convert_from i (pc # pcs) =
     (if \<not> Tier_Valid (Cfg_Tier pc)
      then Inl (E ''trust.LoadPolicies''
                  (''invalid tier '' @ itoa (Cfg_Tier pc) @ '' at index '' @ itoa (int i)) None)
      else (case convert_from (Suc i) pcs of
              Inl e \<Rightarrow> Inl e
            | Inr ps \<Rightarrow>
                Inr (\<lparr>Policy_Tier = Cfg_Tier pc,
                      Policy_Allowed = toCapabilities (Cfg_Allowed pc),
                      Policy_RequiresApproval = toCapabilities (Cfg_RequiresApproval pc),
                      Policy_Denied = toCapabilities (Cfg_Denied pc)\<rparr> # ps)))"

definition convertPolicies :: "PoliciesConfig \<Rightarrow> Policy list res" where
  "convertPolicies cfg = convert_from 0 (Cfg_Policies cfg)"

definition decode_failed :: "err \<Rightarrow> 'a res" where
  "decode_failed e = Inl (E ''trust.LoadPolicies'' ''failed to decode JSON'' (Some e))"

definition LoadPolicies :: "(string \<Rightarrow> json res) \<Rightarrow> string res \<Rightarrow> Policy list res" where
  "LoadPolicies parse r =
     (case r of
        Inl e \<Rightarrow> decode_failed e
      | Inr data \<Rightarrow>
          (case parse data of
             Inl e \<Rightarrow> decode_failed e
           | Inr doc \<Rightarrow>
               (case validatePoliciesJSON doc of
                  Some e \<Rightarrow> decode_failed e
                | None \<Rightarrow>
                    (case decode_PoliciesConfig doc of
                       Inl e \<Rightarrow> decode_failed e
                     | Inr cfg \<Rightarrow> convertPolicies cfg))))"

text \<open>Opening a file gives an error or a reader; \<open>opened\<close> is that result.\<close>

definition LoadPoliciesFromFile :: "(string \<Rightarrow> json res) \<Rightarrow> string res res \<Rightarrow> Policy list res" where
  "LoadPoliciesFromFile parse opened =
     (case opened of
        Inl e \<Rightarrow> Inl (E ''trust.LoadPoliciesFromFile'' ''failed to open file'' (Some e))
      | Inr r \<Rightarrow> LoadPolicies parse r)"

section \<open>Applying and exporting\<close>

text \<open>The engine is mutated policy by policy, so an error leaves those set before it.\<close>

fun set_policies :: "Policy list \<Rightarrow> PolicyEngine \<Rightarrow> err option \<times> PolicyEngine" where
  "set_policies [] pe = (None, pe)"
| "set_policies (p # ps) pe =
     (case SetPolicy p pe of
        Inl e \<Rightarrow> (Some (E ''trust.ApplyPolicies'' ''failed to set policy'' (Some e)), pe)
      | Inr pe' \<Rightarrow> set_policies ps pe')"

definition ApplyPolicies ::
    "(string \<Rightarrow> json res) \<Rightarrow> string res \<Rightarrow> PolicyEngine \<Rightarrow> err option \<times> PolicyEngine" where
  "ApplyPolicies parse r pe =
     (case LoadPolicies parse r of
        Inl e \<Rightarrow> (Some e, pe)
      | Inr ps \<Rightarrow> set_policies ps pe)"

definition ApplyPoliciesFromFile ::
    "(string \<Rightarrow> json res) \<Rightarrow> string res res \<Rightarrow> PolicyEngine \<Rightarrow> err option \<times> PolicyEngine" where
  "ApplyPoliciesFromFile parse opened pe =
     (case opened of
        Inl e \<Rightarrow> (Some (E ''trust.ApplyPoliciesFromFile'' ''failed to open file'' (Some e)), pe)
      | Inr r \<Rightarrow> ApplyPolicies parse r pe)"

definition export_config :: "PolicyEngine \<Rightarrow> PoliciesConfig" where
  "export_config pe =
     \<lparr>Cfg_Policies = List.map_filter (\<lambda>tier. map_option (\<lambda>p.
          \<lparr>Cfg_Tier = Policy_Tier p,
           Cfg_Allowed = fromCapabilities (Policy_Allowed p),
           Cfg_RequiresApproval = fromCapabilities (Policy_RequiresApproval p),
           Cfg_Denied = fromCapabilities (Policy_Denied p)\<rparr>) (GetPolicy pe tier))
        [TierUntrusted, TierVerified, TierFull]\<rparr>"

definition encode_PolicyConfig :: "PolicyConfig \<Rightarrow> json" where
  "encode_PolicyConfig pc =
     JObj ([(''tier'', JInt (Cfg_Tier pc)), (''allowed'', encode_strings (Cfg_Allowed pc))] @
           omitempty ''requires_approval'' (Cfg_RequiresApproval pc) @
           omitempty ''denied'' (Cfg_Denied pc))"

definition encode_PoliciesConfig :: "PoliciesConfig \<Rightarrow> json" where
  "encode_PoliciesConfig cfg =
     JObj [(''policies'', if Cfg_Policies cfg = [] then JNull
                          else JArr (map encode_PolicyConfig (Cfg_Policies cfg)))]"

text \<open>\<open>print\<close> is the JSON printer and \<open>wr\<close> the writer: it takes the text and may fail.\<close>

definition ExportPolicies ::
    "(json \<Rightarrow> string res) \<Rightarrow> (string \<Rightarrow> err option) \<Rightarrow> PolicyEngine \<Rightarrow> err option \<times> string option" where
  "ExportPolicies print wr pe =
     (case print (encode_PoliciesConfig (export_config pe)) of
        Inl e \<Rightarrow> (Some (E ''trust.ExportPolicies'' ''failed to encode JSON'' (Some e)), None)
      | Inr text \<Rightarrow>
          (case wr text of
             Some e \<Rightarrow> (Some (E ''trust.ExportPolicies'' ''failed to encode JSON'' (Some e)), None)
           | None \<Rightarrow> (None, Some text)))"

section \<open>Loading, applying, exporting\<close>

lemma capabilities_id [simp]: "toCapabilities ss = ss" "fromCapabilities ss = ss"
  by (simp_all add: toCapabilities_def fromCapabilities_def)

lemma convert_from_valid:
  "convert_from i pcs = Inr ps \<Longrightarrow> list_all (\<lambda>p. Tier_Valid (Policy_Tier p)) ps"
  by (induction pcs arbitrary: i ps) (auto split: if_splits sum.splits)

lemma convert_from_map:
  "list_all (\<lambda>pc. Tier_Valid (Cfg_Tier pc)) pcs \<Longrightarrow>
   convert_from i pcs = Inr (map (\<lambda>pc. \<lparr>Policy_Tier = Cfg_Tier pc, Policy_Allowed = Cfg_Allowed pc,
      Policy_RequiresApproval = Cfg_RequiresApproval pc, Policy_Denied = Cfg_Denied pc\<rparr>) pcs)"
  by (induction pcs arbitrary: i) auto

lemma LoadPolicies_valid:
  "LoadPolicies parse r = Inr ps \<Longrightarrow> list_all (\<lambda>p. Tier_Valid (Policy_Tier p)) ps"
  by (auto simp: LoadPolicies_def decode_failed_def convertPolicies_def convert_from_valid
      split: sum.splits option.splits)

lemma set_policies_valid:
  "list_all (\<lambda>p. Tier_Valid (Policy_Tier p)) ps \<Longrightarrow>
   set_policies ps pe = (None, pe\<lparr>policies := fold (\<lambda>p m. m(Policy_Tier p \<mapsto> p)) ps (policies pe)\<rparr>)"
  by (induction ps arbitrary: pe) (auto simp: SetPolicy_def)

lemma set_policies_wf: "engine_wf pe \<Longrightarrow> engine_wf (snd (set_policies ps pe))"
  by (induction ps arbitrary: pe) (auto intro: engine_wf_SetPolicy split: sum.splits)

lemma engine_wf_ApplyPolicies: "engine_wf pe \<Longrightarrow> engine_wf (snd (ApplyPolicies parse r pe))"
  by (simp add: ApplyPolicies_def set_policies_wf split: sum.split)

lemma decode_encode_PolicyConfig:
  "- (2 ^ 63) \<le> Cfg_Tier pc \<Longrightarrow> Cfg_Tier pc < 2 ^ 63 \<Longrightarrow>
   decode_PolicyConfig (encode_PolicyConfig pc) = Inr pc"
  by (cases pc) (simp add: decode_PolicyConfig_def encode_PolicyConfig_def omitempty_def)

lemma decode_encode_PoliciesConfig:
  assumes "list_all (\<lambda>pc. Tier_Valid (Cfg_Tier pc)) (Cfg_Policies cfg)"
  shows "decode_PoliciesConfig (encode_PoliciesConfig cfg) = Inr cfg"
proof -
  have "decode_PolicyConfig (encode_PolicyConfig pc) = Inr pc" if "pc \<in> set (Cfg_Policies cfg)" for pc
    using that assms by (intro decode_encode_PolicyConfig)
      (auto simp: list_all_iff Tier_Valid_cases tier_defs)
  then have "decode_all decode_PolicyConfig (map encode_PolicyConfig (Cfg_Policies cfg)) =
      Inr (Cfg_Policies cfg)" by (rule decode_all_map)
  then show ?thesis by (simp add: decode_PoliciesConfig_def encode_PoliciesConfig_def)
qed

lemma check_keys_None_iff: "check_keys known fs = None \<longleftrightarrow> list_all (\<lambda>(k, v). known k) fs"
  by (induction known fs rule: check_keys.induct) (auto simp: unknown_field_def)

lemma check_keys_SomeD: "check_keys known fs = Some e \<Longrightarrow> \<not> list_all (\<lambda>(k, v). known k) fs"
  using check_keys_None_iff [of known fs] by simp

lemma check_encoded: "check_policies (map encode_PolicyConfig pcs) = None"
proof (induction pcs)
  case (Cons pc pcs)
  obtain fs where "encode_PolicyConfig pc = JObj fs" and "check_keys isKnownPolicyConfigKey fs = None"
    by (simp add: encode_PolicyConfig_def check_keys_None_iff omitempty_def isKnownPolicyConfigKey_def)
  with Cons show ?case by simp
qed simp

lemma validate_encoded: "validatePoliciesJSON (encode_PoliciesConfig cfg) = None"
  by (simp add: validatePoliciesJSON_def encode_PoliciesConfig_def check_encoded)

text \<open>The keys an accepted document may have.\<close>

fun strict_policy :: "json \<Rightarrow> bool" where
  "strict_policy (JObj fs) = list_all (\<lambda>(k, v). isKnownPolicyConfigKey k) fs"
| "strict_policy _ = True"

fun strict_document :: "json \<Rightarrow> bool" where
  "strict_document (JObj fs) =
     (list_all (\<lambda>(k, v). k = ''policies'') fs \<and>
      (case member_of fs ''policies'' of JArr ps \<Rightarrow> list_all strict_policy ps | _ \<Rightarrow> True))"
| "strict_document JNull = True"
| "strict_document _ = False"

lemma check_policies_None_iff: "check_policies ps = None \<longleftrightarrow> list_all strict_policy ps"
  by (induction ps rule: check_policies.induct) (auto simp: check_keys_None_iff dest: check_keys_SomeD split: option.splits)

lemma validate_None_iff: "validatePoliciesJSON doc = None \<longleftrightarrow> strict_document doc"
  by (cases doc)
     (auto simp: validatePoliciesJSON_def check_keys_None_iff check_policies_None_iff member_of_def
       dest: check_keys_SomeD split: option.splits json.splits)

lemma export_config_valid:
  "engine_wf pe \<Longrightarrow> list_all (\<lambda>pc. Tier_Valid (Cfg_Tier pc)) (Cfg_Policies (export_config pe))"
  by (auto simp: export_config_def engine_wf_def GetPolicy_def list_all_iff map_filter_def
      Tier_Valid_def tier_defs split: if_splits)

lemma exported_policies:
  assumes "engine_wf pe" and "engine_wf pe0"
  shows "fold (\<lambda>p m. m(Policy_Tier p \<mapsto> p))
     (map (\<lambda>pc. \<lparr>Policy_Tier = Cfg_Tier pc, Policy_Allowed = Cfg_Allowed pc,
        Policy_RequiresApproval = Cfg_RequiresApproval pc, Policy_Denied = Cfg_Denied pc\<rparr>)
       (Cfg_Policies (export_config pe))) (policies pe0) = policies pe"
proof -
  have dom: "dom (policies pe) = {1, 2, 3}" "dom (policies pe0) = {1, 2, 3}"
    using assms by (simp_all add: engine_wf_def tier_defs)
  then obtain p1 p2 p3 where p: "policies pe 1 = Some p1" "policies pe 2 = Some p2" "policies pe 3 = Some p3"
    by (metis domD insertI1 insertI2)
  have t: "Policy_Tier p1 = 1" "Policy_Tier p2 = 2" "Policy_Tier p3 = 3"
    using assms(1) p by (simp_all add: engine_wf_def)
  have other: "policies pe0 t = policies pe t" if "t \<notin> {1, 2, 3}" for t
    using that dom by (metis domIff)
  have eta: "\<lparr>Policy_Tier = Policy_Tier x, Policy_Allowed = Policy_Allowed x,
      Policy_RequiresApproval = Policy_RequiresApproval x, Policy_Denied = Policy_Denied x\<rparr> = x" for x :: Policy
    by simp
  show ?thesis
    using p t other eta [of p1] eta [of p2] eta [of p3]
    by (auto simp: export_config_def GetPolicy_def tier_defs map_filter_def fun_eq_iff)
qed

lemma apply_policies_loaded:
  "LoadPolicies parse r = Inr ps \<Longrightarrow>
   ApplyPolicies parse r pe = (None, pe\<lparr>policies := fold (\<lambda>p m. m(Policy_Tier p \<mapsto> p)) ps (policies pe)\<rparr>)"
  by (simp add: ApplyPolicies_def set_policies_valid [OF LoadPolicies_valid])

section \<open>Properties\<close>

text \<open>
  Applying policies is all or nothing: either loading fails, the error is reported and the engine
  is as before, or every loaded policy has a valid tier and replaces its tier's policy, later ones
  over earlier ones.
\<close>

theorem apply_policies_all_or_nothing:
  "ApplyPolicies parse r pe =
     (case LoadPolicies parse r of
        Inl e \<Rightarrow> (Some e, pe)
      | Inr ps \<Rightarrow> (None, pe\<lparr>policies := fold (\<lambda>p m. m(Policy_Tier p \<mapsto> p)) ps (policies pe)\<rparr>))"
  by (cases "LoadPolicies parse r") (simp_all add: apply_policies_loaded, simp add: ApplyPolicies_def)

text \<open>
  C37.  What an engine exports, any other engine can apply, and then holds the same policies, for a
  printer and a parser of JSON text that agree on the exported document.
\<close>

theorem export_apply_roundtrip:
  assumes wf: "engine_wf pe" "engine_wf pe0"
    and json: "print (encode_PoliciesConfig (export_config pe)) = Inr text"
      "parse text = Inr (encode_PoliciesConfig (export_config pe))"
  shows "ExportPolicies print (\<lambda>_. None) pe = (None, Some text) \<and>
         ApplyPolicies parse (Inr text) pe0 = (None, pe0\<lparr>policies := policies pe\<rparr>)"
proof -
  have "LoadPolicies parse (Inr text) =
      Inr (map (\<lambda>pc. \<lparr>Policy_Tier = Cfg_Tier pc, Policy_Allowed = Cfg_Allowed pc,
        Policy_RequiresApproval = Cfg_RequiresApproval pc, Policy_Denied = Cfg_Denied pc\<rparr>)
       (Cfg_Policies (export_config pe)))"
    using json(2) export_config_valid [OF wf(1)]
    by (simp add: LoadPolicies_def validate_encoded decode_encode_PoliciesConfig convertPolicies_def
        convert_from_map)
  with exported_policies [OF wf] json(1) show ?thesis
    by (simp add: ExportPolicies_def apply_policies_loaded)
qed

definition example_doc :: json where
  "example_doc = encode_PoliciesConfig (export_config NewPolicyEngine)"

theorem export_apply_roundtrip_witness:
  "ApplyPolicies (\<lambda>_. Inr example_doc) (Inr ''text'') NewPolicyEngine =
     (None, NewPolicyEngine\<lparr>policies := policies NewPolicyEngine\<rparr>)"
  by (rule export_apply_roundtrip [where print = "\<lambda>_. Inr ''text''", OF engine_wf_New engine_wf_New,
        THEN conjunct2])
     (simp_all add: example_doc_def)

text \<open>
  A document that loads is an object or \<^verbatim>\<open>null\<close> with no key but \<^verbatim>\<open>policies\<close>, each policy in it
  has only the four known keys, and each loaded policy has a valid tier.
\<close>

theorem load_policies_strict:
  assumes "LoadPolicies parse (Inr text) = Inr ps"
  shows "\<exists>doc. parse text = Inr doc \<and> strict_document doc \<and> list_all (\<lambda>p. Tier_Valid (Policy_Tier p)) ps"
  using assms LoadPolicies_valid [OF assms]
  by (auto simp: LoadPolicies_def decode_failed_def validate_None_iff split: sum.splits option.splits)

theorem load_policies_strict_witness: "strict_document (JObj [(''policies'', JArr [JObj [(''tier'', JInt 2)]])])"
proof -
  have "LoadPolicies (\<lambda>_. Inr (JObj [(''policies'', JArr [JObj [(''tier'', JInt 2)]])])) (Inr ''t'') =
      Inr [\<lparr>Policy_Tier = 2, Policy_Allowed = [], Policy_RequiresApproval = [], Policy_Denied = []\<rparr>]"
    by (simp add: LoadPolicies_def validatePoliciesJSON_def decode_PoliciesConfig_def
        decode_PolicyConfig_def convertPolicies_def Tier_Valid_def tier_defs isKnownPolicyConfigKey_def)
  from load_policies_strict [OF this] show ?thesis by simp
qed

end
