(* ===== verification/Encode.thy ===== *)
theory Encode
  imports Prelude
begin

unbundle bit_operations_syntax

text \<open>
  \<^verbatim>\<open>go/internal/corecompat/encode.go\<close>: hexadecimal and padded base64, on 8-bit bytes grouped into
  32-bit words as in the source.  An index into an alphabet is below its length by the masks.
  The lemmas show that decoding inverts encoding, and the lengths and characters of what is encoded.
\<close>

definition hexAlphabet :: string where
  "hexAlphabet = ''0123456789abcdef''"

definition base64Alphabet :: string where
  "base64Alphabet = ''ABCDEFGHIJKLMNOPQRSTUVWXYZabcdefghijklmnopqrstuvwxyz0123456789+/''"

definition errInvalidBase64 :: err where
  "errInvalidBase64 = Ext ''invalid base64 encoding''"

definition HexEncode :: "bytes \<Rightarrow> string" where
  "HexEncode src =
     concat (map (\<lambda>b. [hexAlphabet ! unat (drop_bit 4 b), hexAlphabet ! unat (b AND 0x0f)]) src)"

text \<open>The character for the six bits of \<open>n\<close> that start at bit \<open>k\<close>: \<^verbatim>\<open>base64Alphabet[n>>k&0x3f]\<close>.\<close>

definition sextet :: "32 word \<Rightarrow> nat \<Rightarrow> char" where
  "sextet n k = base64Alphabet ! unat (drop_bit k n AND 0x3f)"

fun Base64Encode :: "bytes \<Rightarrow> string" where
  "Base64Encode [] = ''''"
| "Base64Encode [a] =
     (let n = push_bit 16 (ucast a) in [sextet n 18, sextet n 12, CHR ''='', CHR ''=''])"
| "Base64Encode [a, b] =
     (let n = push_bit 16 (ucast a) OR push_bit 8 (ucast b)
      in [sextet n 18, sextet n 12, sextet n 6, CHR ''=''])"
| "Base64Encode (a # b # c # rest) =
     (let n = push_bit 16 (ucast a) OR push_bit 8 (ucast b) OR ucast c
      in [sextet n 18, sextet n 12, sextet n 6, sextet n 0] @ Base64Encode rest)"

definition base64Value :: "char \<Rightarrow> byte option" where
  "base64Value ch =
     (let c = (of_char ch :: byte) in
      if of_char CHR ''A'' \<le> c \<and> c \<le> of_char CHR ''Z'' then Some (c - of_char CHR ''A'')
      else if of_char CHR ''a'' \<le> c \<and> c \<le> of_char CHR ''z'' then Some (c - of_char CHR ''a'' + 26)
      else if of_char CHR ''0'' \<le> c \<and> c \<le> of_char CHR ''9'' then Some (c - of_char CHR ''0'' + 52)
      else if ch = CHR ''+'' then Some 62
      else if ch = CHR ''/'' then Some 63
      else None)"

text \<open>\<^verbatim>\<open>if di < len(dst) { dst[di] = b; di++ }\<close>: \<open>acc\<close> is what is written, \<open>cap\<close> is \<^verbatim>\<open>len(dst)\<close>.\<close>

definition put_byte :: "nat \<Rightarrow> byte \<Rightarrow> bytes \<Rightarrow> bytes" where
  "put_byte cap b acc = (if length acc < cap then acc @ [b] else acc)"

text \<open>
  One round of the loop reads four characters; \<open>rest = []\<close> is \<^verbatim>\<open>si+4 == len(s)\<close>.  A remainder of
  one to three characters cannot occur, since the length is a multiple of four.
\<close>

fun decode_loop :: "nat \<Rightarrow> string \<Rightarrow> bytes \<Rightarrow> bytes res" where
  "decode_loop cap (s0 # s1 # s2 # s3 # rest) acc =
     (case base64Value s0 of None \<Rightarrow> Inl errInvalidBase64 | Some c0 \<Rightarrow>
     (case base64Value s1 of None \<Rightarrow> Inl errInvalidBase64 | Some c1 \<Rightarrow>
     (case (if s2 = CHR ''='' then (if rest \<noteq> [] \<or> s3 \<noteq> CHR ''='' then None else Some 0)
            else base64Value s2) of None \<Rightarrow> Inl errInvalidBase64 | Some c2 \<Rightarrow>
     (case (if s3 = CHR ''='' then (if rest \<noteq> [] then None else Some 0)
            else base64Value s3) of None \<Rightarrow> Inl errInvalidBase64 | Some c3 \<Rightarrow>
        (let n = push_bit 18 (ucast c0) OR push_bit 12 (ucast c1) OR push_bit 6 (ucast c2) OR
                 (ucast c3 :: 32 word)
         in decode_loop cap rest
              (put_byte cap (ucast n) (put_byte cap (ucast (drop_bit 8 n))
                (put_byte cap (ucast (drop_bit 16 n)) acc))))))))"
| "decode_loop cap _ acc = Inr acc"

definition Base64Decode :: "string \<Rightarrow> bytes res" where
  "Base64Decode s =
     (if length s = 0 then Inr []
      else if length s mod 4 \<noteq> 0 then Inl errInvalidBase64
      else
        (let padding = (if s ! (length s - 1) = CHR ''=''
                        then (if s ! (length s - 2) = CHR ''='' then 2 else 1) else 0)
         in decode_loop (length s div 4 * 3 - padding) s []))"

section \<open>Sextets\<close>

lemma base64Value_alphabet_all:
  "list_all (\<lambda>k. base64Value (base64Alphabet ! k) = Some (word_of_nat k)) [0..<64]"
  by code_simp

lemma base64Value_alphabet: "k < 64 \<Longrightarrow> base64Value (base64Alphabet ! k) = Some (word_of_nat k)"
  using base64Value_alphabet_all by (simp add: list_all_iff)

lemma alphabet_not_special_all:
  "list_all (\<lambda>c. c \<noteq> CHR ''='' \<and> c \<noteq> CHR ''$'') base64Alphabet"
  by code_simp

lemma length_alphabet [simp]: "length base64Alphabet = 64"
  by (simp add: base64Alphabet_def)

lemma sextet_bound: "unat (x AND 0x3f :: 32 word) < 64"
proof -
  have "x AND 0x3f \<le> (0x3f :: 32 word)" by (rule word_and_le1)
  then show ?thesis by (simp add: word_le_nat_alt)
qed

lemma base64Value_sextet:
  "base64Value (sextet n k) = Some (ucast (drop_bit k n AND 0x3f))"
  by (simp add: sextet_def base64Value_alphabet sextet_bound)

lemma sextet_not_special [simp]: "sextet n k \<noteq> CHR ''=''" "CHR ''='' \<noteq> sextet n k"
  "sextet n k \<noteq> CHR ''$''"
proof -
  have "sextet n k \<in> set base64Alphabet"
    unfolding sextet_def by (rule nth_mem) (simp add: sextet_bound)
  then have "sextet n k \<noteq> CHR ''='' \<and> sextet n k \<noteq> CHR ''$''"
    using alphabet_not_special_all unfolding list_all_iff by blast
  then show "sextet n k \<noteq> CHR ''=''" "CHR ''='' \<noteq> sextet n k" "sextet n k \<noteq> CHR ''$''"
    by auto
qed

section \<open>Regrouping\<close>

text \<open>The word the decoder assembles from the sextets of a 24-bit word is that word.\<close>

definition group :: "32 word \<Rightarrow> 32 word" where
  "group n = push_bit 18 (ucast (ucast (drop_bit 18 n AND 0x3f) :: byte)) OR
     push_bit 12 (ucast (ucast (drop_bit 12 n AND 0x3f) :: byte)) OR
     push_bit 6 (ucast (ucast (drop_bit 6 n AND 0x3f) :: byte)) OR
     ucast (ucast (drop_bit 0 n AND 0x3f) :: byte)"

lemma mask_6: "(0x3f :: 32 word) = mask 6"
  by (simp add: mask_eq_exp_minus_1)

lemma bit_group: "bit (group n) i \<longleftrightarrow> bit n i \<and> i < 24"
proof -
  consider "i < 6" | "6 \<le> i" "i < 12" | "12 \<le> i" "i < 18" | "18 \<le> i" "i < 24" | "24 \<le> i" by linarith
  then show ?thesis
    by cases (auto simp: group_def mask_6 bit_simps dest: bit_imp_le_length)
qed

lemma group_bytes:
  "ucast (drop_bit 16 (group (push_bit 16 (ucast a) OR push_bit 8 (ucast b) OR ucast c))) = (a :: byte)"
  "ucast (drop_bit 8 (group (push_bit 16 (ucast a) OR push_bit 8 (ucast b) OR ucast c))) = (b :: byte)"
  "ucast (group (push_bit 16 (ucast a) OR push_bit 8 (ucast b) OR ucast c)) = (c :: byte)"
  by (rule bit_word_eqI; auto simp: bit_simps bit_group dest: bit_imp_le_length)+

section \<open>Encoding and decoding\<close>

lemma length_Base64Encode: "length (Base64Encode src) = 4 * ((length src + 2) div 3)"
proof (induction src rule: Base64Encode.induct)
  case (4 a b c rest)
  have "(length (a # b # c # rest) + 2) div 3 = Suc ((length rest + 2) div 3)" by simp
  with 4 show ?case by (simp add: Let_def)
qed (simp_all add: Let_def)

lemma Base64Encode_eq_Nil [simp]: "Base64Encode src = [] \<longleftrightarrow> src = []"
  using length_Base64Encode [of src] by (cases src rule: Base64Encode.cases) (auto simp: Let_def)

text \<open>The padding the decoder reads off the last two characters.\<close>

lemma encoded_padding:
  assumes "src \<noteq> []"
  defines "e \<equiv> Base64Encode src"
  shows "(e ! (length e - 1) = CHR ''='' \<longleftrightarrow> length src mod 3 \<noteq> 0) \<and>
         (e ! (length e - 2) = CHR ''='' \<longleftrightarrow> length src mod 3 = 1)"
  using assms(1) unfolding e_def
proof (induction src rule: Base64Encode.induct)
  case (4 a b c rest)
  show ?case
  proof (cases "rest = []")
    case True
    then show ?thesis by (simp add: Let_def)
  next
    case False
    define e' where "e' = Base64Encode rest"
    have len: "2 \<le> length e'" using False by (cases rest) (auto simp: e'_def length_Base64Encode)
    have nth: "(xs @ e') ! (length (xs @ e') - k) = e' ! (length e' - k)" if "k \<le> 2" for xs k
    proof -
      have "length (xs @ e') - k = length xs + (length e' - k)" using that len by simp
      then show ?thesis by (simp only: nth_append_length_plus)
    qed
    have "length rest mod 3 < 3" by simp
    then have "length (a # b # c # rest) mod 3 = length rest mod 3"
      by (simp only: list.size add_Suc_right) presburger
    moreover have "Base64Encode (a # b # c # rest) =
        take 4 (Base64Encode (a # b # c # rest)) @ e'" by (simp add: Let_def e'_def)
    ultimately show ?thesis
      using "4.IH" False nth [of 1] nth [of 2] unfolding e'_def [symmetric]
      by (metis one_le_numeral order_refl)
  qed
qed (simp_all add: Let_def)

lemma zero_sextets:
  "ucast (drop_bit 6 (push_bit 16 (ucast (a :: byte)) :: 32 word) AND 0x3f) = (0 :: byte)"
  "ucast (drop_bit 0 (push_bit 16 (ucast (a :: byte)) :: 32 word) AND 0x3f) = (0 :: byte)"
  "ucast (drop_bit 0 (push_bit 16 (ucast (a :: byte)) OR push_bit 8 (ucast (b :: byte)) :: 32 word)
     AND 0x3f) = (0 :: byte)"
  unfolding mask_6 by (rule bit_word_eqI; auto simp: bit_simps)+

lemmas zero_sextets' = zero_sextets [unfolded drop_bit_0 id_apply]

lemma decode_loop_step:
  assumes "base64Value s0 = Some c0" and "base64Value s1 = Some c1"
    and "(if s2 = CHR ''='' then (if rest \<noteq> [] \<or> s3 \<noteq> CHR ''='' then None else Some 0)
          else base64Value s2) = Some c2"
    and "(if s3 = CHR ''='' then (if rest \<noteq> [] then None else Some 0) else base64Value s3) = Some c3"
    and "push_bit 18 (ucast c0) OR push_bit 12 (ucast c1) OR push_bit 6 (ucast c2) OR ucast c3 = group n"
  shows "decode_loop cap (s0 # s1 # s2 # s3 # rest) acc =
     decode_loop cap rest
       (put_byte cap (ucast (group n)) (put_byte cap (ucast (drop_bit 8 (group n)))
         (put_byte cap (ucast (drop_bit 16 (group n))) acc)))"
  using assms by (simp add: Let_def)

lemma decode_loop_sextets:
  "decode_loop cap (sextet n 18 # sextet n 12 # sextet n 6 # sextet n 0 # rest) acc =
     decode_loop cap rest
       (put_byte cap (ucast (group n)) (put_byte cap (ucast (drop_bit 8 (group n)))
         (put_byte cap (ucast (drop_bit 16 (group n))) acc)))"
  by (rule decode_loop_step) (simp_all add: base64Value_sextet, simp add: group_def)

lemma decode_loop_encode:
  "decode_loop (length acc + length src) (Base64Encode src) acc = Inr (acc @ src)"
proof (induction src arbitrary: acc rule: Base64Encode.induct)
  case (2 a)
  have "group (push_bit 16 (ucast a)) = group (push_bit 16 (ucast a) OR push_bit 8 (ucast (0::byte)) OR
      ucast (0::byte))" by simp
  then have "ucast (drop_bit 16 (group (push_bit 16 (ucast a)))) = a"
    by (metis group_bytes(1))
  moreover have "decode_loop (length acc + 1) (Base64Encode [a]) acc =
     decode_loop (length acc + 1) []
       (put_byte (length acc + 1) (ucast (group (push_bit 16 (ucast a))))
         (put_byte (length acc + 1) (ucast (drop_bit 8 (group (push_bit 16 (ucast a)))))
         (put_byte (length acc + 1) (ucast (drop_bit 16 (group (push_bit 16 (ucast a))))) acc)))"
    unfolding Base64Encode.simps Let_def
    by (rule decode_loop_step) (auto simp: base64Value_sextet group_def zero_sextets zero_sextets')
  ultimately show ?case by (simp add: put_byte_def)
next
  case (3 a b)
  let ?n = "push_bit 16 (ucast a) OR push_bit 8 (ucast b) :: 32 word"
  have "group ?n = group (?n OR ucast (0::byte))" by simp
  then have "ucast (drop_bit 16 (group ?n)) = a" "ucast (drop_bit 8 (group ?n)) = b"
    by (simp_all only: or.assoc group_bytes)
  moreover have "decode_loop (length acc + 2) (Base64Encode [a, b]) acc =
     decode_loop (length acc + 2) []
       (put_byte (length acc + 2) (ucast (group ?n)) (put_byte (length acc + 2) (ucast (drop_bit 8 (group ?n)))
         (put_byte (length acc + 2) (ucast (drop_bit 16 (group ?n))) acc)))"
    unfolding Base64Encode.simps Let_def
    by (rule decode_loop_step) (auto simp: base64Value_sextet group_def zero_sextets zero_sextets')
  ultimately show ?case by (simp add: put_byte_def)
next
  case (4 a b c rest)
  let ?n = "push_bit 16 (ucast a) OR push_bit 8 (ucast b) OR ucast c :: 32 word"
  let ?cap = "length acc + length (a # b # c # rest)"
  have "decode_loop ?cap (Base64Encode (a # b # c # rest)) acc =
     decode_loop ?cap (Base64Encode rest)
       (put_byte ?cap (ucast (group ?n)) (put_byte ?cap (ucast (drop_bit 8 (group ?n)))
         (put_byte ?cap (ucast (drop_bit 16 (group ?n))) acc)))"
    by (simp only: Base64Encode.simps Let_def append_Cons append_Nil decode_loop_sextets)
  also have "\<dots> = decode_loop (length (acc @ [a, b, c]) + length rest) (Base64Encode rest) (acc @ [a, b, c])"
    by (simp only: group_bytes) (simp add: put_byte_def)
  also have "\<dots> = Inr ((acc @ [a, b, c]) @ rest)" by (rule "4.IH" [OF refl])
  finally show ?case by simp
qed simp

lemma decode_encode: "Base64Decode (Base64Encode src) = Inr src"
proof (cases "src = []")
  case False
  define e where "e = Base64Encode src"
  have len: "length e = 4 * ((length src + 2) div 3)" by (simp add: e_def length_Base64Encode)
  have pad: "length e div 4 * 3 - (if e ! (length e - 1) = CHR ''=''
      then (if e ! (length e - 2) = CHR ''='' then 2 else 1) else 0) = length src"
    using encoded_padding [OF False] unfolding e_def [symmetric] len by simp presburger
  have "e \<noteq> []" using False by (simp add: e_def)
  then have "Base64Decode e = decode_loop (length e div 4 * 3 - (if e ! (length e - 1) = CHR ''=''
      then (if e ! (length e - 2) = CHR ''='' then 2 else 1) else 0)) e []"
    using len by (auto simp: Base64Decode_def Let_def)
  then show ?thesis unfolding pad using decode_loop_encode [of "[]" src] by (simp add: e_def)
qed (simp add: Base64Decode_def)

lemma encoded_chars: "c \<in> set (Base64Encode src) \<Longrightarrow> c = CHR ''='' \<or> c \<in> set base64Alphabet"
proof (induction src rule: Base64Encode.induct)
  case (4 a b c rest)
  then show ?case by (auto simp: Let_def sextet_def sextet_bound)
qed (auto simp: Let_def sextet_def sextet_bound)

lemma encoded_no_dollar: "CHR ''$'' \<notin> set (Base64Encode src)"
  using encoded_chars [of "CHR ''$''" src] alphabet_not_special_all by (auto simp: list_all_iff)

section \<open>Hexadecimal\<close>

lemma length_HexEncode: "length (HexEncode src) = 2 * length src"
  by (induction src) (simp_all add: HexEncode_def)

text \<open>Reading hexadecimal back, as a specification of what it denotes.\<close>

fun hex_value :: "char \<Rightarrow> byte option" where
  "hex_value c = (let k = length (takeWhile (\<lambda>d. d \<noteq> c) hexAlphabet) in
     if k < 16 then Some (word_of_nat k) else None)"

fun hex_read :: "string \<Rightarrow> bytes option" where
  "hex_read [] = Some []"
| "hex_read [c] = None"
| "hex_read (c # d # s) =
     (case (hex_value c, hex_value d, hex_read s) of
        (Some h, Some l, Some bs) \<Rightarrow> Some ((push_bit 4 h OR l) # bs)
      | _ \<Rightarrow> None)"

lemma hex_value_all: "list_all (\<lambda>k. hex_value (hexAlphabet ! k) = Some (word_of_nat k)) [0..<16]"
  by code_simp

lemma nibble_bounds: "unat (drop_bit 4 (b :: byte)) < 16" "unat (b AND 0x0f :: byte) < 16"
proof -
  have "b AND 0x0f \<le> (0x0f :: byte)" by (rule word_and_le1)
  then show "unat (b AND 0x0f :: byte) < 16" by (simp add: word_le_nat_alt)
  have "unat b < 256" using unsigned_less [of b, where 'a = nat] by simp
  then show "unat (drop_bit 4 b) < 16" by (simp add: unat_drop_bit_eq drop_bit_eq_div unat_div)
qed

lemma hex_value_nibble: "k < 16 \<Longrightarrow> hex_value (hexAlphabet ! k) = Some (word_of_nat k)"
  using hex_value_all by (simp add: list_all_iff)

lemma nibbles: "push_bit 4 (drop_bit 4 b) OR (b AND 0x0f) = (b :: byte)"
proof -
  have m: "(0x0f :: byte) = mask 4" by (simp add: mask_eq_exp_minus_1)
  show ?thesis unfolding m by (rule bit_word_eqI) (auto simp: bit_simps)
qed

lemma hex_read_HexEncode: "hex_read (HexEncode src) = Some src"
  by (induction src)
     (simp_all add: HexEncode_def hex_value_nibble nibble_bounds nibbles del: hex_value.simps)

text \<open>
  C33.  Base64 decoding inverts encoding on every byte string, and the encoding is the padded one:
  four characters for every started group of three bytes.
\<close>

theorem base64_roundtrip:
  "Base64Decode (Base64Encode src) = Inr src \<and> length (Base64Encode src) = 4 * ((length src + 2) div 3)"
  by (simp add: decode_encode length_Base64Encode)

section \<open>Padding\<close>

definition pad_length :: "nat \<Rightarrow> nat" where
  "pad_length n = (if n mod 3 = 0 then 0 else 3 - n mod 3)"

lemma Base64Encode_body:
  "\<exists>body. Base64Encode src = body @ replicate (pad_length (length src)) CHR ''='' \<and>
     CHR ''='' \<notin> set body"
proof (induction src rule: Base64Encode.induct)
  case (2 a)
  let ?n = "push_bit 16 (ucast a) :: 32 word"
  show ?case
    by (rule exI [of _ "[sextet ?n 18, sextet ?n 12]"])
       (simp add: Let_def pad_length_def numeral_2_eq_2)
next
  case (3 a b)
  let ?n = "push_bit 16 (ucast a) OR push_bit 8 (ucast b) :: 32 word"
  show ?case
    by (rule exI [of _ "[sextet ?n 18, sextet ?n 12, sextet ?n 6]"]) (simp add: Let_def pad_length_def)
next
  case (4 a b c rest)
  let ?n = "push_bit 16 (ucast a) OR push_bit 8 (ucast b) OR ucast c :: 32 word"
  obtain body where body: "Base64Encode rest = body @ replicate (pad_length (length rest)) CHR ''=''"
    "CHR ''='' \<notin> set body"
    using "4.IH" by blast
  have "Suc (Suc (Suc (length rest))) mod 3 = length rest mod 3" by presburger
  then have "pad_length (length (a # b # c # rest)) = pad_length (length rest)"
    by (simp add: pad_length_def)
  with body show ?case
    by (intro exI [of _ "[sextet ?n 18, sextet ?n 12, sextet ?n 6, sextet ?n 0] @ body"])
       (simp add: Let_def)
qed (simp add: pad_length_def)

end
