(* ===== verification/Hash.thy ===== *)
theory Hash
  imports Encode
begin

text \<open>
  \<^verbatim>\<open>go/crypt/hash.go\<close> and \<^verbatim>\<open>go/crypt/kdf.go\<close>: password hashing and key derivation.  The primitives
  are arguments: \<open>IDKey\<close> for \<^verbatim>\<open>argon2.IDKey\<close>, whose \<open>None\<close> is its panic (it panics on zero passes
  and on zero lanes), \<open>rnd\<close> for \<^verbatim>\<open>rand.Read\<close> on a buffer of a given length, and those of bcrypt,
  scrypt and HKDF.  The result of a function that can panic is an option, \<open>None\<close> the panic.
\<close>

type_synonym argon2 =
  "bytes \<Rightarrow> bytes \<Rightarrow> 32 word \<Rightarrow> 32 word \<Rightarrow> 8 word \<Rightarrow> 32 word \<Rightarrow> bytes option"

type_synonym rand = "nat \<Rightarrow> bytes res"

definition argon2Memory :: "32 word" where "argon2Memory = 64 * 1024"
definition argon2Time :: "32 word" where "argon2Time = 3"
definition argon2Parallelism :: "8 word" where "argon2Parallelism = 4"
definition argon2KeyLen :: "32 word" where "argon2KeyLen = 32"
definition argon2SaltLen :: nat where "argon2SaltLen = 16"

text \<open>\<^verbatim>\<open>argon2.Version\<close> of \<^verbatim>\<open>golang.org/x/crypto/argon2\<close>, the 19 of the documented format.\<close>

definition argon2Version :: int where "argon2Version = 19"

definition DeriveKey :: "argon2 \<Rightarrow> bytes \<Rightarrow> bytes \<Rightarrow> 32 word \<Rightarrow> bytes option" where
  "DeriveKey IDKey passphrase salt keyLen =
     IDKey passphrase salt argon2Time argon2Memory argon2Parallelism keyLen"

definition DeriveKeyScrypt ::
  "(bytes \<Rightarrow> bytes \<Rightarrow> int \<Rightarrow> int \<Rightarrow> int \<Rightarrow> int \<Rightarrow> bytes res) \<Rightarrow> bytes \<Rightarrow> bytes \<Rightarrow> int \<Rightarrow> bytes res" where
  "DeriveKeyScrypt scryptKey passphrase salt keyLen =
     (case scryptKey passphrase salt 32768 8 1 keyLen of
        Inl e \<Rightarrow> Inl (E ''crypt.DeriveKeyScrypt'' ''failed to derive key'' (Some e))
      | Inr key \<Rightarrow> Inr key)"

text \<open>\<open>hkdfRead secret salt info n\<close> is \<^verbatim>\<open>io.ReadFull\<close> of \<open>n\<close> bytes; \<^verbatim>\<open>make\<close> panics below zero.\<close>

definition HKDF ::
  "(bytes \<Rightarrow> bytes \<Rightarrow> bytes \<Rightarrow> nat \<Rightarrow> bytes res) \<Rightarrow> bytes \<Rightarrow> bytes \<Rightarrow> bytes \<Rightarrow> int \<Rightarrow> bytes res option" where
  "HKDF hkdfRead secret salt info keyLen =
     (if keyLen < 0 then None
      else Some (case hkdfRead secret salt info (nat keyLen) of
        Inl e \<Rightarrow> Inl (E ''crypt.HKDF'' ''failed to derive key'' (Some e))
      | Inr key \<Rightarrow> Inr key))"

definition generateSalt :: "rand \<Rightarrow> nat \<Rightarrow> bytes res" where
  "generateSalt rnd n =
     (case rnd n of
        Inl e \<Rightarrow> Inl (E ''crypt.generateSalt'' ''failed to generate random salt'' (Some e))
      | Inr salt \<Rightarrow> Inr salt)"

section \<open>Unpadded base64\<close>

definition rawBase64Encode :: "bytes \<Rightarrow> string" where
  "rawBase64Encode src = TrimSuffix (TrimSuffix (Base64Encode src) ''='') ''=''"

definition padRawBase64 :: "string \<Rightarrow> string" where
  "padRawBase64 s =
     (if length s mod 4 = 0 then s
      else if length s mod 4 = 2 then s @ ''==''
      else if length s mod 4 = 3 then s @ ''=''
      else s)"

definition rawBase64Decode :: "string \<Rightarrow> bytes res" where
  "rawBase64Decode s = Base64Decode (padRawBase64 s)"

lemma TrimSuffix_other: "c \<notin> set s \<Longrightarrow> TrimSuffix s [c] = s"
  by (auto simp: TrimSuffix_def HasSuffix_iff)

lemma pad_length_cases: "pad_length n = 0 \<or> pad_length n = 1 \<or> pad_length n = 2"
  unfolding pad_length_def by presburger

lemma raw_encode_body:
  assumes "Base64Encode src = body @ replicate (pad_length (length src)) CHR ''=''"
    and "CHR ''='' \<notin> set body"
  shows "rawBase64Encode src = body"
proof -
  have two: "body @ ''=='' = (body @ ''='') @ ''=''" by simp
  from pad_length_cases [of "length src"] show ?thesis
  proof (elim disjE)
    assume "pad_length (length src) = 0"
    with assms show ?thesis by (simp add: rawBase64Encode_def TrimSuffix_other)
  next
    assume "pad_length (length src) = 1"
    with assms show ?thesis by (simp add: rawBase64Encode_def TrimSuffix_other)
  next
    assume "pad_length (length src) = 2"
    then have "Base64Encode src = (body @ ''='') @ ''=''"
      using assms(1) by (simp add: numeral_2_eq_2)
    with assms(2) show ?thesis
      by (simp only: rawBase64Encode_def TrimSuffix_append TrimSuffix_other)
  qed
qed

lemma pad_raw_body:
  assumes "(4 :: nat) dvd length body + pad_length n"
  shows "padRawBase64 body = body @ replicate (pad_length n) CHR ''=''"
  using pad_length_cases [of n]
proof (elim disjE)
  assume p: "pad_length n = 0"
  with assms have "length body mod 4 = 0" by simp
  with p show ?thesis by (simp add: padRawBase64_def)
next
  assume p: "pad_length n = 1"
  with assms have "length body mod 4 = 3" by presburger
  with p show ?thesis by (simp add: padRawBase64_def)
next
  assume p: "pad_length n = 2"
  with assms have "length body mod 4 = 2" by presburger
  with p show ?thesis by (simp add: padRawBase64_def numeral_2_eq_2)
qed

lemma pad_raw_encode: "padRawBase64 (rawBase64Encode src) = Base64Encode src"
proof -
  obtain body where body: "Base64Encode src = body @ replicate (pad_length (length src)) CHR ''=''"
    "CHR ''='' \<notin> set body" using Base64Encode_body by blast
  have "length (Base64Encode src) = length body + pad_length (length src)"
    using body(1) by simp
  then have "(4 :: nat) dvd length body + pad_length (length src)"
    using length_Base64Encode [of src] by (metis dvd_triv_left)
  from pad_raw_body [OF this] show ?thesis using raw_encode_body [OF body] body(1) by simp
qed

lemma raw_decode_encode [simp]: "rawBase64Decode (rawBase64Encode src) = Inr src"
  by (simp add: rawBase64Decode_def pad_raw_encode decode_encode)

lemma raw_encode_no_dollar: "CHR ''$'' \<notin> set (rawBase64Encode src)"
proof -
  have "set (TrimSuffix s p) \<subseteq> set s" for s p :: string
    by (auto simp: TrimSuffix_def dest: in_set_takeD)
  then have "set (rawBase64Encode src) \<subseteq> set (Base64Encode src)"
    unfolding rawBase64Encode_def by blast
  with encoded_no_dollar show ?thesis by blast
qed

section \<open>Parsing the parameters\<close>

definition parseArgon2Version :: "string \<Rightarrow> int res" where
  "parseArgon2Version s =
     (if \<not> HasPrefix s ''v='' then Inl (E ''crypt.parseArgon2Version'' ''missing version prefix'' None)
      else Atoi (TrimPrefix s ''v=''))"

definition parseArgon2Uint32 :: "string \<Rightarrow> string \<Rightarrow> 32 word res" where
  "parseArgon2Uint32 s prefix =
     (if \<not> HasPrefix s prefix then Inl (E ''crypt.parseArgon2Uint32'' ''missing parameter prefix'' None)
      else case ParseUint (TrimPrefix s prefix) 32 of
        Inl e \<Rightarrow> Inl e
      | Inr value \<Rightarrow> Inr (word_of_nat value))"

definition parseArgon2Uint8 :: "string \<Rightarrow> string \<Rightarrow> 8 word res" where
  "parseArgon2Uint8 s prefix =
     (if \<not> HasPrefix s prefix then Inl (E ''crypt.parseArgon2Uint8'' ''missing parameter prefix'' None)
      else case ParseUint (TrimPrefix s prefix) 8 of
        Inl e \<Rightarrow> Inl e
      | Inr value \<Rightarrow> Inr (word_of_nat value))"

definition parseArgon2Params :: "string \<Rightarrow> (32 word \<times> 32 word \<times> 8 word) res" where
  "parseArgon2Params s =
     (case Split s CHR '','' of
        [p0, p1, p2] \<Rightarrow>
          (case parseArgon2Uint32 p0 ''m='' of Inl e \<Rightarrow> Inl e | Inr memory \<Rightarrow>
          (case parseArgon2Uint32 p1 ''t='' of Inl e \<Rightarrow> Inl e | Inr time \<Rightarrow>
          (case parseArgon2Uint8 p2 ''p='' of Inl e \<Rightarrow> Inl e | Inr parallelism \<Rightarrow>
             Inr (memory, time, parallelism))))
      | _ \<Rightarrow> Inl (E ''crypt.parseArgon2Params'' ''invalid parameter count'' None))"

text \<open>The older parsers, which the package keeps beside the ones above.\<close>

definition parsePrefixedInt :: "string \<Rightarrow> string \<Rightarrow> int res" where
  "parsePrefixedInt input prefix =
     (if \<not> HasPrefix input prefix then Inl (Ext (''missing '' @ Quote prefix @ '' prefix''))
      else case Atoi (TrimPrefix input prefix) of Inl e \<Rightarrow> Inl e | Inr value \<Rightarrow> Inr value)"

definition parsePrefixedUint32 :: "string \<Rightarrow> string \<Rightarrow> 32 word res" where
  "parsePrefixedUint32 input prefix =
     (if \<not> HasPrefix input prefix then Inl (Ext (''missing '' @ Quote prefix @ '' prefix''))
      else case ParseUint (TrimPrefix input prefix) 32 of
        Inl e \<Rightarrow> Inl e
      | Inr value \<Rightarrow> Inr (word_of_nat value))"

definition parseArgonParams :: "string \<Rightarrow> (32 word \<times> 32 word \<times> 8 word) res" where
  "parseArgonParams input =
     (case Split input CHR '','' of
        [f0, f1, f2] \<Rightarrow>
          (case parsePrefixedUint32 f0 ''m='' of Inl e \<Rightarrow> Inl e | Inr memory \<Rightarrow>
          (case parsePrefixedUint32 f1 ''t='' of Inl e \<Rightarrow> Inl e | Inr time \<Rightarrow>
          (case parsePrefixedUint32 f2 ''p='' of Inl e \<Rightarrow> Inl e | Inr parallelismValue \<Rightarrow>
             Inr (memory, time, ucast parallelismValue))))
      | _ \<Rightarrow> Inl (Ext ''invalid argon2 parameters''))"

section \<open>Hashing and verifying\<close>

definition HashPassword :: "argon2 \<Rightarrow> rand \<Rightarrow> string \<Rightarrow> string res option" where
  "HashPassword IDKey rnd password =
     (case generateSalt rnd argon2SaltLen of
        Inl e \<Rightarrow> Some (Inl (E ''crypt.HashPassword'' ''failed to generate salt'' (Some e)))
      | Inr salt \<Rightarrow>
          (case IDKey (bytes_of_string password) salt argon2Time argon2Memory argon2Parallelism
                  argon2KeyLen of
             None \<Rightarrow> None
           | Some hash \<Rightarrow>
               Some (Inr (''$argon2id$v='' @ itoa argon2Version @ ''$m='' @ itoa (uint argon2Memory) @
                 '',t='' @ itoa (uint argon2Time) @ '',p='' @ itoa (uint argon2Parallelism) @
                 ''$'' @ rawBase64Encode salt @ ''$'' @ rawBase64Encode hash))))"

text \<open>\<^verbatim>\<open>subtle.ConstantTimeCompare(x, y) == 1\<close>: equal lengths and equal contents.\<close>

definition ConstantTimeCompare :: "bytes \<Rightarrow> bytes \<Rightarrow> bool" where
  "ConstantTimeCompare x y \<longleftrightarrow> length x = length y \<and> list_all2 (=) x y"

definition VerifyPassword :: "argon2 \<Rightarrow> string \<Rightarrow> string \<Rightarrow> bool res option" where
  "VerifyPassword IDKey password hash =
     (case Split hash CHR ''$'' of
        [_, _, p2, p3, p4, p5] \<Rightarrow>
          (case parseArgon2Version p2 of
             Inl e \<Rightarrow> Some (Inl (E ''crypt.VerifyPassword'' ''failed to parse version'' (Some e)))
           | Inr version \<Rightarrow>
          if version \<noteq> argon2Version then
            Some (Inl (E ''crypt.VerifyPassword'' (''unsupported argon2 version '' @ itoa version) None))
          else
          (case parseArgon2Params p3 of
             Inl e \<Rightarrow> Some (Inl (E ''crypt.VerifyPassword'' ''failed to parse parameters'' (Some e)))
           | Inr (memory, time, parallelism) \<Rightarrow>
          (case rawBase64Decode p4 of
             Inl e \<Rightarrow> Some (Inl (E ''crypt.VerifyPassword'' ''failed to decode salt'' (Some e)))
           | Inr salt \<Rightarrow>
          (case rawBase64Decode p5 of
             Inl e \<Rightarrow> Some (Inl (E ''crypt.VerifyPassword'' ''failed to decode hash'' (Some e)))
           | Inr expectedHash \<Rightarrow>
          (case IDKey (bytes_of_string password) salt time memory parallelism
                  (word_of_nat (length expectedHash)) of
             None \<Rightarrow> None
           | Some computedHash \<Rightarrow>
               Some (Inr (ConstantTimeCompare computedHash expectedHash)))))))
      | _ \<Rightarrow> Some (Inl (E ''crypt.VerifyPassword'' ''invalid hash format'' None)))"

lemma ConstantTimeCompare_eq [simp]: "ConstantTimeCompare x y \<longleftrightarrow> x = y"
  by (auto simp: ConstantTimeCompare_def list.rel_eq)

section \<open>bcrypt\<close>

definition HashBcrypt :: "(bytes \<Rightarrow> int \<Rightarrow> bytes res) \<Rightarrow> string \<Rightarrow> int \<Rightarrow> string res" where
  "HashBcrypt generate password cost =
     (case generate (bytes_of_string password) cost of
        Inl e \<Rightarrow> Inl (E ''crypt.HashBcrypt'' ''failed to hash password'' (Some e))
      | Inr hash \<Rightarrow> Inr (string_of_bytes hash))"

text \<open>\<open>mismatch\<close> is the value \<^verbatim>\<open>bcrypt.ErrMismatchedHashAndPassword\<close>.\<close>

definition VerifyBcrypt ::
  "(bytes \<Rightarrow> bytes \<Rightarrow> err option) \<Rightarrow> err \<Rightarrow> string \<Rightarrow> string \<Rightarrow> bool res" where
  "VerifyBcrypt compare mismatch password hash =
     (case compare (bytes_of_string hash) (bytes_of_string password) of
        None \<Rightarrow> Inr True
      | Some e \<Rightarrow> if e = mismatch then Inr False
          else Inl (E ''crypt.VerifyBcrypt'' ''failed to verify password'' (Some e)))"

section \<open>What the hash string means\<close>

lemma encoded_header:
  "''$argon2id$v='' @ itoa argon2Version @ ''$m='' @ itoa (uint argon2Memory) @ '',t='' @
     itoa (uint argon2Time) @ '',p='' @ itoa (uint argon2Parallelism) @ ''$'' @ rest =
   ''$argon2id$v=19$m=65536,t=3,p=4$'' @ rest"
proof -
  have "itoa argon2Version = ''19''" "itoa (uint argon2Memory) = ''65536''"
    "itoa (uint argon2Time) = ''3''" "itoa (uint argon2Parallelism) = ''4''"
    by (simp_all add: itoa_def nat_to_dec.simps argon2Version_def argon2Memory_def argon2Time_def
      argon2Parallelism_def)
  then show ?thesis by simp
qed

lemmas parse_eval = parseArgon2Version_def parseArgon2Params_def parseArgonParams_def
  parseArgon2Uint32_def parseArgon2Uint8_def parsePrefixedUint32_def ParseUint_def Atoi_def
  TrimPrefix_def digit_val_def

lemma default_parameters:
  "parseArgon2Version ''v=19'' = Inr argon2Version"
  "parseArgon2Params ''m=65536,t=3,p=4'' = Inr (argon2Memory, argon2Time, argon2Parallelism)"
  by (simp_all add: parse_eval argon2Version_def argon2Memory_def argon2Time_def
    argon2Parallelism_def)

lemma Split_encoded:
  assumes "CHR ''$'' \<notin> set a" and "CHR ''$'' \<notin> set b"
  shows "Split (''$argon2id$v=19$m=65536,t=3,p=4$'' @ a @ ''$'' @ b) CHR ''$'' =
     ['''', ''argon2id'', ''v=19'', ''m=65536,t=3,p=4'', a, b]"
  using assms by (simp add: Split_append_sep Split_no_sep)

lemma verify_encoded:
  assumes "CHR ''$'' \<notin> set a" and "CHR ''$'' \<notin> set b"
    and "rawBase64Decode a = Inr salt" and "rawBase64Decode b = Inr h"
  shows "VerifyPassword IDKey q (''$argon2id$v=19$m=65536,t=3,p=4$'' @ a @ ''$'' @ b) =
     map_option (\<lambda>k. Inr (k = h))
       (IDKey (bytes_of_string q) salt argon2Time argon2Memory argon2Parallelism
          (word_of_nat (length h)))"
  unfolding VerifyPassword_def Split_encoded [OF assms(1,2)]
  using assms(3,4) by (simp add: default_parameters split: option.splits)

text \<open>The documented length of a derived key.\<close>

definition kdf_sound :: "argon2 \<Rightarrow> bool" where
  "kdf_sound IDKey \<longleftrightarrow>
     (\<forall>pw salt time memory lanes len k. IDKey pw salt time memory lanes len = Some k \<longrightarrow>
        length k = unat len)"

lemma HashPassword_Inr:
  assumes "HashPassword IDKey rnd password = Some (Inr encoded)"
  shows "\<exists>salt h. rnd argon2SaltLen = Inr salt \<and>
    DeriveKey IDKey (bytes_of_string password) salt argon2KeyLen = Some h \<and>
    encoded = ''$argon2id$v=19$m=65536,t=3,p=4$'' @ rawBase64Encode salt @ ''$'' @ rawBase64Encode h"
  using assms unfolding HashPassword_def encoded_header
  by (auto simp: generateSalt_def DeriveKey_def split: sum.splits option.splits)

lemma HashPassword_prefix:
  "HashPassword IDKey rnd password = Some (Inr encoded) \<Longrightarrow> HasPrefix encoded ''$argon2id$''"
  by (auto dest!: HashPassword_Inr)

lemma HashPassword_verifies:
  assumes "kdf_sound IDKey" and "HashPassword IDKey rnd password = Some (Inr encoded)"
  shows "\<exists>salt h. rnd argon2SaltLen = Inr salt \<and>
    DeriveKey IDKey (bytes_of_string password) salt argon2KeyLen = Some h \<and>
    (\<forall>q. VerifyPassword IDKey q encoded =
       map_option (\<lambda>k. Inr (k = h)) (DeriveKey IDKey (bytes_of_string q) salt argon2KeyLen))"
proof -
  obtain salt h where h: "rnd argon2SaltLen = Inr salt"
      "DeriveKey IDKey (bytes_of_string password) salt argon2KeyLen = Some h"
      "encoded = ''$argon2id$v=19$m=65536,t=3,p=4$'' @ rawBase64Encode salt @ ''$'' @ rawBase64Encode h"
    using HashPassword_Inr [OF assms(2)] by blast
  have len: "word_of_nat (length h) = argon2KeyLen"
    using assms(1) h(2) by (auto simp: kdf_sound_def DeriveKey_def)
  have "VerifyPassword IDKey q encoded =
      map_option (\<lambda>k. Inr (k = h)) (DeriveKey IDKey (bytes_of_string q) salt argon2KeyLen)" for q
    unfolding h(3) DeriveKey_def len [symmetric]
    by (rule verify_encoded) (simp_all add: raw_encode_no_dollar)
  with h show ?thesis by blast
qed

lemma HashPassword_total:
  assumes "rnd argon2SaltLen = Inr salt"
    and "DeriveKey IDKey (bytes_of_string password) salt argon2KeyLen = Some h"
  shows "\<exists>encoded. HashPassword IDKey rnd password = Some (Inr encoded)"
  using assms by (simp add: HashPassword_def generateSalt_def DeriveKey_def)

text \<open>
  C32.  HashPassword returns a string whenever a salt can be drawn and the key derivation does not
  panic, and what it returns verifies: VerifyPassword answers, for every candidate password,
  whether its key under the same salt and parameters is the stored one; the password is accepted.
\<close>

theorem hashed_password_verifies:
  assumes "kdf_sound IDKey" and "rnd argon2SaltLen = Inr salt"
    and "DeriveKey IDKey (bytes_of_string password) salt argon2KeyLen = Some h"
  shows "\<exists>encoded. HashPassword IDKey rnd password = Some (Inr encoded) \<and>
     VerifyPassword IDKey password encoded = Some (Inr True) \<and>
     (\<forall>q. VerifyPassword IDKey q encoded =
        map_option (\<lambda>k. Inr (k = h)) (DeriveKey IDKey (bytes_of_string q) salt argon2KeyLen))"
proof -
  obtain encoded where e: "HashPassword IDKey rnd password = Some (Inr encoded)"
    using HashPassword_total [of rnd salt IDKey password h] assms(2,3) by blast
  with HashPassword_verifies [OF assms(1) e] assms(2,3) show ?thesis by auto
qed

text \<open>A key derivation that pads or cuts the password to the length asked for.\<close>

definition plain_kdf :: argon2 where
  "plain_kdf pw salt time memory lanes len =
     (if time = 0 \<or> lanes = 0 then None
      else Some (take (unat len) (pw @ salt @ replicate (unat len) 0)))"

lemma plain_kdf_sound: "kdf_sound plain_kdf"
  by (auto simp: kdf_sound_def plain_kdf_def min_def split: if_splits)

lemma plain_key_exists: "\<exists>h. DeriveKey plain_kdf pw salt argon2KeyLen = Some h"
  by (simp add: DeriveKey_def plain_kdf_def argon2Time_def argon2Parallelism_def)

theorem hashed_password_verifies_witness:
  "\<exists>encoded. HashPassword plain_kdf (\<lambda>n. Inr (replicate n 7)) ''secret'' = Some (Inr encoded) \<and>
     VerifyPassword plain_kdf ''secret'' encoded = Some (Inr True)"
proof -
  obtain h where "DeriveKey plain_kdf (bytes_of_string ''secret'') (replicate argon2SaltLen 7) argon2KeyLen =
      Some h" using plain_key_exists by blast
  then show ?thesis
    using hashed_password_verifies [OF plain_kdf_sound, of "\<lambda>n. Inr (replicate n 7)"
      "replicate argon2SaltLen 7" "''secret''" h] by blast
qed

text \<open>Any parameters, as they are printed in a stored string.\<close>

definition stored_hash :: "32 word \<Rightarrow> 32 word \<Rightarrow> 8 word \<Rightarrow> bytes \<Rightarrow> bytes \<Rightarrow> string" where
  "stored_hash memory time lanes salt key =
     ''$argon2id$v=19$m='' @ itoa (uint memory) @ '',t='' @ itoa (uint time) @ '',p='' @ itoa (uint lanes) @
     ''$'' @ rawBase64Encode salt @ ''$'' @ rawBase64Encode key"

lemma itoa_uint: "itoa (uint w) = nat_to_dec (unat w)"
  by (simp add: itoa_nonneg)

lemma itoa_uint_no_sep: "digit_val c = None \<Longrightarrow> c \<notin> set (itoa (uint w))"
  by (simp add: itoa_uint nat_to_dec_no_sep)

lemma printed_parameters:
  "parseArgon2Params (''m='' @ itoa (uint m) @ '',t='' @ itoa (uint t) @ '',p='' @ itoa (uint p)) = Inr (m, t, p)"
proof -
  have c: "CHR '','' \<notin> set (''m='' @ itoa (uint m))" "CHR '','' \<notin> set (''t='' @ itoa (uint t))"
    "CHR '','' \<notin> set (''p='' @ itoa (uint p))"
    using itoa_uint_no_sep [of "CHR '',''" m] itoa_uint_no_sep [of "CHR '',''" t] itoa_uint_no_sep [of "CHR '',''" p]
    by (simp_all add: digit_val_def)
  have "Split (''m='' @ itoa (uint m) @ '',t='' @ itoa (uint t) @ '',p='' @ itoa (uint p)) CHR '','' =
      [''m='' @ itoa (uint m), ''t='' @ itoa (uint t), ''p='' @ itoa (uint p)]"
    using Split_append_sep [OF c(1), of "''t='' @ itoa (uint t) @ '',p='' @ itoa (uint p)"]
      Split_append_sep [OF c(2), of "''p='' @ itoa (uint p)"] Split_no_sep [OF c(3)] by (simp del: Split.simps)
  moreover have "parseArgon2Uint32 (''m='' @ itoa (uint m)) ''m='' = Inr m"
    "parseArgon2Uint32 (''t='' @ itoa (uint t)) ''t='' = Inr t" "parseArgon2Uint8 (''p='' @ itoa (uint p)) ''p='' = Inr p"
    using unsigned_less [of m, where 'a = nat] unsigned_less [of t, where 'a = nat] unsigned_less [of p, where 'a = nat]
    by (simp_all add: parseArgon2Uint32_def parseArgon2Uint8_def TrimPrefix_def itoa_uint)
  ultimately show ?thesis by (simp add: parseArgon2Params_def)
qed

lemma verify_stored:
  "VerifyPassword IDKey password (stored_hash m t p salt key) =
     map_option (\<lambda>k. Inr (k = key)) (IDKey (bytes_of_string password) salt t m p (word_of_nat (length key)))"
proof -
  let ?ps = "''m='' @ itoa (uint m) @ '',t='' @ itoa (uint t) @ '',p='' @ itoa (uint p)"
  have "CHR ''$'' \<notin> set ?ps"
    using itoa_uint_no_sep [of "CHR ''$''" m] itoa_uint_no_sep [of "CHR ''$''" t] itoa_uint_no_sep [of "CHR ''$''" p]
    by (simp add: digit_val_def)
  then have "Split (stored_hash m t p salt key) CHR ''$'' =
      ['''', ''argon2id'', ''v=19'', ?ps, rawBase64Encode salt, rawBase64Encode key]"
    using Split_append_sep [of "CHR ''$''" ?ps] raw_encode_no_dollar
    by (simp add: stored_hash_def Split_append_sep Split_no_sep)
  then show ?thesis
    using printed_parameters [of m t p] by (simp add: VerifyPassword_def default_parameters split: option.split)
qed

text \<open>
  C39.  VerifyPassword takes the parameters of a stored string as they are, whatever they are: it derives
  the key with them and compares it with the stored one.  Nothing checks them before, so for every salt,
  key and password a stored string with no passes or no lanes makes VerifyPassword panic instead of
  returning an error, the key derivation being documented to panic on these.
\<close>

theorem verify_trusts_stored_parameters:
  assumes "\<And>pw salt time memory lanes len. time = 0 \<or> lanes = 0 \<Longrightarrow> IDKey pw salt time memory lanes len = None"
  shows "VerifyPassword IDKey password (stored_hash m t p salt key) =
    (if t = 0 \<or> p = 0 then None
     else map_option (\<lambda>k. Inr (k = key)) (IDKey (bytes_of_string password) salt t m p (word_of_nat (length key))))"
  using assms by (simp add: verify_stored)

theorem verify_trusts_stored_parameters_witness:
  "VerifyPassword plain_kdf ''x'' (stored_hash 65536 0 4 [1, 2] [3]) = None"
  by (subst verify_trusts_stored_parameters) (auto simp: plain_kdf_def)

lemma prefixed_iff:
  "parseArgon2Uint32 s p = Inr w \<longleftrightarrow> parsePrefixedUint32 s p = Inr w"
  by (simp add: parseArgon2Uint32_def parsePrefixedUint32_def split: sum.splits)

lemma params_iff:
  "parseArgon2Params s = Inr (m, t, p) \<longleftrightarrow>
     (\<exists>f0 f1 f2. Split s CHR '','' = [f0, f1, f2] \<and> parseArgon2Uint32 f0 ''m='' = Inr m \<and>
        parseArgon2Uint32 f1 ''t='' = Inr t \<and> parseArgon2Uint8 f2 ''p='' = Inr p)"
  unfolding parseArgon2Params_def by (auto split: list.splits sum.splits)

lemma legacy_params_iff:
  "parseArgonParams s = Inr (m, t, p) \<longleftrightarrow>
     (\<exists>f0 f1 f2 v. Split s CHR '','' = [f0, f1, f2] \<and> parsePrefixedUint32 f0 ''m='' = Inr m \<and>
        parsePrefixedUint32 f1 ''t='' = Inr t \<and> parsePrefixedUint32 f2 ''p='' = Inr v \<and> p = ucast v)"
  unfolding parseArgonParams_def by (auto split: list.splits sum.splits)

lemma ParseUint_bits:
  "ParseUint s 8 = Inr n \<longleftrightarrow> ParseUint s 32 = Inr n \<and> n < 256"
  by (auto simp: ParseUint_def split: option.splits if_splits)

lemma ParseUint_bound: "ParseUint s bits = Inr n \<Longrightarrow> n < 2 ^ bits"
  by (auto simp: ParseUint_def split: option.splits if_splits)

lemma ucast_of_parsed: "n < 256 \<Longrightarrow> ucast (word_of_nat n :: 32 word) = (word_of_nat n :: 8 word)"
  by (simp add: unsigned_of_nat take_bit_nat_eq_self)

lemma prefixed_8_iff:
  "parseArgon2Uint8 s p = Inr w \<longleftrightarrow>
     (\<exists>v. parsePrefixedUint32 s p = Inr v \<and> v < 256 \<and> w = ucast v)"
proof (cases "ParseUint (TrimPrefix s p) 32")
  case (Inl e)
  then have "ParseUint (TrimPrefix s p) 8 \<noteq> Inr n" for n by (simp add: ParseUint_bits)
  with Inl show ?thesis
    by (auto simp: parseArgon2Uint8_def parsePrefixedUint32_def split: sum.splits)
next
  case (Inr n)
  then have n: "unat (word_of_nat n :: 32 word) = n"
    using ParseUint_bound [OF Inr] by (simp add: unat_of_nat take_bit_nat_eq_self)
  show ?thesis
  proof (cases "n < 256")
    case True
    with Inr have "ParseUint (TrimPrefix s p) 8 = Inr n" by (simp add: ParseUint_bits)
    with Inr True n show ?thesis
      by (auto simp: parseArgon2Uint8_def parsePrefixedUint32_def ucast_of_parsed word_less_nat_alt)
  next
    case False
    with Inr have "ParseUint (TrimPrefix s p) 8 \<noteq> Inr m" for m by (auto simp: ParseUint_bits)
    with Inr False n show ?thesis
      by (auto simp: parseArgon2Uint8_def parsePrefixedUint32_def word_less_nat_alt split: sum.splits)
  qed
qed

text \<open>
  The current parameter parser accepts exactly what the older one accepts with fewer than 256
  lanes, and then both return the same parameters.  The older one takes any 32-bit number of lanes
  and keeps its low eight bits: it reads \<^verbatim>\<open>p=260\<close> as four lanes, where the current one fails.
\<close>

theorem parameter_parsers_agree:
  "parseArgon2Params s = Inr (m, t, p) \<longleftrightarrow>
     parseArgonParams s = Inr (m, t, p) \<and>
     (\<forall>v. parsePrefixedUint32 (Split s CHR '','' ! 2) ''p='' = Inr v \<longrightarrow> v < 256)"
  unfolding params_iff legacy_params_iff by (auto simp: prefixed_iff prefixed_8_iff)

theorem parameter_parsers_agree_witness:
  "parseArgonParams ''m=65536,t=3,p=4'' = Inr (65536, 3, 4) \<and>
   parseArgonParams ''m=1,t=1,p=260'' = Inr (1, 1, 4)"
proof -
  have "parseArgon2Params ''m=65536,t=3,p=4'' = Inr (65536, 3, 4)" by (simp add: parse_eval)
  moreover have "parseArgonParams ''m=1,t=1,p=260'' = Inr (1, 1, 4)" by (simp add: parse_eval)
  ultimately show ?thesis
    using parameter_parsers_agree [of "''m=65536,t=3,p=4''" 65536 3 4] by blast
qed

lemma bcrypt_verifies:
  assumes "generate (bytes_of_string password) cost = Inr h"
    and "compare (bytes_of_string (string_of_bytes h)) (bytes_of_string password) = None"
  shows "\<exists>hash. HashBcrypt generate password cost = Inr hash \<and>
     VerifyBcrypt compare mismatch password hash = Inr True"
  using assms by (simp add: HashBcrypt_def VerifyBcrypt_def)

end
