(* ===== verification/Symmetric.thy ===== *)
theory Symmetric
  imports Hash
begin

text \<open>
  \<^verbatim>\<open>go/crypt/symmetric.go\<close>, \<^verbatim>\<open>go/crypt/crypt.go\<close>, \<^verbatim>\<open>go/crypt/chachapoly/chachapoly.go\<close>,
  \<^verbatim>\<open>go/crypt/hmac.go\<close>, \<^verbatim>\<open>go/crypt/checksum.go\<close> and \<^verbatim>\<open>go/crypt/lthn/lthn.go\<close>.  The ciphers and
  digests are arguments.  The locale \<open>cipher\<close> is what the passphrase layer relies on, and is
  interpreted on the AES-GCM and the ChaCha20 functions of the package.
\<close>

section \<open>AES-256-GCM\<close>

text \<open>\<^verbatim>\<open>crypto/aes\<close> and \<^verbatim>\<open>crypto/cipher\<close>: \<open>'b\<close> is \<^verbatim>\<open>cipher.Block\<close> and \<open>'a\<close> is \<^verbatim>\<open>cipher.AEAD\<close>.\<close>

record ('b, 'a) aes_lib =
  NewCipher :: "bytes \<Rightarrow> 'b res"
  NewGCM :: "'b \<Rightarrow> 'a res"
  NonceSize :: "'a \<Rightarrow> nat"
  Seal :: "'a \<Rightarrow> bytes \<Rightarrow> bytes \<Rightarrow> bytes"
  Open :: "'a \<Rightarrow> bytes \<Rightarrow> bytes \<Rightarrow> bytes res"

text \<open>\<^verbatim>\<open>aead.Seal(nonce, nonce, plaintext, nil)\<close> appends the sealed text to the nonce.\<close>

definition AESGCMEncrypt :: "('b, 'a) aes_lib \<Rightarrow> rand \<Rightarrow> bytes \<Rightarrow> bytes \<Rightarrow> bytes res" where
  "AESGCMEncrypt lib rnd plaintext key =
     (case NewCipher lib key of
        Inl e \<Rightarrow> Inl (E ''crypt.AESGCMEncrypt'' ''failed to create cipher'' (Some e))
      | Inr block \<Rightarrow>
     (case NewGCM lib block of
        Inl e \<Rightarrow> Inl (E ''crypt.AESGCMEncrypt'' ''failed to create GCM'' (Some e))
      | Inr aead \<Rightarrow>
     (case rnd (NonceSize lib aead) of
        Inl e \<Rightarrow> Inl (E ''crypt.AESGCMEncrypt'' ''failed to generate nonce'' (Some e))
      | Inr nonce \<Rightarrow> Inr (nonce @ Seal lib aead nonce plaintext))))"

definition AESGCMDecrypt :: "('b, 'a) aes_lib \<Rightarrow> bytes \<Rightarrow> bytes \<Rightarrow> bytes res" where
  "AESGCMDecrypt lib ciphertext key =
     (case NewCipher lib key of
        Inl e \<Rightarrow> Inl (E ''crypt.AESGCMDecrypt'' ''failed to create cipher'' (Some e))
      | Inr block \<Rightarrow>
     (case NewGCM lib block of
        Inl e \<Rightarrow> Inl (E ''crypt.AESGCMDecrypt'' ''failed to create GCM'' (Some e))
      | Inr aead \<Rightarrow>
          (let nonceSize = NonceSize lib aead in
           if length ciphertext < nonceSize
           then Inl (E ''crypt.AESGCMDecrypt'' ''ciphertext too short'' None)
           else case Open lib aead (take nonceSize ciphertext) (drop nonceSize ciphertext) of
             Inl e \<Rightarrow> Inl (E ''crypt.AESGCMDecrypt'' ''failed to decrypt'' (Some e))
           | Inr plaintext \<Rightarrow> Inr plaintext)))"

section \<open>ChaCha20-Poly1305\<close>

text \<open>
  The library's own functions: \<open>cc_encrypt\<close> draws its nonce from the randomness \<open>'r\<close> it is given.
\<close>

record 'r chacha_lib =
  cc_encrypt :: "'r \<Rightarrow> bytes \<Rightarrow> bytes \<Rightarrow> bytes res"
  cc_decrypt :: "bytes \<Rightarrow> bytes \<Rightarrow> bytes res"

definition ChaCha20Encrypt :: "'r chacha_lib \<Rightarrow> 'r \<Rightarrow> bytes \<Rightarrow> bytes \<Rightarrow> bytes res" where
  "ChaCha20Encrypt lib r plaintext key = cc_encrypt lib r plaintext key"

definition ChaCha20Decrypt :: "'r chacha_lib \<Rightarrow> bytes \<Rightarrow> bytes \<Rightarrow> bytes res" where
  "ChaCha20Decrypt lib ciphertext key = cc_decrypt lib ciphertext key"

definition chachapoly_Encrypt :: "'r chacha_lib \<Rightarrow> 'r \<Rightarrow> bytes \<Rightarrow> bytes \<Rightarrow> bytes res" where
  "chachapoly_Encrypt lib r plaintext key = cc_encrypt lib r plaintext key"

definition chachapoly_Decrypt :: "'r chacha_lib \<Rightarrow> bytes \<Rightarrow> bytes \<Rightarrow> bytes res" where
  "chachapoly_Decrypt lib ciphertext key = cc_decrypt lib ciphertext key"

section \<open>Passphrases\<close>

definition Encrypt ::
  "argon2 \<Rightarrow> 'r chacha_lib \<Rightarrow> rand \<Rightarrow> 'r \<Rightarrow> bytes \<Rightarrow> bytes \<Rightarrow> bytes res option" where
  "Encrypt IDKey lib rnd r plaintext passphrase =
     (case generateSalt rnd argon2SaltLen of
        Inl e \<Rightarrow> Some (Inl (E ''crypt.Encrypt'' ''failed to generate salt'' (Some e)))
      | Inr salt \<Rightarrow>
     (case DeriveKey IDKey passphrase salt argon2KeyLen of
        None \<Rightarrow> None
      | Some key \<Rightarrow>
     (case ChaCha20Encrypt lib r plaintext key of
        Inl e \<Rightarrow> Some (Inl (E ''crypt.Encrypt'' ''failed to encrypt'' (Some e)))
      | Inr encrypted \<Rightarrow> Some (Inr (salt @ encrypted)))))"

definition Decrypt :: "argon2 \<Rightarrow> 'r chacha_lib \<Rightarrow> bytes \<Rightarrow> bytes \<Rightarrow> bytes res option" where
  "Decrypt IDKey lib ciphertext passphrase =
     (if length ciphertext < argon2SaltLen
      then Some (Inl (E ''crypt.Decrypt'' ''ciphertext too short'' None))
      else
        (case DeriveKey IDKey passphrase (take argon2SaltLen ciphertext) argon2KeyLen of
           None \<Rightarrow> None
         | Some key \<Rightarrow>
        (case ChaCha20Decrypt lib (drop argon2SaltLen ciphertext) key of
           Inl e \<Rightarrow> Some (Inl (E ''crypt.Decrypt'' ''failed to decrypt'' (Some e)))
         | Inr plaintext \<Rightarrow> Some (Inr plaintext))))"

definition EncryptAES ::
  "argon2 \<Rightarrow> ('b, 'a) aes_lib \<Rightarrow> rand \<Rightarrow> rand \<Rightarrow> bytes \<Rightarrow> bytes \<Rightarrow> bytes res option" where
  "EncryptAES IDKey lib rnd r plaintext passphrase =
     (case generateSalt rnd argon2SaltLen of
        Inl e \<Rightarrow> Some (Inl (E ''crypt.EncryptAES'' ''failed to generate salt'' (Some e)))
      | Inr salt \<Rightarrow>
     (case DeriveKey IDKey passphrase salt argon2KeyLen of
        None \<Rightarrow> None
      | Some key \<Rightarrow>
     (case AESGCMEncrypt lib r plaintext key of
        Inl e \<Rightarrow> Some (Inl (E ''crypt.EncryptAES'' ''failed to encrypt'' (Some e)))
      | Inr encrypted \<Rightarrow> Some (Inr (salt @ encrypted)))))"

definition DecryptAES :: "argon2 \<Rightarrow> ('b, 'a) aes_lib \<Rightarrow> bytes \<Rightarrow> bytes \<Rightarrow> bytes res option" where
  "DecryptAES IDKey lib ciphertext passphrase =
     (if length ciphertext < argon2SaltLen
      then Some (Inl (E ''crypt.DecryptAES'' ''ciphertext too short'' None))
      else
        (case DeriveKey IDKey passphrase (take argon2SaltLen ciphertext) argon2KeyLen of
           None \<Rightarrow> None
         | Some key \<Rightarrow>
        (case AESGCMDecrypt lib (drop argon2SaltLen ciphertext) key of
           Inl e \<Rightarrow> Some (Inl (E ''crypt.DecryptAES'' ''failed to decrypt'' (Some e)))
         | Inr plaintext \<Rightarrow> Some (Inr plaintext))))"

section \<open>The contract of a cipher\<close>

text \<open>
  \<open>sound lib rs\<close>: the primitives behave as documented under the randomness \<open>rs\<close>.  What the
  passphrase layer needs of a cipher is that decryption inverts encryption under the same key.
\<close>

locale cipher =
  fixes enc :: "'l \<Rightarrow> 'r \<Rightarrow> bytes \<Rightarrow> bytes \<Rightarrow> bytes res"
    and dec :: "'l \<Rightarrow> bytes \<Rightarrow> bytes \<Rightarrow> bytes res"
    and sound :: "'l \<Rightarrow> 'r \<Rightarrow> bool"
  assumes dec_enc: "sound l r \<Longrightarrow> enc l r p k = Inr c \<Longrightarrow> dec l c k = Inr p"
begin

text \<open>A salt put in front of the ciphertext is found again, and the rest decrypts.\<close>

lemma salted:
  assumes "sound l r" and "enc l r p k = Inr c" and "length salt = n"
  shows "\<not> length (salt @ c) < n \<and> take n (salt @ c) = salt \<and> dec l (drop n (salt @ c)) k = Inr p"
  using assms dec_enc by simp

lemma encryption_injective:
  "sound l r \<Longrightarrow> enc l r p k = Inr c \<Longrightarrow> sound l r' \<Longrightarrow> enc l r' q k = Inr c \<Longrightarrow> p = q"
  using dec_enc [of l r p k c] dec_enc [of l r' q k c] by simp

end

definition rand_sound :: "rand \<Rightarrow> bool" where
  "rand_sound rnd \<longleftrightarrow> (\<forall>n bs. rnd n = Inr bs \<longrightarrow> length bs = n)"

text \<open>\<^verbatim>\<open>cipher.AEAD\<close>: opening a sealed text under the same nonce, of the right size, gives it back.\<close>

definition aes_sound :: "('b, 'a) aes_lib \<Rightarrow> rand \<Rightarrow> bool" where
  "aes_sound lib rnd \<longleftrightarrow> rand_sound rnd \<and>
     (\<forall>aead nonce p. length nonce = NonceSize lib aead \<longrightarrow>
        Open lib aead nonce (Seal lib aead nonce p) = Inr p)"

definition chacha_sound :: "'r chacha_lib \<Rightarrow> 'r \<Rightarrow> bool" where
  "chacha_sound lib r \<longleftrightarrow>
     (\<forall>p k c. cc_encrypt lib r p k = Inr c \<longrightarrow> cc_decrypt lib c k = Inr p)"

lemma rand_soundD: "rand_sound rnd \<Longrightarrow> rnd n = Inr bs \<Longrightarrow> length bs = n"
  by (simp add: rand_sound_def)

lemma generateSalt_length: "rand_sound rnd \<Longrightarrow> generateSalt rnd n = Inr salt \<Longrightarrow> length salt = n"
  by (auto simp: generateSalt_def rand_sound_def split: sum.splits)

lemma aes_dec_enc:
  assumes "aes_sound lib r" and "AESGCMEncrypt lib r p k = Inr c"
  shows "AESGCMDecrypt lib c k = Inr p"
proof -
  obtain block aead nonce where lib: "NewCipher lib k = Inr block" "NewGCM lib block = Inr aead"
      "r (NonceSize lib aead) = Inr nonce" and c: "c = nonce @ Seal lib aead nonce p"
    using assms(2) by (auto simp: AESGCMEncrypt_def split: sum.splits)
  have "length nonce = NonceSize lib aead"
    using assms(1) lib(3) by (auto simp: aes_sound_def rand_sound_def)
  with assms(1) lib c show ?thesis by (simp add: AESGCMDecrypt_def aes_sound_def)
qed

interpretation aes: cipher AESGCMEncrypt AESGCMDecrypt aes_sound
  by unfold_locales (rule aes_dec_enc)

interpretation chacha: cipher ChaCha20Encrypt ChaCha20Decrypt chacha_sound
  by unfold_locales (simp add: ChaCha20Encrypt_def ChaCha20Decrypt_def chacha_sound_def)

section \<open>Round trips\<close>

lemma Encrypt_iff:
  "Encrypt IDKey lib rnd r p pw = Some (Inr c) \<longleftrightarrow>
     (\<exists>salt key encrypted. generateSalt rnd argon2SaltLen = Inr salt \<and>
        DeriveKey IDKey pw salt argon2KeyLen = Some key \<and>
        ChaCha20Encrypt lib r p key = Inr encrypted \<and> c = salt @ encrypted)"
  unfolding Encrypt_def by (auto split: sum.splits option.splits)

lemma EncryptAES_iff:
  "EncryptAES IDKey lib rnd r p pw = Some (Inr c) \<longleftrightarrow>
     (\<exists>salt key encrypted. generateSalt rnd argon2SaltLen = Inr salt \<and>
        DeriveKey IDKey pw salt argon2KeyLen = Some key \<and>
        AESGCMEncrypt lib r p key = Inr encrypted \<and> c = salt @ encrypted)"
  unfolding EncryptAES_def by (auto split: sum.splits option.splits)

lemma Decrypt_Encrypt:
  assumes "chacha_sound lib r" and "rand_sound rnd" and "Encrypt IDKey lib rnd r p pw = Some (Inr c)"
  shows "Decrypt IDKey lib c pw = Some (Inr p)"
proof -
  obtain salt key encrypted where s: "generateSalt rnd argon2SaltLen = Inr salt"
      and k: "DeriveKey IDKey pw salt argon2KeyLen = Some key"
      and e: "ChaCha20Encrypt lib r p key = Inr encrypted" and c: "c = salt @ encrypted"
    using assms(3) unfolding Encrypt_iff by blast
  from chacha.salted [OF assms(1) e generateSalt_length [OF assms(2) s]] k c
  show ?thesis unfolding Decrypt_def by auto
qed

text \<open>
  C38.  What Encrypt returns, Decrypt opens under the same passphrase: the plaintext comes back,
  whatever the key derivation is, and the output is the 16-byte salt followed by the cipher's own
  output under the key derived from that salt.
\<close>

theorem encrypt_decrypt_roundtrip:
  assumes "chacha_sound lib r" and "rand_sound rnd"
    and "Encrypt IDKey lib rnd r plaintext passphrase = Some (Inr c)"
  shows "Decrypt IDKey lib c passphrase = Some (Inr plaintext) \<and>
     (\<exists>salt key encrypted. length salt = argon2SaltLen \<and> c = salt @ encrypted \<and>
        DeriveKey IDKey passphrase salt argon2KeyLen = Some key \<and>
        ChaCha20Encrypt lib r plaintext key = Inr encrypted)"
proof -
  obtain salt key encrypted where "generateSalt rnd argon2SaltLen = Inr salt"
      "DeriveKey IDKey passphrase salt argon2KeyLen = Some key"
      "ChaCha20Encrypt lib r plaintext key = Inr encrypted" "c = salt @ encrypted"
    using assms(3) unfolding Encrypt_iff by blast
  with generateSalt_length [OF assms(2)] Decrypt_Encrypt [OF assms] show ?thesis by blast
qed

text \<open>
  What EncryptAES returns, DecryptAES opens under the same passphrase, and the output is the
  salt, the nonce and the sealed text in that order.
\<close>

theorem aes_encrypt_decrypt_roundtrip:
  assumes "aes_sound lib r" and "rand_sound rnd"
    and "EncryptAES IDKey lib rnd r plaintext passphrase = Some (Inr c)"
  shows "DecryptAES IDKey lib c passphrase = Some (Inr plaintext) \<and>
     (\<exists>salt key block aead nonce. c = salt @ nonce @ Seal lib aead nonce plaintext \<and>
        length salt = argon2SaltLen \<and> length nonce = NonceSize lib aead \<and>
        DeriveKey IDKey passphrase salt argon2KeyLen = Some key \<and>
        NewCipher lib key = Inr block \<and> NewGCM lib block = Inr aead)"
proof -
  obtain salt key encrypted where s: "generateSalt rnd argon2SaltLen = Inr salt"
      and k: "DeriveKey IDKey passphrase salt argon2KeyLen = Some key"
      and e: "AESGCMEncrypt lib r plaintext key = Inr encrypted" and c: "c = salt @ encrypted"
    using assms(3) unfolding EncryptAES_iff by blast
  note len = generateSalt_length [OF assms(2) s]
  have "DecryptAES IDKey lib c passphrase = Some (Inr plaintext)"
    using aes.salted [OF assms(1) e len] k c unfolding DecryptAES_def by auto
  moreover obtain block aead nonce where "NewCipher lib key = Inr block" "NewGCM lib block = Inr aead"
      "r (NonceSize lib aead) = Inr nonce" "encrypted = nonce @ Seal lib aead nonce plaintext"
    using e by (auto simp: AESGCMEncrypt_def split: sum.splits)
  moreover from this assms(1) have "length nonce = NonceSize lib aead"
    by (auto simp: aes_sound_def rand_sound_def)
  ultimately show ?thesis using k c len by blast
qed

text \<open>Concrete ciphers: the text is kept, the key and the nonce are recorded around it.\<close>

definition plain_chacha :: "bytes chacha_lib" where
  "plain_chacha =
     \<lparr>cc_encrypt = (\<lambda>r p k. Inr (k @ p)), cc_decrypt = (\<lambda>c k. if take (length k) c = k
        then Inr (drop (length k) c) else Inl (Ext ''message authentication failed''))\<rparr>"

definition plain_aes :: "(bytes, bytes) aes_lib" where
  "plain_aes =
     \<lparr>NewCipher = (\<lambda>k. if length k \<in> {16, 24, 32} then Inr k else Inl (Ext ''invalid key size'')),
      NewGCM = Inr, NonceSize = (\<lambda>_. 12), Seal = (\<lambda>k n p. rev p @ take 16 k),
      Open = (\<lambda>k n c. if drop (length c - 16) c = take 16 k \<and> 16 \<le> length c \<or> length k < 16
        then Inr (rev (take (length c - length (take 16 k)) c))
        else Inl (Ext ''cipher: message authentication failed''))\<rparr>"

lemma plain_ciphers_sound:
  "chacha_sound plain_chacha r" "rand_sound (\<lambda>n. Inr (replicate n 7))"
  "aes_sound plain_aes (\<lambda>n. Inr (replicate n 9))"
  by (auto simp: chacha_sound_def plain_chacha_def rand_sound_def aes_sound_def plain_aes_def)

lemma plain_key:
  "DeriveKey plain_kdf [1] (replicate 16 7) argon2KeyLen =
     Some ([1] @ replicate 16 7 @ replicate 15 0)"
  by (simp add: DeriveKey_def plain_kdf_def argon2Time_def argon2Parallelism_def argon2KeyLen_def)

theorem encrypt_decrypt_roundtrip_witness:
  "\<exists>c. Encrypt plain_kdf plain_chacha (\<lambda>n. Inr (replicate n 7)) [] [5, 6] [1] = Some (Inr c) \<and>
     Decrypt plain_kdf plain_chacha c [1] = Some (Inr [5, 6])"
proof -
  have "Encrypt plain_kdf plain_chacha (\<lambda>n. Inr (replicate n 7)) [] [5, 6] [1] =
      Some (Inr (replicate 16 7 @ [1] @ replicate 16 7 @ replicate 15 0 @ [5, 6]))"
    by (simp add: Encrypt_def generateSalt_def argon2SaltLen_def plain_key ChaCha20Encrypt_def
      plain_chacha_def)
  with encrypt_decrypt_roundtrip [OF plain_ciphers_sound(1,2) this] show ?thesis by blast
qed

theorem aes_encrypt_decrypt_roundtrip_witness:
  "\<exists>c. EncryptAES plain_kdf plain_aes (\<lambda>n. Inr (replicate n 7)) (\<lambda>n. Inr (replicate n 9)) [5, 6] [1] =
       Some (Inr c) \<and>
     DecryptAES plain_kdf plain_aes c [1] = Some (Inr [5, 6])"
proof -
  have "\<exists>c. EncryptAES plain_kdf plain_aes (\<lambda>n. Inr (replicate n 7)) (\<lambda>n. Inr (replicate n 9)) [5, 6] [1] =
      Some (Inr c)"
    by (simp add: EncryptAES_def generateSalt_def argon2SaltLen_def plain_key AESGCMEncrypt_def
      plain_aes_def)
  then show ?thesis using aes_encrypt_decrypt_roundtrip [OF plain_ciphers_sound(3,2)] by blast
qed

lemma decrypt_too_short:
  "length c < argon2SaltLen \<Longrightarrow>
     Decrypt IDKey lib c pw = Some (Inl (E ''crypt.Decrypt'' ''ciphertext too short'' None)) \<and>
     DecryptAES IDKey lib' c pw = Some (Inl (E ''crypt.DecryptAES'' ''ciphertext too short'' None))"
  by (simp add: Decrypt_def DecryptAES_def)

section \<open>Message authentication and digests\<close>

text \<open>\<open>hmac\<close> and \<open>digest\<close> stand for \<^verbatim>\<open>crypto/hmac\<close> and the hash sigil of Enchantrix.\<close>

datatype stdhash = SHA256 | SHA512

definition HMACSHA256 :: "(stdhash \<Rightarrow> bytes \<Rightarrow> bytes \<Rightarrow> bytes) \<Rightarrow> bytes \<Rightarrow> bytes \<Rightarrow> bytes" where
  "HMACSHA256 hmac message key = hmac SHA256 key message"

definition HMACSHA512 :: "(stdhash \<Rightarrow> bytes \<Rightarrow> bytes \<Rightarrow> bytes) \<Rightarrow> bytes \<Rightarrow> bytes \<Rightarrow> bytes" where
  "HMACSHA512 hmac message key = hmac SHA512 key message"

definition VerifyHMAC ::
  "(stdhash \<Rightarrow> bytes \<Rightarrow> bytes \<Rightarrow> bytes) \<Rightarrow> bytes \<Rightarrow> bytes \<Rightarrow> bytes \<Rightarrow> stdhash \<Rightarrow> bool" where
  "VerifyHMAC hmac message key mac hashFunc = ConstantTimeCompare mac (hmac hashFunc key message)"

definition enchantrixHexHash :: "(stdhash \<Rightarrow> bytes \<Rightarrow> bytes res) \<Rightarrow> stdhash \<Rightarrow> bytes \<Rightarrow> string res" where
  "enchantrixHexHash sigil hash data =
     (case sigil hash data of Inl e \<Rightarrow> Inl e | Inr d \<Rightarrow> Inr (HexEncode d))"

definition mustEnchantrixHexHash :: "(stdhash \<Rightarrow> bytes \<Rightarrow> bytes res) \<Rightarrow> stdhash \<Rightarrow> bytes \<Rightarrow> string" where
  "mustEnchantrixHexHash sigil hash data =
     (case enchantrixHexHash sigil hash data of Inl e \<Rightarrow> '''' | Inr d \<Rightarrow> d)"

definition SHA256Sum :: "(stdhash \<Rightarrow> bytes \<Rightarrow> bytes res) \<Rightarrow> bytes \<Rightarrow> string" where
  "SHA256Sum sigil data = mustEnchantrixHexHash sigil SHA256 data"

definition SHA512Sum :: "(stdhash \<Rightarrow> bytes \<Rightarrow> bytes res) \<Rightarrow> bytes \<Rightarrow> string" where
  "SHA512Sum sigil data = mustEnchantrixHexHash sigil SHA512 data"

text \<open>
  Opening, reading and closing a file.  Open fails with an error or, when the framework's result
  holds no error value, with none.  The result pairs what is returned with the errors printed by
  the deferred close.
\<close>

record 'h file_lib =
  fl_open :: "string \<Rightarrow> err option + 'h"
  fl_readall :: "'h \<Rightarrow> bytes res"
  fl_close :: "'h \<Rightarrow> err option"

definition SHA256File ::
  "'h file_lib \<Rightarrow> (stdhash \<Rightarrow> bytes \<Rightarrow> bytes res) \<Rightarrow> string \<Rightarrow> string res \<times> err list" where
  "SHA256File fl sigil path =
     (case fl_open fl path of
        Inl e \<Rightarrow> (Inl (E ''crypt.SHA256File'' ''failed to open file'' e), [])
      | Inr f \<Rightarrow>
          ((case fl_readall fl f of
              Inl e \<Rightarrow> Inl (E ''crypt.SHA256File'' ''failed to read file'' (Some e))
            | Inr data \<Rightarrow> enchantrixHexHash sigil SHA256 data),
           (case fl_close fl f of None \<Rightarrow> [] | Some e \<Rightarrow> [e])))"

definition SHA512File ::
  "'h file_lib \<Rightarrow> (stdhash \<Rightarrow> bytes \<Rightarrow> bytes res) \<Rightarrow> string \<Rightarrow> string res \<times> err list" where
  "SHA512File fl sigil path =
     (case fl_open fl path of
        Inl e \<Rightarrow> (Inl (E ''crypt.SHA512File'' ''failed to open file'' e), [])
      | Inr f \<Rightarrow>
          ((case fl_readall fl f of
              Inl e \<Rightarrow> Inl (E ''crypt.SHA512File'' ''failed to read file'' (Some e))
            | Inr data \<Rightarrow> enchantrixHexHash sigil SHA512 data),
           (case fl_close fl f of None \<Rightarrow> [] | Some e \<Rightarrow> [e])))"

definition lthn_Verify :: "(string \<Rightarrow> string) \<Rightarrow> string \<Rightarrow> string \<Rightarrow> bool" where
  "lthn_Verify Hash input hash =
     ConstantTimeCompare (bytes_of_string (Hash input)) (bytes_of_string hash)"

lemma lthn_Verify_iff: "lthn_Verify Hash input hash \<longleftrightarrow> Hash input = hash"
  by (simp add: lthn_Verify_def)

lemma VerifyHMAC_iff: "VerifyHMAC hmac message key mac h \<longleftrightarrow> mac = hmac h key message"
  by (simp add: VerifyHMAC_def)

text \<open>
  A file's checksum is the checksum of its contents, under both digests; a failing read or
  open is reported as an error and a failing close only printed.
\<close>

theorem file_checksum_is_sum_of_contents:
  assumes "fl_open fl path = Inr f" and "fl_readall fl f = Inr data"
    and "sigil SHA256 data = Inr s256" and "sigil SHA512 data = Inr s512"
  shows "fst (SHA256File fl sigil path) = Inr (SHA256Sum sigil data) \<and>
     fst (SHA512File fl sigil path) = Inr (SHA512Sum sigil data) \<and>
     hex_read (SHA256Sum sigil data) = Some s256 \<and> hex_read (SHA512Sum sigil data) = Some s512"
  using assms
  by (simp add: SHA256File_def SHA512File_def SHA256Sum_def SHA512Sum_def mustEnchantrixHexHash_def
    enchantrixHexHash_def hex_read_HexEncode)

theorem file_checksum_is_sum_of_contents_witness:
  "fst (SHA256File \<lparr>fl_open = Inr, fl_readall = (\<lambda>f. Inr (bytes_of_string f)), fl_close = (\<lambda>_. None)\<rparr>
     (\<lambda>h d. Inr (take 2 d)) ''abc'') = Inr (SHA256Sum (\<lambda>h d. Inr (take 2 d)) (bytes_of_string ''abc''))"
  by (rule file_checksum_is_sum_of_contents [THEN conjunct1]) simp_all

end
