(* ===== verification/Pgp.thy ===== *)
theory Pgp
  imports Prelude
begin

text \<open>
  \<^verbatim>\<open>go/crypt/pgp/pgp.go\<close> and \<^verbatim>\<open>go/crypt/openpgp/service.go\<close> over the ProtonMail OpenPGP library,
  which is the argument \<open>lib\<close>: \<open>'p\<close> is its type of packets (keys, user ids, signatures), an absent
  private key is its nil pointer.  A result is an option where the code can dereference a nil key
  or index an empty key ring: \<open>None\<close> is that panic.  What a writer has received when an error
  occurs is dropped by the code and not modelled.
\<close>

record 'p Subkey =
  sub_key :: "'p option"
  sub_sig :: 'p

record 'p Entity =
  PrivKey :: "'p option"
  Identities :: "('p \<times> 'p) list"
  Subkeys :: "'p Subkey list"

text \<open>\<open>Identities\<close> pairs each user id with its self-signature, in the order the map is visited.\<close>

record 'p openpgp_lib =
  NewEntity :: "string \<Rightarrow> string \<Rightarrow> string \<Rightarrow> 'p Entity res"
  SignUserId :: "'p Entity \<Rightarrow> 'p \<times> 'p \<Rightarrow> 'p res"
  EncryptKey :: "bytes \<Rightarrow> 'p \<Rightarrow> 'p res"
  DecryptKey :: "bytes \<Rightarrow> 'p \<Rightarrow> 'p res"
  Encrypted :: "'p \<Rightarrow> bool"
  SerializePacket :: "'p \<Rightarrow> bytes res"
  SerializePublic :: "'p Entity \<Rightarrow> bytes res"
  SerializePrivate :: "'p Entity \<Rightarrow> bytes res"
  ArmorError :: "string \<Rightarrow> err option"
  Armored :: "string \<Rightarrow> bytes \<Rightarrow> string"
  ReadArmoredKeyRing :: "string \<Rightarrow> 'p Entity list res"
  EncryptStart :: "'p Entity list \<Rightarrow> err option"
  EncryptWrite :: "'p Entity list \<Rightarrow> bytes \<Rightarrow> bytes res"
  ArmorDecode :: "bytes \<Rightarrow> bytes res"
  ReadMessage :: "bytes \<Rightarrow> 'p Entity list \<Rightarrow> bytes res res"
  ArmoredDetachSign :: "'p Entity \<Rightarrow> bytes \<Rightarrow> bytes res"
  CheckArmoredDetachedSignature :: "'p Entity list \<Rightarrow> bytes \<Rightarrow> bytes \<Rightarrow> err option"

record KeyPair =
  PublicKey :: string
  PrivateKey :: string

definition publicKeyType :: string where "publicKeyType = ''PGP PUBLIC KEY BLOCK''"
definition privateKeyType :: string where "privateKeyType = ''PGP PRIVATE KEY BLOCK''"

section \<open>Loops over an entity\<close>

text \<open>Writes to one buffer in turn, up to the first error.\<close>

fun write_all :: "bytes res list \<Rightarrow> bytes res" where
  "write_all [] = Inr []"
| "write_all (r # rs) =
     (case r of Inl e \<Rightarrow> Inl e | Inr b \<Rightarrow>
        (case write_all rs of Inl e \<Rightarrow> Inl e | Inr bs \<Rightarrow> Inr (b @ bs)))"

fun sign_identities :: "'p openpgp_lib \<Rightarrow> 'p Entity \<Rightarrow> ('p \<times> 'p) list \<Rightarrow> ('p \<times> 'p) list res" where
  "sign_identities lib e [] = Inr []"
| "sign_identities lib e (i # is) =
     (case SignUserId lib e i of Inl err \<Rightarrow> Inl err | Inr s \<Rightarrow>
        (case sign_identities lib e is of Inl err \<Rightarrow> Inl err | Inr is' \<Rightarrow> Inr ((fst i, s) # is')))"

fun encrypt_subkeys :: "'p openpgp_lib \<Rightarrow> bytes \<Rightarrow> 'p Subkey list \<Rightarrow> 'p Subkey list res option" where
  "encrypt_subkeys lib pw [] = Some (Inr [])"
| "encrypt_subkeys lib pw (k # ks) =
     (case sub_key k of None \<Rightarrow> None | Some p \<Rightarrow>
     (case EncryptKey lib pw p of Inl e \<Rightarrow> Some (Inl e) | Inr p' \<Rightarrow>
     (case encrypt_subkeys lib pw ks of
        None \<Rightarrow> None
      | Some (Inl e) \<Rightarrow> Some (Inl e)
      | Some (Inr ks') \<Rightarrow> Some (Inr (k\<lparr>sub_key := Some p'\<rparr> # ks')))))"

text \<open>
  The same where a write may dereference a nil key: the first write that fails or panics decides.
\<close>

fun write_seq :: "bytes res option list \<Rightarrow> bytes res option" where
  "write_seq [] = Some (Inr [])"
| "write_seq (r # rs) =
     (case r of None \<Rightarrow> None | Some (Inl e) \<Rightarrow> Some (Inl e) | Some (Inr b) \<Rightarrow>
        (case write_seq rs of
           None \<Rightarrow> None | Some (Inl e) \<Rightarrow> Some (Inl e) | Some (Inr bs) \<Rightarrow> Some (Inr (b @ bs))))"

lemma write_seq_write_all: "list_all (\<lambda>r. r \<noteq> None) rs \<Longrightarrow> write_seq rs = Some (write_all (map the rs))"
  by (induction rs) (auto split: sum.split)

lemma write_seq_all_Some: "write_seq rs = Some (Inr bs) \<Longrightarrow> list_all (\<lambda>r. r \<noteq> None) rs"
  by (induction rs arbitrary: bs) (auto split: option.splits sum.splits)

lemma write_seq_Inr:
  "write_seq rs = Some (Inr bs) \<longleftrightarrow> list_all (\<lambda>r. r \<noteq> None) rs \<and> write_all (map the rs) = Inr bs"
  using write_seq_write_all [of rs] write_seq_all_Some [of rs bs] by auto

definition write_key :: "'p openpgp_lib \<Rightarrow> 'p option \<Rightarrow> bytes res option" where
  "write_key lib k = map_option (SerializePacket lib) k"

lemma write_key_simps:
  "write_key lib None = None" "write_key lib (Some p) = Some (SerializePacket lib p)"
  "write_key lib k = None \<longleftrightarrow> k = None"
  by (simp_all add: write_key_def)

definition serializeEncryptedEntity :: "'p openpgp_lib \<Rightarrow> 'p Entity \<Rightarrow> bytes res option" where
  "serializeEncryptedEntity lib e =
     write_seq
       (write_key lib (PrivKey e) #
        concat (map (\<lambda>(u, s). [Some (SerializePacket lib u), Some (SerializePacket lib s)]) (Identities e)) @
        concat (map (\<lambda>k. [write_key lib (sub_key k), Some (SerializePacket lib (sub_sig k))]) (Subkeys e)))"

section \<open>Package pgp\<close>

definition encrypt_entity :: "'p openpgp_lib \<Rightarrow> string \<Rightarrow> string \<Rightarrow> 'p Entity \<Rightarrow> 'p Entity res option" where
  "encrypt_entity lib op password e =
     (if password = '''' then Some (Inr e)
      else case PrivKey e of None \<Rightarrow> None | Some key \<Rightarrow>
        (case EncryptKey lib (bytes_of_string password) key of
           Inl err \<Rightarrow> Some (Inl (E op ''failed to encrypt private key'' (Some err)))
         | Inr key' \<Rightarrow>
        (case encrypt_subkeys lib (bytes_of_string password) (Subkeys e) of
           None \<Rightarrow> None
         | Some (Inl err) \<Rightarrow> Some (Inl (E op ''failed to encrypt subkey'' (Some err)))
         | Some (Inr ks) \<Rightarrow> Some (Inr (e\<lparr>PrivKey := Some key', Subkeys := ks\<rparr>)))))"

definition CreateKeyPair ::
  "'p openpgp_lib \<Rightarrow> string \<Rightarrow> string \<Rightarrow> string \<Rightarrow> KeyPair res option" where
  "CreateKeyPair lib name email password =
     (let op = ''pgp.CreateKeyPair'' in
      case NewEntity lib name '''' email of
        Inl err \<Rightarrow> Some (Inl (E op ''failed to create entity'' (Some err)))
      | Inr e0 \<Rightarrow>
      (case sign_identities lib e0 (Identities e0) of
        Inl err \<Rightarrow> Some (Inl (E op ''failed to sign identity'' (Some err)))
      | Inr is \<Rightarrow>
      (case encrypt_entity lib op password (e0\<lparr>Identities := is\<rparr>) of
        None \<Rightarrow> None
      | Some (Inl err) \<Rightarrow> Some (Inl err)
      | Some (Inr e) \<Rightarrow>
      (case ArmorError lib publicKeyType of
        Some err \<Rightarrow> Some (Inl (E op ''failed to create armored public key writer'' (Some err)))
      | None \<Rightarrow>
      (case SerializePublic lib e of
        Inl err \<Rightarrow> Some (Inl (E op ''failed to serialize public key'' (Some err)))
      | Inr pub \<Rightarrow>
      (case ArmorError lib privateKeyType of
        Some err \<Rightarrow> Some (Inl (E op ''failed to create armored private key writer'' (Some err)))
      | None \<Rightarrow>
      (case (if password \<noteq> '''' then serializeEncryptedEntity lib e
             else Some (SerializePrivate lib e)) of
        None \<Rightarrow> None
      | Some (Inl err) \<Rightarrow> Some (Inl (E op ''failed to serialize private key'' (Some err)))
      | Some (Inr priv) \<Rightarrow>
          Some (Inr \<lparr>PublicKey = Armored lib publicKeyType pub,
                     PrivateKey = Armored lib privateKeyType priv\<rparr>))))))))"

definition pgp_Encrypt :: "'p openpgp_lib \<Rightarrow> bytes \<Rightarrow> string \<Rightarrow> bytes res" where
  "pgp_Encrypt lib data publicKeyArmor =
     (let op = ''pgp.Encrypt'' in
      case ReadArmoredKeyRing lib publicKeyArmor of
        Inl err \<Rightarrow> Inl (E op ''failed to read public key ring'' (Some err))
      | Inr keyring \<Rightarrow>
      (case ArmorError lib ''PGP MESSAGE'' of
        Some err \<Rightarrow> Inl (E op ''failed to create armor encoder'' (Some err))
      | None \<Rightarrow>
      (case EncryptStart lib keyring of
        Some err \<Rightarrow> Inl (E op ''failed to create encryption writer'' (Some err))
      | None \<Rightarrow>
      (case EncryptWrite lib keyring data of
        Inl err \<Rightarrow> Inl (E op ''failed to write data'' (Some err))
      | Inr body \<Rightarrow> Inr (bytes_of_string (Armored lib ''PGP MESSAGE'' body))))))"

text \<open>The loops of Decrypt: every encrypted private key of the ring is unlocked with the password.\<close>

fun unlock_subkeys :: "'p openpgp_lib \<Rightarrow> bytes \<Rightarrow> 'p Subkey list \<Rightarrow> 'p Subkey list res" where
  "unlock_subkeys lib pw [] = Inr []"
| "unlock_subkeys lib pw (k # ks) =
     (case (case sub_key k of
              None \<Rightarrow> Inr k
            | Some p \<Rightarrow> if Encrypted lib p
                then (case DecryptKey lib pw p of Inl e \<Rightarrow> Inl e | Inr p' \<Rightarrow> Inr (k\<lparr>sub_key := Some p'\<rparr>))
                else Inr k) of
        Inl e \<Rightarrow> Inl e
      | Inr k' \<Rightarrow>
          (case unlock_subkeys lib pw ks of Inl e \<Rightarrow> Inl e | Inr ks' \<Rightarrow> Inr (k' # ks')))"

definition unlock_primary :: "'p openpgp_lib \<Rightarrow> bytes \<Rightarrow> 'p Entity \<Rightarrow> 'p Entity res" where
  "unlock_primary lib pw e =
     (case PrivKey e of
        None \<Rightarrow> Inr e
      | Some p \<Rightarrow> if Encrypted lib p
          then (case DecryptKey lib pw p of Inl err \<Rightarrow> Inl err | Inr p' \<Rightarrow> Inr (e\<lparr>PrivKey := Some p'\<rparr>))
          else Inr e)"

fun unlock_ring :: "'p openpgp_lib \<Rightarrow> string \<Rightarrow> bytes \<Rightarrow> 'p Entity list \<Rightarrow> 'p Entity list res" where
  "unlock_ring lib op pw [] = Inr []"
| "unlock_ring lib op pw (e # es) =
     (case unlock_primary lib pw e of
        Inl err \<Rightarrow> Inl (E op ''failed to decrypt private key'' (Some err))
      | Inr e1 \<Rightarrow>
     (case unlock_subkeys lib pw (Subkeys e1) of
        Inl err \<Rightarrow> Inl (E op ''failed to decrypt subkey'' (Some err))
      | Inr ks \<Rightarrow>
     (case unlock_ring lib op pw es of
        Inl err \<Rightarrow> Inl err
      | Inr es' \<Rightarrow> Inr (e1\<lparr>Subkeys := ks\<rparr> # es'))))"

definition pgp_Decrypt :: "'p openpgp_lib \<Rightarrow> bytes \<Rightarrow> string \<Rightarrow> string \<Rightarrow> bytes res" where
  "pgp_Decrypt lib data privateKeyArmor password =
     (let op = ''pgp.Decrypt'' in
      case ReadArmoredKeyRing lib privateKeyArmor of
        Inl err \<Rightarrow> Inl (E op ''failed to read private key ring'' (Some err))
      | Inr keyring \<Rightarrow>
      (case unlock_ring lib op (bytes_of_string password) keyring of
        Inl err \<Rightarrow> Inl err
      | Inr unlocked \<Rightarrow>
      (case ArmorDecode lib data of
        Inl err \<Rightarrow> Inl (E op ''failed to decode armored message'' (Some err))
      | Inr body \<Rightarrow>
      (case ReadMessage lib body unlocked of
        Inl err \<Rightarrow> Inl (E op ''failed to read message'' (Some err))
      | Inr (Inl err) \<Rightarrow> Inl (E op ''failed to read plaintext'' (Some err))
      | Inr (Inr plaintext) \<Rightarrow> Inr plaintext))))"

definition pgp_Sign :: "'p openpgp_lib \<Rightarrow> bytes \<Rightarrow> string \<Rightarrow> string \<Rightarrow> bytes res option" where
  "pgp_Sign lib data privateKeyArmor password =
     (let op = ''pgp.Sign'' in
      case ReadArmoredKeyRing lib privateKeyArmor of
        Inl err \<Rightarrow> Some (Inl (E op ''failed to read private key ring'' (Some err)))
      | Inr [] \<Rightarrow> None
      | Inr (signer # _) \<Rightarrow>
          if PrivKey signer = None
          then Some (Inl (E op ''private key not found in keyring'' None))
          else (case unlock_primary lib (bytes_of_string password) signer of
             Inl err \<Rightarrow> Some (Inl (E op ''failed to decrypt private key'' (Some err)))
           | Inr signer' \<Rightarrow>
               (case ArmoredDetachSign lib signer' data of
                  Inl err \<Rightarrow> Some (Inl (E op ''failed to sign message'' (Some err)))
                | Inr sig \<Rightarrow> Some (Inr sig))))"

definition pgp_Verify :: "'p openpgp_lib \<Rightarrow> bytes \<Rightarrow> bytes \<Rightarrow> string \<Rightarrow> err option" where
  "pgp_Verify lib data signature publicKeyArmor =
     (let op = ''pgp.Verify'' in
      case ReadArmoredKeyRing lib publicKeyArmor of
        Inl err \<Rightarrow> Some (E op ''failed to read public key ring'' (Some err))
      | Inr keyring \<Rightarrow>
          (case CheckArmoredDetachedSignature lib keyring data signature of
             Some err \<Rightarrow> Some (E op ''signature verification failed'' (Some err))
           | None \<Rightarrow> None))"

section \<open>Package openpgp\<close>

text \<open>
  The service generates keys under its own configuration, so its \<open>newEntity\<close> is an argument of its
  own; it does not sign the identities again, and unlocks subkeys whether or not they are locked.
\<close>

text \<open>The service has a copy of the serialisation of package pgp.\<close>

definition serializeEntity :: "'p openpgp_lib \<Rightarrow> 'p Entity \<Rightarrow> bytes res option" where
  "serializeEntity lib e =
     write_seq
       (write_key lib (PrivKey e) #
        concat (map (\<lambda>(u, s). [Some (SerializePacket lib u), Some (SerializePacket lib s)]) (Identities e)) @
        concat (map (\<lambda>k. [write_key lib (sub_key k), Some (SerializePacket lib (sub_sig k))]) (Subkeys e)))"

lemma serializeEntity_eq: "serializeEntity = serializeEncryptedEntity"
  by (intro ext) (simp add: serializeEntity_def serializeEncryptedEntity_def)

definition svc_CreateKeyPair ::
  "'p openpgp_lib \<Rightarrow> (string \<Rightarrow> string \<Rightarrow> string \<Rightarrow> 'p Entity res) \<Rightarrow> string \<Rightarrow> string \<Rightarrow> string res option"
where
  "svc_CreateKeyPair lib newEntity name passphrase =
     (let op = ''openpgp.CreateKeyPair'' in
      case newEntity name ''Workspace Key'' '''' of
        Inl err \<Rightarrow> Some (Inl (E op ''failed to create entity'' (Some err)))
      | Inr e0 \<Rightarrow>
      (case encrypt_entity lib op passphrase e0 of
        None \<Rightarrow> None
      | Some (Inl err) \<Rightarrow> Some (Inl err)
      | Some (Inr e) \<Rightarrow>
      (case ArmorError lib privateKeyType of
        Some err \<Rightarrow> Some (Inl (E op ''failed to create armor encoder'' (Some err)))
      | None \<Rightarrow>
      (case serializeEntity lib e of
        None \<Rightarrow> None
      | Some (Inl err) \<Rightarrow> Some (Inl (E op ''failed to serialise private key'' (Some err)))
      | Some (Inr priv) \<Rightarrow> Some (Inr (Armored lib privateKeyType priv))))))"

text \<open>
  The ciphertext goes to the caller's writer and to the armour.  \<open>accept\<close> is the writer: the state
  it is left in and its error, if it refuses the bytes.
\<close>

definition svc_EncryptPGP ::
  "'p openpgp_lib \<Rightarrow> (bytes \<Rightarrow> 'w \<Rightarrow> err option \<times> 'w) \<Rightarrow> 'w \<Rightarrow> string \<Rightarrow> string \<Rightarrow> string res \<times> 'w" where
  "svc_EncryptPGP lib accept writer recipientPath data =
     (let op = ''openpgp.EncryptPGP'' in
      case ReadArmoredKeyRing lib recipientPath of
        Inl err \<Rightarrow> (Inl (E op ''failed to read recipient key'' (Some err)), writer)
      | Inr keyring \<Rightarrow>
      (case ArmorError lib ''PGP MESSAGE'' of
        Some err \<Rightarrow> (Inl (E op ''failed to create armor encoder'' (Some err)), writer)
      | None \<Rightarrow>
      (case EncryptStart lib keyring of
        Some err \<Rightarrow> (Inl (E op ''failed to start encryption'' (Some err)), writer)
      | None \<Rightarrow>
      (case EncryptWrite lib keyring (bytes_of_string data) of
        Inl err \<Rightarrow> (Inl (E op ''failed to write data'' (Some err)), writer)
      | Inr body \<Rightarrow>
      (case accept body writer of
        (Some err, writer') \<Rightarrow> (Inl (E op ''failed to write data'' (Some err)), writer')
      | (None, writer') \<Rightarrow> (Inr (Armored lib ''PGP MESSAGE'' body), writer'))))))"

fun force_subkeys :: "'p openpgp_lib \<Rightarrow> bytes \<Rightarrow> 'p Subkey list \<Rightarrow> 'p Subkey list res option" where
  "force_subkeys lib pw [] = Some (Inr [])"
| "force_subkeys lib pw (k # ks) =
     (case sub_key k of None \<Rightarrow> None | Some p \<Rightarrow>
     (case DecryptKey lib pw p of Inl e \<Rightarrow> Some (Inl e) | Inr p' \<Rightarrow>
     (case force_subkeys lib pw ks of
        None \<Rightarrow> None
      | Some (Inl e) \<Rightarrow> Some (Inl e)
      | Some (Inr ks') \<Rightarrow> Some (Inr (k\<lparr>sub_key := Some p'\<rparr> # ks')))))"

definition svc_unlock :: "'p openpgp_lib \<Rightarrow> bytes \<Rightarrow> 'p Entity \<Rightarrow> 'p Entity res option" where
  "svc_unlock lib pw e =
     (let op = ''openpgp.DecryptPGP'' in
      case PrivKey e of None \<Rightarrow> None | Some p \<Rightarrow>
        if \<not> Encrypted lib p then Some (Inr e)
        else (case DecryptKey lib pw p of
           Inl err \<Rightarrow> Some (Inl (E op ''failed to decrypt private key'' (Some err)))
         | Inr p' \<Rightarrow>
             (case force_subkeys lib pw (Subkeys e) of
                None \<Rightarrow> None
              | Some (Inl err) \<Rightarrow> Some (Inl (E op ''failed to decrypt subkey'' (Some err)))
              | Some (Inr ks) \<Rightarrow> Some (Inr (e\<lparr>PrivKey := Some p', Subkeys := ks\<rparr>)))))"

definition svc_DecryptPGP ::
  "'p openpgp_lib \<Rightarrow> string \<Rightarrow> string \<Rightarrow> string \<Rightarrow> string res option" where
  "svc_DecryptPGP lib privateKey message passphrase =
     (let op = ''openpgp.DecryptPGP'' in
      case ReadArmoredKeyRing lib privateKey of
        Inl err \<Rightarrow> Some (Inl (E op ''failed to read private key'' (Some err)))
      | Inr [] \<Rightarrow> None
      | Inr (entity # rest) \<Rightarrow>
      (case svc_unlock lib (bytes_of_string passphrase) entity of
        None \<Rightarrow> None
      | Some (Inl err) \<Rightarrow> Some (Inl err)
      | Some (Inr entity') \<Rightarrow>
      (case ArmorDecode lib (bytes_of_string message) of
        Inl err \<Rightarrow> Some (Inl (E op ''failed to decode armored message'' (Some err)))
      | Inr body \<Rightarrow>
      (case ReadMessage lib body (entity' # rest) of
        Inl err \<Rightarrow> Some (Inl (E op ''failed to read message'' (Some err)))
      | Inr (Inl err) \<Rightarrow> Some (Inl (E op ''failed to read decrypted body'' (Some err)))
      | Inr (Inr plaintext) \<Rightarrow> Some (Inr (string_of_bytes plaintext))))))"

text \<open>
  The event handler: \<open>field\<close> reads a string field of the message, \<open>None\<close> when the message is not a
  map; a missing field is the empty string.  The key pair it makes is dropped.
\<close>

definition svc_HandleIPCEvents ::
  "'p openpgp_lib \<Rightarrow> (string \<Rightarrow> string \<Rightarrow> string \<Rightarrow> 'p Entity res) \<Rightarrow> (string \<rightharpoonup> string) option \<Rightarrow>
     err option option" where
  "svc_HandleIPCEvents lib newEntity msg =
     (let field = (\<lambda>m k. case m k of None \<Rightarrow> '''' | Some v \<Rightarrow> v) in
      case msg of
        None \<Rightarrow> Some None
      | Some m \<Rightarrow>
          if field m ''action'' = ''openpgp.create_key_pair''
          then (case svc_CreateKeyPair lib newEntity (field m ''name'') (field m ''passphrase'') of
             None \<Rightarrow> None | Some (Inl e) \<Rightarrow> Some (Some e) | Some (Inr _) \<Rightarrow> Some None)
          else Some None)"

section \<open>Private keys at rest\<close>

text \<open>The subkeys with their private parts locked under the password.\<close>

definition locked :: "'p openpgp_lib \<Rightarrow> bytes \<Rightarrow> 'p Subkey \<Rightarrow> 'p Subkey \<Rightarrow> bool" where
  "locked lib pw k k' \<longleftrightarrow>
     (\<exists>p p'. sub_key k = Some p \<and> EncryptKey lib pw p = Inr p' \<and> k' = k\<lparr>sub_key := Some p'\<rparr>)"

lemma encrypt_subkeys_locked:
  "encrypt_subkeys lib pw ks = Some (Inr ks') \<Longrightarrow> list_all2 (locked lib pw) ks ks'"
proof (induction ks arbitrary: ks')
  case (Cons k ks)
  then show ?case by (auto simp: locked_def split: option.splits sum.splits)
qed simp

lemma encrypt_entity_locked:
  assumes "encrypt_entity lib op pw e = Some (Inr e')" and "pw \<noteq> ''''"
  shows "\<exists>key key'. PrivKey e = Some key \<and> EncryptKey lib (bytes_of_string pw) key = Inr key' \<and>
    PrivKey e' = Some key' \<and> list_all2 (locked lib (bytes_of_string pw)) (Subkeys e) (Subkeys e')"
  using assms by (auto simp: encrypt_entity_def dest!: encrypt_subkeys_locked
    split: option.splits sum.splits)

definition identity_packets :: "'p openpgp_lib \<Rightarrow> 'p Entity \<Rightarrow> bytes res list" where
  "identity_packets lib e =
     concat (map (\<lambda>(u, s). [SerializePacket lib u, SerializePacket lib s]) (Identities e))"

definition subkey_packets :: "'p openpgp_lib \<Rightarrow> 'p Subkey list \<Rightarrow> bytes res list" where
  "subkey_packets lib ks =
     concat (map (\<lambda>k. [SerializePacket lib (the (sub_key k)), SerializePacket lib (sub_sig k)]) ks)"

lemma serialized_packets:
  "serializeEncryptedEntity lib e = Some (Inr body) \<longleftrightarrow>
     (\<exists>key. PrivKey e = Some key \<and> list_all (\<lambda>k. sub_key k \<noteq> None) (Subkeys e) \<and>
        write_all (SerializePacket lib key # identity_packets lib e @ subkey_packets lib (Subkeys e)) = Inr body)"
proof -
  let ?ids = "concat (map (\<lambda>(u, s). [Some (SerializePacket lib u), Some (SerializePacket lib s)]) (Identities e))"
  let ?subs = "concat (map (\<lambda>k. [write_key lib (sub_key k), Some (SerializePacket lib (sub_sig k))]) (Subkeys e))"
  have i: "list_all (\<lambda>r. r \<noteq> None) ?ids" "map the ?ids = identity_packets lib e"
    by (auto simp: list_all_iff identity_packets_def map_concat comp_def split_def)
  have k: "list_all (\<lambda>r. r \<noteq> None) ?subs \<longleftrightarrow> list_all (\<lambda>k. sub_key k \<noteq> None) (Subkeys e)"
    by (auto simp: list_all_iff write_key_def)
  have s: "map the (concat (map (\<lambda>k. [write_key lib (sub_key k), Some (SerializePacket lib (sub_sig k))]) ks)) =
      subkey_packets lib ks" if "list_all (\<lambda>k. sub_key k \<noteq> None) ks" for ks
    using that by (induction ks) (auto simp: subkey_packets_def write_key_def)
  show ?thesis
  proof (cases "PrivKey e")
    case (Some key)
    note u = serializeEncryptedEntity_def write_seq_Inr Some write_key_simps list.map map_append
      list.pred_inject list_all_append k i(2) option.sel
    show ?thesis
    proof (cases "list_all (\<lambda>k. sub_key k \<noteq> None) (Subkeys e)")
      case True
      show ?thesis unfolding u s [OF True] using i(1) True by simp
    next
      case False
      then show ?thesis unfolding u by blast
    qed
  qed (simp add: serializeEncryptedEntity_def write_seq_Inr write_key_simps)
qed

text \<open>
  With a password, the private key block that CreateKeyPair returns holds only locked keys:
  it is the armour of the primary key and of every subkey encrypted under the password, with the
  identities; nothing of the unencrypted entity's private part is serialised.
\<close>

theorem private_keys_are_locked:
  assumes "CreateKeyPair lib name email password = Some (Inr kp)" and "password \<noteq> ''''"
  shows "\<exists>e key key' e' ks body. NewEntity lib name '''' email = Inr e \<and> PrivKey e = Some key \<and>
     EncryptKey lib (bytes_of_string password) key = Inr key' \<and>
     list_all2 (locked lib (bytes_of_string password)) (Subkeys e) ks \<and>
     write_all (SerializePacket lib key' # identity_packets lib e' @ subkey_packets lib ks) = Inr body \<and>
     PrivateKey kp = Armored lib privateKeyType body"
proof -
  obtain e ids e' body where e: "NewEntity lib name '''' email = Inr e"
      "encrypt_entity lib ''pgp.CreateKeyPair'' password (e\<lparr>Identities := ids\<rparr>) = Some (Inr e')"
      "serializeEncryptedEntity lib e' = Some (Inr body)"
      "PrivateKey kp = Armored lib privateKeyType body"
    using assms by (auto simp: CreateKeyPair_def Let_def split: sum.splits option.splits if_splits)
  obtain key key' where key: "PrivKey e = Some key"
      "EncryptKey lib (bytes_of_string password) key = Inr key'" "PrivKey e' = Some key'"
      "list_all2 (locked lib (bytes_of_string password)) (Subkeys e) (Subkeys e')"
    using encrypt_entity_locked [OF e(2) assms(2)] by auto
  from e(3) key(3) have
    "write_all (SerializePacket lib key' # identity_packets lib e' @ subkey_packets lib (Subkeys e')) = Inr body"
    by (auto simp: serialized_packets)
  with e(1,4) key(1,2,4) show ?thesis by blast
qed

text \<open>A library over text packets, for concrete instances.\<close>

definition text_pgp :: "string openpgp_lib" where
  "text_pgp =
     \<lparr>NewEntity = (\<lambda>n c m. Inr \<lparr>PrivKey = Some (''sec:'' @ n), Identities = [(n, ''sig0'')],
        Subkeys = [\<lparr>sub_key = Some (''ssb:'' @ n), sub_sig = ''sig1''\<rparr>]\<rparr>),
      SignUserId = (\<lambda>e i. Inr ''sig''),
      EncryptKey = (\<lambda>pw p. Inr (''locked:'' @ string_of_bytes pw @ '':'' @ p)),
      DecryptKey = (\<lambda>pw p. if HasPrefix p (''locked:'' @ string_of_bytes pw @ '':'')
        then Inr (TrimPrefix p (''locked:'' @ string_of_bytes pw @ '':''))
        else Inl (Ext ''checksum failure'')),
      Encrypted = (\<lambda>p. HasPrefix p ''locked:''), SerializePacket = (\<lambda>p. Inr (bytes_of_string p)),
      SerializePublic = (\<lambda>e. Inr (bytes_of_string (concat (map fst (Identities e))))),
      SerializePrivate = (\<lambda>e. Inr []), ArmorError = (\<lambda>_. None),
      Armored = (\<lambda>t b. t @ ''|'' @ string_of_bytes b),
      ReadArmoredKeyRing = (\<lambda>s. case Split s CHR ''|'' of
          [t, n] \<Rightarrow> Inr [\<lparr>PrivKey = (if t = privateKeyType then Some n else None),
             Identities = [(n, ''sig'')], Subkeys = []\<rparr>]
        | _ \<Rightarrow> Inl (Ext ''no armored data found'')),
      EncryptStart = (\<lambda>_. None),
      EncryptWrite = (\<lambda>es d. Inr d), ArmorDecode = (\<lambda>d. Inr (drop 12 d)),
      ReadMessage = (\<lambda>b es. Inr (Inr b)),
      ArmoredDetachSign = (\<lambda>e d. Inr d),
      CheckArmoredDetachedSignature = (\<lambda>es d s. if s = d then None else Some (Ext ''invalid signature''))\<rparr>"

theorem private_keys_are_locked_witness:
  "\<exists>kp. CreateKeyPair text_pgp ''n'' ''m'' ''pw'' = Some (Inr kp) \<and>
     (\<exists>key' rest body. EncryptKey text_pgp (bytes_of_string ''pw'') ''sec:n'' = Inr key' \<and>
        write_all (SerializePacket text_pgp key' # rest) = Inr body \<and>
        PrivateKey kp = Armored text_pgp privateKeyType body)"
proof -
  have "\<exists>kp. CreateKeyPair text_pgp ''n'' ''m'' ''pw'' = Some (Inr kp)"
    by (simp add: CreateKeyPair_def text_pgp_def encrypt_entity_def serializeEncryptedEntity_def write_key_def)
  then obtain kp where kp: "CreateKeyPair text_pgp ''n'' ''m'' ''pw'' = Some (Inr kp)" by blast
  from private_keys_are_locked [OF kp] obtain e key key' e' ks body where k:
      "NewEntity text_pgp ''n'' '''' ''m'' = Inr e" "PrivKey e = Some key"
      "EncryptKey text_pgp (bytes_of_string ''pw'') key = Inr key'"
      "write_all (SerializePacket text_pgp key' # identity_packets text_pgp e' @
         subkey_packets text_pgp ks) = Inr body"
      "PrivateKey kp = Armored text_pgp privateKeyType body" by auto
  from k(1,2) have "key = ''sec:n''" by (auto simp: text_pgp_def)
  with kp k(3-5) show ?thesis by blast
qed

end
