(* ===== verification/Sessions.thy ===== *)
theory Sessions
  imports Prelude
begin

text \<open>
  \<^verbatim>\<open>go/auth/session_store.go\<close> and \<^verbatim>\<open>go/auth/session_store_sqlite.go\<close>: the two implementations of the
  interface \<^verbatim>\<open>SessionStore\<close>.  A mutating method returns the error, if any, with the new state.
  The key-value store \<^verbatim>\<open>dappco.re/go/store\<close> and the JSON codec behind the SQLite implementation are
  arguments; a failing result of either carries an error value.  The locale \<open>session_store\<close> is the
  contract of the interface; both implementations, and the dispatch of a call through the
  interface, are interpretations of it.
\<close>

record Session =
  Token :: string
  UserID :: string
  ExpiresAt :: gotime

definition ErrSessionNotFound :: err where
  "ErrSessionNotFound = E ''auth'' ''session not found'' None"

section \<open>In memory\<close>

record MemorySessionStore =
  sessions :: "string \<rightharpoonup> Session"

definition NewMemorySessionStore :: MemorySessionStore where
  "NewMemorySessionStore = \<lparr>sessions = Map.empty\<rparr>"

definition mem_Get :: "MemorySessionStore \<Rightarrow> string \<Rightarrow> Session res" where
  "mem_Get m token =
     (case sessions m token of None \<Rightarrow> Inl ErrSessionNotFound | Some session \<Rightarrow> Inr session)"

definition mem_Set :: "Session \<Rightarrow> MemorySessionStore \<Rightarrow> err option \<times> MemorySessionStore" where
  "mem_Set session m = (None, m\<lparr>sessions := (sessions m)(Token session \<mapsto> session)\<rparr>)"

definition mem_Delete :: "string \<Rightarrow> MemorySessionStore \<Rightarrow> err option \<times> MemorySessionStore" where
  "mem_Delete token m =
     (case sessions m token of
        None \<Rightarrow> (Some ErrSessionNotFound, m)
      | Some _ \<Rightarrow> (None, m\<lparr>sessions := (sessions m)(token := None)\<rparr>))"

text \<open>\<^verbatim>\<open>maps.DeleteFunc\<close> over the keys in the order they are visited, counting what is deleted.\<close>

fun DeleteFunc :: "string list \<Rightarrow> (string \<Rightarrow> 'v \<Rightarrow> bool) \<Rightarrow> (string \<rightharpoonup> 'v) \<Rightarrow> nat \<times> (string \<rightharpoonup> 'v)" where
  "DeleteFunc [] del m = (0, m)"
| "DeleteFunc (k # ks) del m =
     (case m k of
        None \<Rightarrow> DeleteFunc ks del m
      | Some v \<Rightarrow> if del k v then (case DeleteFunc ks del (m(k := None)) of (n, m') \<Rightarrow> (Suc n, m'))
          else DeleteFunc ks del m)"

definition mem_DeleteByUser ::
  "string list \<Rightarrow> string \<Rightarrow> MemorySessionStore \<Rightarrow> err option \<times> MemorySessionStore" where
  "mem_DeleteByUser ks userID m =
     (None, m\<lparr>sessions := snd (DeleteFunc ks (\<lambda>token session. UserID session = userID) (sessions m))\<rparr>)"

definition mem_Cleanup ::
  "string list \<Rightarrow> gotime \<Rightarrow> MemorySessionStore \<Rightarrow> nat \<times> err option \<times> MemorySessionStore" where
  "mem_Cleanup ks now m =
     (case DeleteFunc ks (\<lambda>token session. After now (ExpiresAt session)) (sessions m) of
        (count, m') \<Rightarrow> (count, None, m\<lparr>sessions := m'\<rparr>))"

section \<open>In SQLite\<close>

text \<open>The key-value store, with its state \<open>'k\<close>; \<open>kv_GetAll\<close> lists a group as the map is ranged over.\<close>

record 'k kv_lib =
  kv_New :: "string \<Rightarrow> 'k res"
  kv_Get :: "'k \<Rightarrow> string \<Rightarrow> string \<Rightarrow> string res"
  kv_Set :: "string \<Rightarrow> string \<Rightarrow> string \<Rightarrow> 'k \<Rightarrow> err option \<times> 'k"
  kv_Delete :: "string \<Rightarrow> string \<Rightarrow> 'k \<Rightarrow> err option \<times> 'k"
  kv_GetAll :: "'k \<Rightarrow> string \<Rightarrow> (string \<times> string) list res"
  kv_Close :: "'k \<Rightarrow> err option"
  is_NotFound :: "err \<Rightarrow> bool"

record session_codec =
  marshal_session :: "Session \<Rightarrow> string res"
  unmarshal_session :: "string \<Rightarrow> Session res"

definition sessionGroup :: string where "sessionGroup = ''sessions''"

definition NewSQLiteSessionStore :: "'k kv_lib \<Rightarrow> string \<Rightarrow> 'k res" where
  "NewSQLiteSessionStore lib dbPath =
     (case kv_New lib dbPath of Inl e \<Rightarrow> Inl e | Inr db \<Rightarrow> Inr db)"

definition sql_Get :: "'k kv_lib \<Rightarrow> session_codec \<Rightarrow> 'k \<Rightarrow> string \<Rightarrow> Session res" where
  "sql_Get lib codec db token =
     (case kv_Get lib db sessionGroup token of
        Inl e \<Rightarrow> if is_NotFound lib e then Inl ErrSessionNotFound else Inl e
      | Inr val \<Rightarrow>
          (case unmarshal_session codec val of Inl e \<Rightarrow> Inl e | Inr session \<Rightarrow> Inr session))"

definition sql_Set :: "'k kv_lib \<Rightarrow> session_codec \<Rightarrow> Session \<Rightarrow> 'k \<Rightarrow> err option \<times> 'k" where
  "sql_Set lib codec session db =
     (case marshal_session codec session of
        Inl e \<Rightarrow> (Some e, db)
      | Inr val \<Rightarrow> kv_Set lib sessionGroup (Token session) val db)"

definition sql_Delete :: "'k kv_lib \<Rightarrow> string \<Rightarrow> 'k \<Rightarrow> err option \<times> 'k" where
  "sql_Delete lib token db =
     (case kv_Get lib db sessionGroup token of
        Inl e \<Rightarrow> if is_NotFound lib e then (Some ErrSessionNotFound, db) else (Some e, db)
      | Inr _ \<Rightarrow> kv_Delete lib sessionGroup token db)"

text \<open>The loop of DeleteByUser and of Cleanup: malformed rows are skipped, a failing delete ends it.\<close>

fun sql_delete_where ::
  "'k kv_lib \<Rightarrow> session_codec \<Rightarrow> (Session \<Rightarrow> bool) \<Rightarrow> (string \<times> string) list \<Rightarrow> nat \<Rightarrow> 'k \<Rightarrow>
     nat \<times> err option \<times> 'k" where
  "sql_delete_where lib codec p [] count db = (count, None, db)"
| "sql_delete_where lib codec p ((token, val) # rows) count db =
     (case unmarshal_session codec val of
        Inl _ \<Rightarrow> sql_delete_where lib codec p rows count db
      | Inr session \<Rightarrow>
          if p session then
            (case kv_Delete lib sessionGroup token db of
               (Some e, db') \<Rightarrow> (count, Some e, db')
             | (None, db') \<Rightarrow> sql_delete_where lib codec p rows (count + 1) db')
          else sql_delete_where lib codec p rows count db)"

definition sql_DeleteByUser ::
  "'k kv_lib \<Rightarrow> session_codec \<Rightarrow> string \<Rightarrow> 'k \<Rightarrow> err option \<times> 'k" where
  "sql_DeleteByUser lib codec userID db =
     (case kv_GetAll lib db sessionGroup of
        Inl e \<Rightarrow> (Some e, db)
      | Inr rows \<Rightarrow> snd (sql_delete_where lib codec (\<lambda>s. UserID s = userID) rows 0 db))"

definition sql_Cleanup ::
  "'k kv_lib \<Rightarrow> session_codec \<Rightarrow> gotime \<Rightarrow> 'k \<Rightarrow> nat \<times> err option \<times> 'k" where
  "sql_Cleanup lib codec now db =
     (case kv_GetAll lib db sessionGroup of
        Inl e \<Rightarrow> (0, Some e, db)
      | Inr rows \<Rightarrow> sql_delete_where lib codec (\<lambda>s. After now (ExpiresAt s)) rows 0 db)"

definition sql_Close :: "'k kv_lib \<Rightarrow> 'k \<Rightarrow> err option" where
  "sql_Close lib db = kv_Close lib db"

section \<open>The interface\<close>

text \<open>
  A value of the interface type, and the dispatch of its methods.  The environment holds what the
  calls depend on: the order in which the runtime visits a map, the store library and the codec.
\<close>

datatype 'k SessionStore = Memory MemorySessionStore | SQLite 'k

record 'k session_env =
  visit :: "(string \<rightharpoonup> Session) \<Rightarrow> string list"
  kvlib :: "'k kv_lib"
  codec :: session_codec

fun store_Get :: "'k session_env \<Rightarrow> 'k SessionStore \<Rightarrow> string \<Rightarrow> Session res" where
  "store_Get env (Memory m) token = mem_Get m token"
| "store_Get env (SQLite db) token = sql_Get (kvlib env) (codec env) db token"

fun store_Set :: "'k session_env \<Rightarrow> Session \<Rightarrow> 'k SessionStore \<Rightarrow> err option \<times> 'k SessionStore" where
  "store_Set env session (Memory m) = map_prod id Memory (mem_Set session m)"
| "store_Set env session (SQLite db) = map_prod id SQLite (sql_Set (kvlib env) (codec env) session db)"

fun store_Delete :: "'k session_env \<Rightarrow> string \<Rightarrow> 'k SessionStore \<Rightarrow> err option \<times> 'k SessionStore" where
  "store_Delete env token (Memory m) = map_prod id Memory (mem_Delete token m)"
| "store_Delete env token (SQLite db) = map_prod id SQLite (sql_Delete (kvlib env) token db)"

fun store_DeleteByUser ::
  "'k session_env \<Rightarrow> string \<Rightarrow> 'k SessionStore \<Rightarrow> err option \<times> 'k SessionStore" where
  "store_DeleteByUser env userID (Memory m) =
     map_prod id Memory (mem_DeleteByUser (visit env (sessions m)) userID m)"
| "store_DeleteByUser env userID (SQLite db) =
     map_prod id SQLite (sql_DeleteByUser (kvlib env) (codec env) userID db)"

fun store_Cleanup ::
  "'k session_env \<Rightarrow> gotime \<Rightarrow> 'k SessionStore \<Rightarrow> nat \<times> err option \<times> 'k SessionStore" where
  "store_Cleanup env now (Memory m) =
     map_prod id (map_prod id Memory) (mem_Cleanup (visit env (sessions m)) now m)"
| "store_Cleanup env now (SQLite db) =
     map_prod id (map_prod id SQLite) (sql_Cleanup (kvlib env) (codec env) now db)"

section \<open>The contract of a session store\<close>

definition drop_where :: "('v \<Rightarrow> bool) \<Rightarrow> (string \<rightharpoonup> 'v) \<Rightarrow> (string \<rightharpoonup> 'v)" where
  "drop_where p m = (\<lambda>k. case m k of None \<Rightarrow> None | Some v \<Rightarrow> if p v then None else Some v)"

definition keys_where :: "('v \<Rightarrow> bool) \<Rightarrow> (string \<rightharpoonup> 'v) \<Rightarrow> string set" where
  "keys_where p m = {k. \<exists>v. m k = Some v \<and> p v}"

lemma drop_where_Some: "drop_where p m k = Some v \<longleftrightarrow> m k = Some v \<and> \<not> p v"
  by (auto simp: drop_where_def split: option.splits)

lemma drop_where_None: "drop_where p m k = None \<longleftrightarrow> (\<forall>v. m k = Some v \<longrightarrow> p v)"
  by (auto simp: drop_where_def split: option.splits)

lemma dom_drop_where: "dom (drop_where p m) = dom m - keys_where p m"
  by (auto simp: dom_def keys_where_def drop_where_Some)

lemma keys_where_drop [simp]: "keys_where p (drop_where p m) = {}"
  by (auto simp: keys_where_def drop_where_Some)

lemma keys_where_subset: "keys_where p m \<subseteq> dom m"
  by (auto simp: keys_where_def)

text \<open>
  The interface's calls as data, what a call answers, and what it does to a plain map, which is
  the abstract specification of a store that does not fail.
\<close>

datatype session_call =
    GetCall string | SetCall Session | DeleteCall string | DeleteByUserCall string | CleanupCall gotime

datatype session_reply = Got "Session res" | Done "err option" | Removed nat "err option"

fun session_step ::
  "('s \<Rightarrow> string \<Rightarrow> Session res) \<Rightarrow> (Session \<Rightarrow> 's \<Rightarrow> err option \<times> 's) \<Rightarrow>
   (string \<Rightarrow> 's \<Rightarrow> err option \<times> 's) \<Rightarrow> (string \<Rightarrow> 's \<Rightarrow> err option \<times> 's) \<Rightarrow>
   (gotime \<Rightarrow> 's \<Rightarrow> nat \<times> err option \<times> 's) \<Rightarrow> session_call \<Rightarrow> 's \<Rightarrow> session_reply \<times> 's" where
  "session_step g p d du c (GetCall t) s = (Got (g s t), s)"
| "session_step g p d du c (SetCall x) s = map_prod Done id (p x s)"
| "session_step g p d du c (DeleteCall t) s = map_prod Done id (d t s)"
| "session_step g p d du c (DeleteByUserCall u) s = map_prod Done id (du u s)"
| "session_step g p d du c (CleanupCall now) s =
     (case c now s of (n, e, s') \<Rightarrow> (Removed n e, s'))"

fun map_step :: "session_call \<Rightarrow> (string \<rightharpoonup> Session) \<Rightarrow> session_reply \<times> (string \<rightharpoonup> Session)" where
  "map_step (GetCall t) m =
     (Got (case m t of None \<Rightarrow> Inl ErrSessionNotFound | Some x \<Rightarrow> Inr x), m)"
| "map_step (SetCall x) m = (Done None, m(Token x \<mapsto> x))"
| "map_step (DeleteCall t) m =
     (Done (if m t = None then Some ErrSessionNotFound else None), m(t := None))"
| "map_step (DeleteByUserCall u) m = (Done None, drop_where (\<lambda>x. UserID x = u) m)"
| "map_step (CleanupCall now) m =
     (Removed (card (keys_where (\<lambda>x. After now (ExpiresAt x)) m)) None,
      drop_where (\<lambda>x. After now (ExpiresAt x)) m)"

fun run_calls :: "('c \<Rightarrow> 's \<Rightarrow> 'r \<times> 's) \<Rightarrow> 'c list \<Rightarrow> 's \<Rightarrow> 'r list \<times> 's" where
  "run_calls step [] s = ([], s)"
| "run_calls step (c # cs) s =
     (case step c s of (r, s') \<Rightarrow> case run_calls step cs s' of (rs, s'') \<Rightarrow> (r # rs, s''))"

locale session_store =
  fixes get :: "'s \<Rightarrow> string \<Rightarrow> Session res"
    and put :: "Session \<Rightarrow> 's \<Rightarrow> err option \<times> 's"
    and delete :: "string \<Rightarrow> 's \<Rightarrow> err option \<times> 's"
    and deleteByUser :: "string \<Rightarrow> 's \<Rightarrow> err option \<times> 's"
    and cleanup :: "gotime \<Rightarrow> 's \<Rightarrow> nat \<times> err option \<times> 's"
    and contents :: "'s \<Rightarrow> string \<rightharpoonup> Session"
    and storable :: "'s \<Rightarrow> Session \<Rightarrow> bool"
    and inv :: "'s \<Rightarrow> bool"
  assumes get_contents: "inv s \<Longrightarrow>
      get s t = (case contents s t of None \<Rightarrow> Inl ErrSessionNotFound | Some x \<Rightarrow> Inr x)"
    and put_contents: "inv s \<Longrightarrow> storable s x \<Longrightarrow>
      \<exists>s'. put x s = (None, s') \<and> inv s' \<and> storable s' = storable s \<and>
        contents s' = (contents s)(Token x \<mapsto> x)"
    and delete_missing: "inv s \<Longrightarrow> contents s t = None \<Longrightarrow>
      delete t s = (Some ErrSessionNotFound, s)"
    and delete_present: "inv s \<Longrightarrow> contents s t = Some x \<Longrightarrow>
      \<exists>s'. delete t s = (None, s') \<and> inv s' \<and> storable s' = storable s \<and>
        contents s' = (contents s)(t := None)"
    and delete_by_user: "inv s \<Longrightarrow>
      \<exists>s'. deleteByUser u s = (None, s') \<and> inv s' \<and> storable s' = storable s \<and>
        contents s' = drop_where (\<lambda>x. UserID x = u) (contents s)"
    and cleanup_contents: "inv s \<Longrightarrow>
      \<exists>s'. cleanup now s =
          (card (keys_where (\<lambda>x. After now (ExpiresAt x)) (contents s)), None, s') \<and> inv s' \<and>
        storable s' = storable s \<and>
        contents s' = drop_where (\<lambda>x. After now (ExpiresAt x)) (contents s)"
    and token_key: "inv s \<Longrightarrow> contents s t = Some x \<Longrightarrow> Token x = t"
begin

lemma get_present: "inv s \<Longrightarrow> contents s t = Some x \<Longrightarrow> get s t = Inr x"
  by (simp add: get_contents)

lemma get_Inr: "inv s \<Longrightarrow> get s t = Inr x \<longleftrightarrow> contents s t = Some x"
  by (simp add: get_contents split: option.splits)

lemma get_Inl: "inv s \<Longrightarrow> (\<exists>e. get s t = Inl e) \<longleftrightarrow> contents s t = None"
  by (auto simp: get_contents split: option.splits)

lemma get_after_put:
  assumes "inv s" and "storable s x"
  shows "fst (put x s) = None \<and> inv (snd (put x s)) \<and>
    get (snd (put x s)) t = (if t = Token x then Inr x else get s t)"
  using put_contents [OF assms] assms(1) by (auto simp: get_contents)

lemma get_after_delete:
  assumes "inv s"
  shows "inv (snd (delete t s)) \<and>
    get (snd (delete t s)) t' = (if t' = t then Inl ErrSessionNotFound else get s t') \<and>
    (fst (delete t s) = None \<longleftrightarrow> contents s t \<noteq> None)"
proof (cases "contents s t")
  case None
  with delete_missing [OF assms, of t] assms show ?thesis by (auto simp: get_contents)
next
  case (Some x)
  with delete_present [OF assms, of t x] assms show ?thesis by (auto simp: get_contents)
qed

lemma no_session_after_delete_by_user:
  assumes "inv s"
  shows "fst (deleteByUser u s) = None \<and> inv (snd (deleteByUser u s)) \<and>
    (get (snd (deleteByUser u s)) t = Inr x \<longleftrightarrow> get s t = Inr x \<and> UserID x \<noteq> u)"
proof -
  obtain s' where s': "deleteByUser u s = (None, s')" "inv s'"
    "contents s' = drop_where (\<lambda>x. UserID x = u) (contents s)"
    using delete_by_user [OF assms] by blast
  with assms show ?thesis by (simp add: get_Inr drop_where_Some)
qed

lemma get_after_cleanup:
  assumes "inv s"
  shows "get (snd (snd (cleanup now s))) t = Inr x \<longleftrightarrow>
    get s t = Inr x \<and> \<not> After now (ExpiresAt x)"
proof -
  obtain n s' where "cleanup now s = (n, None, s')" "inv s'"
    "contents s' = drop_where (\<lambda>x. After now (ExpiresAt x)) (contents s)"
    using cleanup_contents [OF assms, of now] by blast
  with assms show ?thesis by (simp add: get_Inr drop_where_Some)
qed

text \<open>Nothing is left for a second cleanup at the same instant.\<close>

lemma cleanup_twice:
  assumes "inv s"
  shows "fst (cleanup now (snd (snd (cleanup now s)))) = 0"
proof -
  obtain n s' where s': "cleanup now s = (n, None, s')" "inv s'"
    "contents s' = drop_where (\<lambda>x. After now (ExpiresAt x)) (contents s)"
    using cleanup_contents [OF assms, of now] by blast
  obtain s'' where "cleanup now s' = (card (keys_where (\<lambda>x. After now (ExpiresAt x)) (contents s')), None, s'')"
    using cleanup_contents [OF s'(2), of now] by blast
  with s' show ?thesis by simp
qed

text \<open>Each call does to the contents what it does to a map, and answers as the map does.\<close>

lemma step_refines:
  assumes "inv s" and "\<And>x. c = SetCall x \<Longrightarrow> storable s x"
  shows "\<exists>s'. session_step get put delete deleteByUser cleanup c s = (fst (map_step c (contents s)), s') \<and>
    inv s' \<and> storable s' = storable s \<and> contents s' = snd (map_step c (contents s))"
proof (cases c)
  case (GetCall t)
  with assms(1) show ?thesis by (simp add: get_contents)
next
  case (SetCall x)
  with put_contents [OF assms(1) assms(2)] show ?thesis by auto
next
  case (DeleteCall t)
  show ?thesis
  proof (cases "contents s t")
    case None
    with DeleteCall delete_missing [OF assms(1) None] assms(1) show ?thesis
      by (simp add: fun_upd_idem)
  next
    case (Some x)
    with DeleteCall delete_present [OF assms(1) Some] show ?thesis by auto
  qed
next
  case (DeleteByUserCall u)
  with delete_by_user [OF assms(1), of u] show ?thesis by auto
next
  case (CleanupCall now)
  with cleanup_contents [OF assms(1), of now] show ?thesis by auto
qed

lemma calls_refine:
  assumes "inv s" and "\<And>x. SetCall x \<in> set cs \<Longrightarrow> storable s x"
  shows "fst (run_calls (session_step get put delete deleteByUser cleanup) cs s) =
      fst (run_calls map_step cs (contents s)) \<and>
    inv (snd (run_calls (session_step get put delete deleteByUser cleanup) cs s)) \<and>
    contents (snd (run_calls (session_step get put delete deleteByUser cleanup) cs s)) =
      snd (run_calls map_step cs (contents s))"
  using assms
proof (induction cs arbitrary: s)
  case (Cons c cs)
  obtain s' where s': "session_step get put delete deleteByUser cleanup c s =
        (fst (map_step c (contents s)), s')" "inv s'" "storable s' = storable s"
      "contents s' = snd (map_step c (contents s))"
    using step_refines [OF Cons.prems(1), of c] Cons.prems(2) by auto
  with Cons.IH [of s'] Cons.prems(2) show ?case by (simp add: split_def)
qed simp

end

section \<open>The in-memory store\<close>

definition visits :: "((string \<rightharpoonup> 'v) \<Rightarrow> string list) \<Rightarrow> bool" where
  "visits v \<longleftrightarrow> (\<forall>m. finite (dom m) \<longrightarrow> enumerates (v m) m)"

definition keyed_by_token :: "(string \<rightharpoonup> Session) \<Rightarrow> bool" where
  "keyed_by_token m \<longleftrightarrow> (\<forall>t x. m t = Some x \<longrightarrow> Token x = t)"

definition mem_inv :: "((string \<rightharpoonup> Session) \<Rightarrow> string list) \<Rightarrow> MemorySessionStore \<Rightarrow> bool" where
  "mem_inv v m \<longleftrightarrow> visits v \<and> finite (dom (sessions m)) \<and> keyed_by_token (sessions m)"

lemma keyed_by_token_upd:
  "keyed_by_token m \<Longrightarrow> keyed_by_token (m(Token x \<mapsto> x))"
  "keyed_by_token m \<Longrightarrow> keyed_by_token (m(t := None))"
  "keyed_by_token m \<Longrightarrow> keyed_by_token (drop_where p m)"
  by (auto simp: keyed_by_token_def drop_where_Some)

lemma finite_drop_where: "finite (dom m) \<Longrightarrow> finite (dom (drop_where p m))"
  by (simp add: dom_drop_where)

lemma DeleteFunc_distinct:
  "distinct ks \<Longrightarrow> DeleteFunc ks (\<lambda>k v. p v) m =
     (card (set ks \<inter> keys_where p m), \<lambda>k. if k \<in> set ks then drop_where p m k else m k)"
proof (induction ks arbitrary: m)
  case (Cons k ks)
  then have k: "k \<notin> set ks" "distinct ks" by auto
  show ?case
  proof (cases "k \<in> keys_where p m")
    case True
    then obtain v where v: "m k = Some v" "p v" by (auto simp: keys_where_def)
    have "set ks \<inter> keys_where p (m(k := None)) = set ks \<inter> keys_where p m"
      using k by (auto simp: keys_where_def)
    moreover have "set (k # ks) \<inter> keys_where p m = insert k (set ks \<inter> keys_where p m)"
      using True by auto
    moreover have "(\<lambda>j. if j \<in> set ks then drop_where p (m(k := None)) j else (m(k := None)) j) =
        (\<lambda>j. if j \<in> set (k # ks) then drop_where p m j else m j)"
      using k v by (auto simp: drop_where_def fun_eq_iff)
    ultimately show ?thesis using Cons.IH [OF k(2), of "m(k := None)"] k v
      by (simp del: fun_upd_apply)
  next
    case False
    have "set (k # ks) \<inter> keys_where p m = set ks \<inter> keys_where p m" using False by auto
    moreover have "drop_where p m k = m k"
      using False by (auto simp: drop_where_def keys_where_def split: option.splits)
    then have "(\<lambda>j. if j \<in> set ks then drop_where p m j else m j) =
        (\<lambda>j. if j \<in> set (k # ks) then drop_where p m j else m j)"
      by (auto simp: fun_eq_iff)
    ultimately show ?thesis
      using Cons.IH [OF k(2), of m] False by (auto simp: keys_where_def split: option.splits)
  qed
qed (simp add: keys_where_def)

lemma DeleteFunc_enumerates:
  assumes "enumerates ks m"
  shows "DeleteFunc ks (\<lambda>k v. p v) m = (card (keys_where p m), drop_where p m)"
proof -
  from assms have "distinct ks" and ks: "set ks = dom m" by (auto simp: enumerates_def)
  moreover have "set ks \<inter> keys_where p m = keys_where p m"
    using ks keys_where_subset by fastforce
  moreover have "(\<lambda>k. if k \<in> set ks then drop_where p m k else m k) = drop_where p m"
    unfolding ks by (auto simp: fun_eq_iff drop_where_def split: option.splits)
  ultimately show ?thesis using DeleteFunc_distinct [of ks p m] by simp
qed

lemma mem_visit: "mem_inv v m \<Longrightarrow> enumerates (v (sessions m)) (sessions m)"
  by (simp add: mem_inv_def visits_def)

interpretation mem: session_store mem_Get mem_Set mem_Delete
    "\<lambda>u m. mem_DeleteByUser (v (sessions m)) u m" "\<lambda>now m. mem_Cleanup (v (sessions m)) now m"
    sessions "\<lambda>_ _. True" "mem_inv v"
  for v
proof
  fix m t x u now
  assume m: "mem_inv v m"
  note upd = keyed_by_token_upd finite_drop_where
  show "mem_Get m t = (case sessions m t of None \<Rightarrow> Inl ErrSessionNotFound | Some x \<Rightarrow> Inr x)"
    by (simp add: mem_Get_def)
  show "\<exists>s'. mem_Set x m = (None, s') \<and> mem_inv v s' \<and>
      (\<lambda>_ :: Session. True) = (\<lambda>_. True) \<and> sessions s' = (sessions m)(Token x \<mapsto> x)"
    using m by (auto simp: mem_Set_def mem_inv_def upd)
  show "sessions m t = None \<Longrightarrow> mem_Delete t m = (Some ErrSessionNotFound, m)"
    using m by (simp add: mem_Delete_def)
  show "sessions m t = Some x \<Longrightarrow> \<exists>s'. mem_Delete t m = (None, s') \<and> mem_inv v s' \<and>
      (\<lambda>_ :: Session. True) = (\<lambda>_. True) \<and> sessions s' = (sessions m)(t := None)"
    using m by (auto simp: mem_Delete_def mem_inv_def upd)
  show "\<exists>s'. mem_DeleteByUser (v (sessions m)) u m = (None, s') \<and> mem_inv v s' \<and>
      (\<lambda>_ :: Session. True) = (\<lambda>_. True) \<and> sessions s' = drop_where (\<lambda>x. UserID x = u) (sessions m)"
    using m by (simp add: mem_DeleteByUser_def DeleteFunc_enumerates [OF mem_visit [OF m]] mem_inv_def upd)
  show "\<exists>s'. mem_Cleanup (v (sessions m)) now m =
        (card (keys_where (\<lambda>x. After now (ExpiresAt x)) (sessions m)), None, s') \<and> mem_inv v s' \<and>
      (\<lambda>_ :: Session. True) = (\<lambda>_. True) \<and> sessions s' = drop_where (\<lambda>x. After now (ExpiresAt x)) (sessions m)"
    using m by (simp add: mem_Cleanup_def DeleteFunc_enumerates [OF mem_visit [OF m]] mem_inv_def upd)
  show "sessions m t = Some x \<Longrightarrow> Token x = t"
    using m by (auto simp: mem_inv_def keyed_by_token_def)
qed

text \<open>The in-memory store is also a keyed store in the sense of the agent registry's contract.\<close>

interpretation memory: keyed_store sessions
    "\<lambda>x m. case mem_Set x m of (None, m') \<Rightarrow> Inr m' | (Some e, _) \<Rightarrow> Inl e"
    "\<lambda>t m. snd (mem_Delete t m)" "\<lambda>_. True" Token "\<lambda>x. x" "\<lambda>_. True"
  by unfold_locales (auto simp: mem_Set_def mem_Delete_def fun_eq_iff split: option.splits)

section \<open>The SQLite store\<close>

text \<open>
  The documented behaviour of the key-value store when no operation fails: a get returns what was
  last set and not deleted, a failing get is a missing key, and GetAll lists a group's rows.
\<close>

definition kv_sound :: "'k kv_lib \<Rightarrow> bool" where
  "kv_sound lib \<longleftrightarrow>
     (\<forall>db g t e. kv_Get lib db g t = Inl e \<longrightarrow> is_NotFound lib e) \<and>
     (\<forall>db g t v. fst (kv_Set lib g t v db) = None \<and>
        (\<forall>g' t'. kv_Get lib (snd (kv_Set lib g t v db)) g' t' =
           (if g' = g \<and> t' = t then Inr v else kv_Get lib db g' t'))) \<and>
     (\<forall>db g t. ok (kv_Get lib db g t) \<longrightarrow> fst (kv_Delete lib g t db) = None \<and>
        (\<forall>g' t'. if g' = g \<and> t' = t then \<not> ok (kv_Get lib (snd (kv_Delete lib g t db)) g' t')
           else kv_Get lib (snd (kv_Delete lib g t db)) g' t' = kv_Get lib db g' t')) \<and>
     (\<forall>db g. \<exists>rows. kv_GetAll lib db g = Inr rows \<and> distinct (map fst rows) \<and>
        (\<forall>t v. (t, v) \<in> set rows \<longleftrightarrow> kv_Get lib db g t = Inr v))"

definition row :: "'k kv_lib \<Rightarrow> 'k \<Rightarrow> string \<rightharpoonup> string" where
  "row lib db t = (case kv_Get lib db sessionGroup t of Inl _ \<Rightarrow> None | Inr v \<Rightarrow> Some v)"

definition decoded :: "session_codec \<Rightarrow> string \<Rightarrow> Session option" where
  "decoded c v = (case unmarshal_session c v of Inl _ \<Rightarrow> None | Inr x \<Rightarrow> Some x)"

definition sql_contents :: "'k kv_lib \<Rightarrow> session_codec \<Rightarrow> 'k \<Rightarrow> string \<rightharpoonup> Session" where
  "sql_contents lib c db = (\<lambda>t. Option.bind (row lib db t) (decoded c))"

text \<open>A session survives its encoding; every row is a session filed under its own token.\<close>

definition sql_storable :: "session_codec \<Rightarrow> Session \<Rightarrow> bool" where
  "sql_storable c x \<longleftrightarrow>
     (case marshal_session c x of Inl _ \<Rightarrow> False | Inr v \<Rightarrow> unmarshal_session c v = Inr x)"

definition sql_inv :: "'k kv_lib \<Rightarrow> session_codec \<Rightarrow> 'k \<Rightarrow> bool" where
  "sql_inv lib c db \<longleftrightarrow> kv_sound lib \<and>
     (\<forall>t v. row lib db t = Some v \<longrightarrow> (\<exists>x. decoded c v = Some x \<and> Token x = t))"

lemma row_simps:
  "row lib db t = Some v \<longleftrightarrow> kv_Get lib db sessionGroup t = Inr v"
  "row lib db t = None \<longleftrightarrow> \<not> ok (kv_Get lib db sessionGroup t)"
  by (cases "kv_Get lib db sessionGroup t"; simp add: row_def)+

lemma decoded_Some: "decoded c v = Some x \<longleftrightarrow> unmarshal_session c v = Inr x"
  by (simp add: decoded_def split: sum.splits)

lemma kv_Set_row:
  assumes "kv_sound lib"
  shows "fst (kv_Set lib sessionGroup t v db) = None \<and>
    row lib (snd (kv_Set lib sessionGroup t v db)) = (row lib db)(t \<mapsto> v)"
  using assms by (auto simp: kv_sound_def row_def fun_eq_iff)

lemma kv_Delete_row:
  assumes "kv_sound lib" and "row lib db t = Some v"
  shows "fst (kv_Delete lib sessionGroup t db) = None \<and>
    row lib (snd (kv_Delete lib sessionGroup t db)) = (row lib db)(t := None)"
proof -
  from assms(2) have "ok (kv_Get lib db sessionGroup t)" by (auto simp: row_def split: sum.splits)
  with assms(1) have d: "fst (kv_Delete lib sessionGroup t db) = None"
      "\<forall>g' t'. if g' = sessionGroup \<and> t' = t
         then \<not> ok (kv_Get lib (snd (kv_Delete lib sessionGroup t db)) g' t')
         else kv_Get lib (snd (kv_Delete lib sessionGroup t db)) g' t' = kv_Get lib db g' t'"
    unfolding kv_sound_def by blast+
  have "row lib (snd (kv_Delete lib sessionGroup t db)) t' = ((row lib db)(t := None)) t'" for t'
    using d(2) [THEN spec, THEN spec, of sessionGroup t']
    by (cases "t' = t") (auto simp: row_def split: sum.splits)
  with d(1) show ?thesis by (simp add: fun_eq_iff)
qed

lemma kv_GetAll_rows:
  assumes "kv_sound lib"
  shows "\<exists>rows. kv_GetAll lib db sessionGroup = Inr rows \<and> distinct (map fst rows) \<and>
    (\<forall>t v. (t, v) \<in> set rows \<longleftrightarrow> row lib db t = Some v)"
  using assms unfolding kv_sound_def row_simps by blast

definition hit :: "session_codec \<Rightarrow> (Session \<Rightarrow> bool) \<Rightarrow> string \<Rightarrow> bool" where
  "hit c p v \<longleftrightarrow> (case decoded c v of None \<Rightarrow> False | Some x \<Rightarrow> p x)"

lemma hit_iff: "hit c p v \<longleftrightarrow> (\<exists>x. decoded c v = Some x \<and> p x)"
  by (simp add: hit_def split: option.splits)

lemma sql_delete_where_rows:
  assumes "kv_sound lib" and "distinct (map fst rows)"
    and "\<And>t v. (t, v) \<in> set rows \<Longrightarrow> row lib db t = Some v"
  shows "\<exists>db'. sql_delete_where lib c p rows n db =
       (n + length (filter (\<lambda>(t, v). hit c p v) rows), None, db') \<and>
     row lib db' = (\<lambda>t. if \<exists>v. (t, v) \<in> set rows \<and> hit c p v then None else row lib db t)"
  using assms(2,3)
proof (induction rows arbitrary: n db)
  case (Cons r rows)
  obtain t v where r: "r = (t, v)" by (cases r)
  from Cons.prems(1) have t: "t \<notin> fst ` set rows" and dist: "distinct (map fst rows)"
    by (auto simp: r)
  have row_t: "row lib db t = Some v" using Cons.prems(2) by (simp add: r)
  show ?case
  proof (cases "hit c p v")
    case True
    then obtain x where x: "unmarshal_session c v = Inr x" "p x"
      by (auto simp: hit_def decoded_Some split: option.splits)
    define d where "d = snd (kv_Delete lib sessionGroup t db)"
    have d: "kv_Delete lib sessionGroup t db = (None, d)" "row lib d = (row lib db)(t := None)"
      using kv_Delete_row [OF assms(1) row_t] by (simp_all add: d_def prod_eq_iff)
    have "row lib d t' = Some v'" if "(t', v') \<in> set rows" for t' v'
    proof -
      have "t' \<noteq> t" using t that by force
      then show ?thesis using Cons.prems(2) [of t' v'] that d(2) by simp
    qed
    then obtain db' where "sql_delete_where lib c p rows (n + 1) d =
          (n + 1 + length (filter (\<lambda>(t, v). hit c p v) rows), None, db')"
        "row lib db' = (\<lambda>t. if \<exists>v. (t, v) \<in> set rows \<and> hit c p v then None else row lib d t)"
      using Cons.IH [OF dist, of d "n + 1"] by blast
    moreover have "sql_delete_where lib c p (r # rows) n db = sql_delete_where lib c p rows (n + 1) d"
      using x d(1) by (simp add: r)
    moreover have "(\<lambda>t'. if \<exists>v. (t', v) \<in> set rows \<and> hit c p v then None else row lib d t') =
        (\<lambda>t'. if \<exists>v. (t', v) \<in> set (r # rows) \<and> hit c p v then None else row lib db t')"
      using True unfolding d(2) by (rule_tac ext) (auto simp: r)
    ultimately show ?thesis using True r by (intro exI [of _ db']) simp
  next
    case False
    have skip: "sql_delete_where lib c p (r # rows) n db = sql_delete_where lib c p rows n db"
      using False by (auto simp: r hit_def decoded_def split: sum.splits)
    obtain db' where "sql_delete_where lib c p rows n db =
          (n + length (filter (\<lambda>(t, v). hit c p v) rows), None, db')"
        "row lib db' = (\<lambda>t. if \<exists>v. (t, v) \<in> set rows \<and> hit c p v then None else row lib db t)"
      using Cons.IH [OF dist, of db n] Cons.prems(2) by auto
    moreover have "(\<lambda>t'. if \<exists>v. (t', v) \<in> set rows \<and> hit c p v then None else row lib db t') =
        (\<lambda>t'. if \<exists>v. (t', v) \<in> set (r # rows) \<and> hit c p v then None else row lib db t')"
      using False by (rule_tac ext) (auto simp: r)
    ultimately show ?thesis using False skip r by (intro exI [of _ db']) simp
  qed
qed simp

lemma sql_delete_all_where:
  assumes inv: "sql_inv lib c db"
    and rows: "kv_GetAll lib db sessionGroup = Inr rows" "distinct (map fst rows)"
      "\<And>t v. (t, v) \<in> set rows \<longleftrightarrow> row lib db t = Some v"
  shows "\<exists>db'. sql_delete_where lib c p rows 0 db =
       (card (keys_where p (sql_contents lib c db)), None, db') \<and> sql_inv lib c db' \<and>
     sql_contents lib c db' = drop_where p (sql_contents lib c db)"
proof -
  from inv have lib: "kv_sound lib" by (simp add: sql_inv_def)
  obtain db' where db': "sql_delete_where lib c p rows 0 db =
        (length (filter (\<lambda>(t, v). hit c p v) rows), None, db')"
      "row lib db' = (\<lambda>t. if \<exists>v. (t, v) \<in> set rows \<and> hit c p v then None else row lib db t)"
    using sql_delete_where_rows [OF lib rows(2), of db c p 0] rows(3) by auto
  have "distinct (map fst (filter (\<lambda>(t, v). hit c p v) rows))"
    using rows(2) by (simp add: distinct_map_filter)
  then have "length (filter (\<lambda>(t, v). hit c p v) rows) =
      card (fst ` set (filter (\<lambda>(t, v). hit c p v) rows))"
    by (metis distinct_card length_map set_map)
  also have "fst ` set (filter (\<lambda>(t, v). hit c p v) rows) = keys_where p (sql_contents lib c db)"
  proof (rule set_eqI)
    fix t
    have "t \<in> fst ` set (filter (\<lambda>(t, v). hit c p v) rows) \<longleftrightarrow>
        (\<exists>v. (t, v) \<in> set rows \<and> hit c p v)" by force
    also have "\<dots> \<longleftrightarrow> t \<in> keys_where p (sql_contents lib c db)"
      by (auto simp: rows(3) hit_iff keys_where_def sql_contents_def bind_eq_Some_conv)
    finally show "t \<in> fst ` set (filter (\<lambda>(t, v). hit c p v) rows) \<longleftrightarrow>
        t \<in> keys_where p (sql_contents lib c db)" .
  qed
  finally have n: "length (filter (\<lambda>(t, v). hit c p v) rows) =
      card (keys_where p (sql_contents lib c db))" .
  have "sql_contents lib c db' = drop_where p (sql_contents lib c db)"
  proof
    fix t
    show "sql_contents lib c db' t = drop_where p (sql_contents lib c db) t"
      unfolding sql_contents_def db'(2) rows(3)
      by (cases "row lib db t") (auto simp: drop_where_def hit_def split: option.splits)
  qed
  moreover have "sql_inv lib c db'"
    using inv unfolding sql_inv_def db'(2) by (auto split: if_splits)
  ultimately show ?thesis using db'(1) n by auto
qed

interpretation sql: session_store "sql_Get lib c" "sql_Set lib c" "sql_Delete lib"
    "sql_DeleteByUser lib c" "sql_Cleanup lib c" "sql_contents lib c" "\<lambda>_. sql_storable c" "sql_inv lib c"
  for lib c
proof
  fix db t x u now
  assume inv: "sql_inv lib c db"
  then have lib: "kv_sound lib" by (simp add: sql_inv_def)
  have nf: "is_NotFound lib e" if "kv_Get lib db sessionGroup t = Inl e" for e
    using lib that by (auto simp: kv_sound_def)
  obtain rows where rows: "kv_GetAll lib db sessionGroup = Inr rows" "distinct (map fst rows)"
      "\<And>t v. (t, v) \<in> set rows \<longleftrightarrow> row lib db t = Some v"
    using kv_GetAll_rows [OF lib] by blast
  show "sql_Get lib c db t =
      (case sql_contents lib c db t of None \<Rightarrow> Inl ErrSessionNotFound | Some x \<Rightarrow> Inr x)"
    using inv nf
    by (auto simp: sql_Get_def sql_contents_def sql_inv_def row_def decoded_def split: sum.splits)
  show "\<exists>s'. sql_Set lib c x db = (None, s') \<and> sql_inv lib c s' \<and> sql_storable c = sql_storable c \<and>
      sql_contents lib c s' = (sql_contents lib c db)(Token x \<mapsto> x)" if st: "sql_storable c x"
  proof -
    obtain v where v: "marshal_session c x = Inr v" "decoded c v = Some x"
      using st by (cases "marshal_session c x") (auto simp: sql_storable_def decoded_Some)
    note r = kv_Set_row [OF lib, of "Token x" v db]
    have "sql_inv lib c (snd (kv_Set lib sessionGroup (Token x) v db))"
      using inv v r by (auto simp: sql_inv_def)
    moreover have "sql_contents lib c (snd (kv_Set lib sessionGroup (Token x) v db)) =
        (sql_contents lib c db)(Token x \<mapsto> x)"
      using v r by (auto simp: sql_contents_def fun_eq_iff)
    ultimately show ?thesis using v r
      by (intro exI [of _ "snd (kv_Set lib sessionGroup (Token x) v db)"])
         (simp add: sql_Set_def prod_eq_iff)
  qed
  show "sql_Delete lib t db = (Some ErrSessionNotFound, db)" if "sql_contents lib c db t = None"
    using inv nf that
    by (auto simp: sql_Delete_def sql_contents_def sql_inv_def row_def decoded_def split: sum.splits)
  show "\<exists>s'. sql_Delete lib t db = (None, s') \<and> sql_inv lib c s' \<and> sql_storable c = sql_storable c \<and>
      sql_contents lib c s' = (sql_contents lib c db)(t := None)" if st: "sql_contents lib c db t = Some x"
  proof -
    obtain v where v: "row lib db t = Some v"
      using st by (auto simp: sql_contents_def bind_eq_Some_conv)
    note r = kv_Delete_row [OF lib v]
    have "sql_inv lib c (snd (kv_Delete lib sessionGroup t db))"
      using inv r by (auto simp: sql_inv_def)
    moreover have "sql_contents lib c (snd (kv_Delete lib sessionGroup t db)) =
        (sql_contents lib c db)(t := None)"
      using r by (auto simp: sql_contents_def fun_eq_iff)
    ultimately show ?thesis using v r
      by (intro exI [of _ "snd (kv_Delete lib sessionGroup t db)"])
         (simp add: sql_Delete_def prod_eq_iff row_simps)
  qed
  show "\<exists>s'. sql_DeleteByUser lib c u db = (None, s') \<and> sql_inv lib c s' \<and>
      sql_storable c = sql_storable c \<and>
      sql_contents lib c s' = drop_where (\<lambda>x. UserID x = u) (sql_contents lib c db)"
    using sql_delete_all_where [OF inv rows, of "\<lambda>x. UserID x = u"] rows(1)
    by (auto simp: sql_DeleteByUser_def)
  show "\<exists>s'. sql_Cleanup lib c now db =
        (card (keys_where (\<lambda>x. After now (ExpiresAt x)) (sql_contents lib c db)), None, s') \<and>
      sql_inv lib c s' \<and> sql_storable c = sql_storable c \<and>
      sql_contents lib c s' = drop_where (\<lambda>x. After now (ExpiresAt x)) (sql_contents lib c db)"
    using sql_delete_all_where [OF inv rows, of "\<lambda>x. After now (ExpiresAt x)"] rows(1)
    by (auto simp: sql_Cleanup_def)
  show "Token x = t" if "sql_contents lib c db t = Some x"
    using inv that by (force simp: sql_inv_def sql_contents_def bind_eq_Some_conv)
qed

section \<open>Dispatch through the interface\<close>

fun store_contents :: "'k session_env \<Rightarrow> 'k SessionStore \<Rightarrow> string \<rightharpoonup> Session" where
  "store_contents env (Memory m) = sessions m"
| "store_contents env (SQLite db) = sql_contents (kvlib env) (codec env) db"

fun store_storable :: "'k session_env \<Rightarrow> 'k SessionStore \<Rightarrow> Session \<Rightarrow> bool" where
  "store_storable env (Memory m) = (\<lambda>_. True)"
| "store_storable env (SQLite db) = sql_storable (codec env)"

fun store_inv :: "'k session_env \<Rightarrow> 'k SessionStore \<Rightarrow> bool" where
  "store_inv env (Memory m) = mem_inv (visit env) m"
| "store_inv env (SQLite db) = sql_inv (kvlib env) (codec env) db"

interpretation store: session_store "store_Get env" "store_Set env" "store_Delete env"
    "store_DeleteByUser env" "store_Cleanup env" "store_contents env" "store_storable env" "store_inv env"
  for env
proof
  fix s t x u now
  assume inv: "store_inv env s"
  show "store_Get env s t =
      (case store_contents env s t of None \<Rightarrow> Inl ErrSessionNotFound | Some x \<Rightarrow> Inr x)"
    using inv by (cases s) (simp_all add: mem.get_contents sql.get_contents)
  show "\<exists>s'. store_Set env x s = (None, s') \<and> store_inv env s' \<and>
      store_storable env s' = store_storable env s \<and>
      store_contents env s' = (store_contents env s)(Token x \<mapsto> x)" if "store_storable env s x"
  proof (cases s)
    case (Memory m)
    with inv that mem.put_contents [of "visit env" m x] show ?thesis by fastforce
  next
    case (SQLite db)
    with inv that sql.put_contents [of "kvlib env" "codec env" db x] show ?thesis by fastforce
  qed
  show "store_Delete env t s = (Some ErrSessionNotFound, s)" if "store_contents env s t = None"
    using inv that by (cases s) (simp_all add: mem.delete_missing sql.delete_missing)
  show "\<exists>s'. store_Delete env t s = (None, s') \<and> store_inv env s' \<and>
      store_storable env s' = store_storable env s \<and>
      store_contents env s' = (store_contents env s)(t := None)" if "store_contents env s t = Some x"
  proof (cases s)
    case (Memory m)
    with inv that mem.delete_present [of "visit env" m t x] show ?thesis by fastforce
  next
    case (SQLite db)
    with inv that sql.delete_present [of "kvlib env" "codec env" db t x] show ?thesis by fastforce
  qed
  show "\<exists>s'. store_DeleteByUser env u s = (None, s') \<and> store_inv env s' \<and>
      store_storable env s' = store_storable env s \<and>
      store_contents env s' = drop_where (\<lambda>x. UserID x = u) (store_contents env s)"
  proof (cases s)
    case (Memory m)
    with inv mem.delete_by_user [of "visit env" m u] show ?thesis by fastforce
  next
    case (SQLite db)
    with inv sql.delete_by_user [of "kvlib env" "codec env" db u] show ?thesis by fastforce
  qed
  show "\<exists>s'. store_Cleanup env now s =
        (card (keys_where (\<lambda>x. After now (ExpiresAt x)) (store_contents env s)), None, s') \<and>
      store_inv env s' \<and> store_storable env s' = store_storable env s \<and>
      store_contents env s' = drop_where (\<lambda>x. After now (ExpiresAt x)) (store_contents env s)"
  proof (cases s)
    case (Memory m)
    with inv mem.cleanup_contents [of "visit env" m now] show ?thesis by fastforce
  next
    case (SQLite db)
    with inv sql.cleanup_contents [of "kvlib env" "codec env" db now] show ?thesis by fastforce
  qed
  show "store_contents env s t = Some x \<Longrightarrow> Token x = t"
    using inv by (cases s) (auto intro: mem.token_key sql.token_key)
qed

definition store_call ::
  "'k session_env \<Rightarrow> session_call \<Rightarrow> 'k SessionStore \<Rightarrow> session_reply \<times> 'k SessionStore" where
  "store_call env = session_step (store_Get env) (store_Set env) (store_Delete env)
     (store_DeleteByUser env) (store_Cleanup env)"

section \<open>Concrete environments\<close>

text \<open>A key-value store kept as a list of rows, a text codec, and an order of visiting a map.\<close>

type_synonym rows = "((string \<times> string) \<times> string) list"

definition list_kv :: "rows kv_lib" where
  "list_kv =
     \<lparr>kv_New = (\<lambda>_. Inr []),
      kv_Get = (\<lambda>db g t. case map_of db (g, t) of None \<Rightarrow> Inl (Ext ''not found'') | Some v \<Rightarrow> Inr v),
      kv_Set = (\<lambda>g t v db. (None, ((g, t), v) # db)),
      kv_Delete = (\<lambda>g t db. (None, filter (\<lambda>r. fst r \<noteq> (g, t)) db)),
      kv_GetAll = (\<lambda>db g. Inr (map (\<lambda>t. (t, the (map_of db (g, t))))
        (remdups (map (snd \<circ> fst) (filter (\<lambda>r. fst (fst r) = g) db))))),
      kv_Close = (\<lambda>_. None), is_NotFound = (\<lambda>e. e = Ext ''not found'')\<rparr>"

definition text_codec :: session_codec where
  "text_codec =
     \<lparr>marshal_session = (\<lambda>x. Inr (Join ''|'' [Token x, UserID x, itoa (ExpiresAt x)])),
      unmarshal_session = (\<lambda>v. case Split v CHR ''|'' of
        [t, u, e] \<Rightarrow> (case Atoi e of Inl err \<Rightarrow> Inl err
          | Inr i \<Rightarrow> Inr \<lparr>Token = t, UserID = u, ExpiresAt = i\<rparr>)
      | _ \<Rightarrow> Inl (Ext ''unexpected end of JSON input''))\<rparr>"

definition some_visit :: "(string \<rightharpoonup> 'v) \<Rightarrow> string list" where
  "some_visit m = (SOME ks. enumerates ks m)"

definition list_env :: "rows session_env" where
  "list_env = \<lparr>visit = some_visit, kvlib = list_kv, codec = text_codec\<rparr>"

lemma some_visit_visits: "visits some_visit"
  unfolding visits_def some_visit_def by (auto intro: someI_ex enumerates_exists)

lemma map_of_filter_key:
  "map_of (filter (\<lambda>r. fst r \<noteq> k) db) = (map_of db)(k := None)"
  by (induction db) auto

definition group_keys :: "rows \<Rightarrow> string \<Rightarrow> string list" where
  "group_keys db g = remdups (map (snd \<circ> fst) (filter (\<lambda>r. fst (fst r) = g) db))"

lemma group_keys: "t \<in> set (group_keys db g) \<longleftrightarrow> (\<exists>v. map_of db (g, t) = Some v)"
proof -
  have "t \<in> set (group_keys db g) \<longleftrightarrow> (g, t) \<in> fst ` set db"
    by (force simp: group_keys_def image_iff)
  also have "\<dots> \<longleftrightarrow> map_of db (g, t) \<noteq> None" by (simp add: map_of_eq_None_iff)
  finally show ?thesis by simp
qed

lemma list_kv_sound: "kv_sound list_kv"
  unfolding kv_sound_def
proof (intro conjI allI impI)
  fix db :: rows and g t v e g' t'
  show "kv_Get list_kv db g t = Inl e \<Longrightarrow> is_NotFound list_kv e"
    by (auto simp: list_kv_def split: option.splits)
  show "fst (kv_Set list_kv g t v db) = None" by (simp add: list_kv_def)
  show "kv_Get list_kv (snd (kv_Set list_kv g t v db)) g' t' =
      (if g' = g \<and> t' = t then Inr v else kv_Get list_kv db g' t')"
    by (simp add: list_kv_def)
  show "fst (kv_Delete list_kv g t db) = None" by (simp add: list_kv_def)
  show "if g' = g \<and> t' = t then \<not> ok (kv_Get list_kv (snd (kv_Delete list_kv g t db)) g' t')
      else kv_Get list_kv (snd (kv_Delete list_kv g t db)) g' t' = kv_Get list_kv db g' t'"
    by (auto simp: list_kv_def map_of_filter_key)
  show "\<exists>rows. kv_GetAll list_kv db g = Inr rows \<and> distinct (map fst rows) \<and>
      (\<forall>t v. (t, v) \<in> set rows \<longleftrightarrow> kv_Get list_kv db g t = Inr v)"
  proof (intro exI [of _ "map (\<lambda>t. (t, the (map_of db (g, t)))) (group_keys db g)"] conjI allI)
    show "kv_GetAll list_kv db g = Inr (map (\<lambda>t. (t, the (map_of db (g, t)))) (group_keys db g))"
      by (simp add: list_kv_def group_keys_def)
    show "distinct (map fst (map (\<lambda>t. (t, the (map_of db (g, t)))) (group_keys db g)))"
      by (simp add: comp_def group_keys_def)
    show "(t, v) \<in> set (map (\<lambda>t. (t, the (map_of db (g, t)))) (group_keys db g)) \<longleftrightarrow>
        kv_Get list_kv db g t = Inr v" for t v
      using group_keys [of t db g] by (auto simp: list_kv_def split: option.splits)
  qed
qed

lemma list_env_inv: "store_inv list_env (Memory NewMemorySessionStore)" "store_inv list_env (SQLite [])"
  using some_visit_visits list_kv_sound
  by (simp_all add: list_env_def mem_inv_def NewMemorySessionStore_def keyed_by_token_def
    sql_inv_def row_def list_kv_def)

definition session_a :: Session where
  "session_a = \<lparr>Token = ''t1'', UserID = ''alice'', ExpiresAt = 50\<rparr>"

lemma session_a_storable: "store_storable list_env s session_a"
  by (cases s) (simp_all add: list_env_def sql_storable_def text_codec_def session_a_def itoa_def
    nat_to_dec.simps Atoi_def digit_val_def)

section \<open>Properties of the stores\<close>

text \<open>
  C15.  The in-memory and the SQLite store are interchangeable: two stores, of either kind, with
  the same contents answer every history of calls alike and end with the same contents, when the
  key-value store does not fail and the sessions survive their encoding.
\<close>

theorem session_stores_agree:
  assumes "store_inv env s" and "store_inv env s'"
    and "store_contents env s = store_contents env s'"
    and "\<And>x. SetCall x \<in> set calls \<Longrightarrow> store_storable env s x \<and> store_storable env s' x"
  shows "fst (run_calls (store_call env) calls s) = fst (run_calls (store_call env) calls s') \<and>
    store_contents env (snd (run_calls (store_call env) calls s)) =
      store_contents env (snd (run_calls (store_call env) calls s'))"
  using store.calls_refine [OF assms(1), of calls] store.calls_refine [OF assms(2), of calls] assms(3,4)
  unfolding store_call_def by simp

theorem session_stores_agree_witness:
  "fst (run_calls (store_call list_env) [SetCall session_a, GetCall ''t1'', CleanupCall 60, GetCall ''t1'']
       (Memory NewMemorySessionStore)) =
   fst (run_calls (store_call list_env) [SetCall session_a, GetCall ''t1'', CleanupCall 60, GetCall ''t1'']
       (SQLite []))"
proof -
  have "store_contents list_env (Memory NewMemorySessionStore) = store_contents list_env (SQLite [])"
    by (simp add: NewMemorySessionStore_def sql_contents_def row_def list_env_def list_kv_def)
  then show ?thesis
  proof (rule session_stores_agree [THEN conjunct1, OF list_env_inv])
    fix x
    assume "SetCall x \<in> set [SetCall session_a, GetCall ''t1'', CleanupCall 60, GetCall ''t1'']"
    then have "x = session_a" by simp
    then show "store_storable list_env (Memory NewMemorySessionStore) x \<and>
        store_storable list_env (SQLite []) x"
      by (simp only: session_a_storable)
  qed
qed

text \<open>
  Cleanup removes exactly the sessions whose expiry has passed, reports how many, and leaves
  nothing for a second cleanup at the same instant.
\<close>

theorem cleanup_removes_the_expired:
  assumes "store_inv env s" and "store_Cleanup env now s = (n, e, s')"
  shows "e = None \<and>
    n = card {t. \<exists>x. store_Get env s t = Inr x \<and> After now (ExpiresAt x)} \<and>
    (\<forall>t x. store_Get env s' t = Inr x \<longleftrightarrow> store_Get env s t = Inr x \<and> \<not> After now (ExpiresAt x)) \<and>
    fst (store_Cleanup env now s') = 0"
proof -
  have "{t. \<exists>x. store_Get env s t = Inr x \<and> After now (ExpiresAt x)} =
      keys_where (\<lambda>x. After now (ExpiresAt x)) (store_contents env s)"
    using store.get_Inr [OF assms(1)] by (simp add: keys_where_def)
  then show ?thesis
    using store.cleanup_contents [OF assms(1), of now] store.get_after_cleanup [OF assms(1), of now]
      store.cleanup_twice [OF assms(1), of now] assms(2) by auto
qed

theorem cleanup_removes_the_expired_witness:
  "fst (store_Cleanup list_env 60 (Memory NewMemorySessionStore)) =
     card {t. \<exists>x. store_Get list_env (Memory NewMemorySessionStore) t = Inr x \<and> After 60 (ExpiresAt x)}"
proof -
  obtain n e s' where c: "store_Cleanup list_env 60 (Memory NewMemorySessionStore) = (n, e, s')"
    using prod_cases3 by blast
  from cleanup_removes_the_expired [OF list_env_inv(1) c] c show ?thesis by simp
qed

end
