(* ===== verification/Auth.thy ===== *)
theory Auth
  imports Sessions Pgp Symmetric
begin

text \<open>
  \<^verbatim>\<open>go/auth/auth.go\<close>: registration, challenge-response and password authentication, sessions,
  deletion, rotation and revocation.  An operation takes the environment it runs in and the
  Authenticator, and returns its result with the Authenticator after it.  The environment holds the
  storage medium's methods, the libraries, and what the operation draws from the system: its clock
  (\<open>clock env i\<close> is the \<open>i\<close>-th reading of \<^verbatim>\<open>time.Now()\<close>) and its random bytes (one draw per length).
  A result is an option where a library call can panic.
\<close>

section \<open>Data\<close>

record User =
  user_PublicKey :: string
  user_KeyID :: string
  user_Fingerprint :: string
  user_PasswordHash :: string
  user_Created :: gotime
  user_LastLogin :: gotime

record Challenge =
  Nonce :: bytes
  EncryptedNonce :: string
  ch_ExpiresAt :: gotime

record Revocation =
  rev_UserID :: string
  rev_Reason :: string
  RevokedAt :: gotime

definition DefaultChallengeTTL :: int where "DefaultChallengeTTL = 5 * 60 * 10 ^ 9"
definition DefaultSessionTTL :: int where "DefaultSessionTTL = 24 * 3600 * 10 ^ 9"
definition nonceBytes :: nat where "nonceBytes = 32"

definition protectedUsers :: "string \<Rightarrow> bool" where
  "protectedUsers u \<longleftrightarrow> u = ''server''"

text \<open>The interface \<^verbatim>\<open>io.Medium\<close>, over its state \<open>'m\<close>.\<close>

record 'm medium_lib =
  IsFile :: "'m \<Rightarrow> string \<Rightarrow> bool"
  EnsureDir :: "string \<Rightarrow> 'm \<Rightarrow> err option \<times> 'm"
  med_Write :: "string \<Rightarrow> string \<Rightarrow> 'm \<Rightarrow> err option \<times> 'm"
  med_Read :: "'m \<Rightarrow> string \<Rightarrow> string res"
  med_Delete :: "string \<Rightarrow> 'm \<Rightarrow> err option \<times> 'm"

record ('m, 'k, 'p) auth_env =
  med :: "'m medium_lib"
  sess :: "'k session_env"
  pgp :: "'p openpgp_lib"
  argon :: argon2
  rnd :: rand
  clock :: "nat \<Rightarrow> gotime"
  lthn_Hash :: "string \<Rightarrow> string"
  marshal_user :: "User \<Rightarrow> string res"
  unmarshal_user :: "bytes \<Rightarrow> User res"
  marshal_rev :: "Revocation \<Rightarrow> string res"
  unmarshal_rev :: "string \<Rightarrow> Revocation res"
  marshal_challenge :: "Challenge \<Rightarrow> string res"

record ('m, 'k) Authenticator =
  medium :: 'm
  store :: "'k SessionStore"
  challenges :: "string \<rightharpoonup> Challenge"
  challengeTTL :: int
  sessionTTL :: int
  printed :: "(string \<times> err) list"

datatype 'k Option =
  WithChallengeTTL int | WithSessionTTL int | WithSessionStore "'k SessionStore option"

fun apply_option ::
  "'k Option \<Rightarrow> ('m, 'k) Authenticator \<times> 'k SessionStore option \<Rightarrow>
     ('m, 'k) Authenticator \<times> 'k SessionStore option" where
  "apply_option (WithChallengeTTL d) (a, s) = (a\<lparr>challengeTTL := d\<rparr>, s)"
| "apply_option (WithSessionTTL d) (a, s) = (a\<lparr>sessionTTL := d\<rparr>, s)"
| "apply_option (WithSessionStore s') (a, s) = (a, s')"

definition New :: "'m \<Rightarrow> 'k Option list \<Rightarrow> ('m, 'k) Authenticator" where
  "New m opts =
     (let a = \<lparr>medium = m, store = Memory NewMemorySessionStore, challenges = Map.empty,
               challengeTTL = DefaultChallengeTTL, sessionTTL = DefaultSessionTTL, printed = []\<rparr>
      in case fold apply_option opts (a, None) of
           (a', None) \<Rightarrow> a'\<lparr>store := Memory NewMemorySessionStore\<rparr>
         | (a', Some s) \<Rightarrow> a'\<lparr>store := s\<rparr>)"

definition userPath :: "string \<Rightarrow> string \<Rightarrow> string" where
  "userPath userID ext = ''users/'' @ userID @ ext"

section \<open>Medium and store, on the Authenticator\<close>

type_synonym ('m, 'k) auth = "('m, 'k) Authenticator"

definition file_write ::
  "('m, 'k, 'p) auth_env \<Rightarrow> string \<Rightarrow> string \<Rightarrow> ('m, 'k) auth \<Rightarrow> err option \<times> ('m, 'k) auth" where
  "file_write env path content a =
     (case med_Write (med env) path content (medium a) of (e, m) \<Rightarrow> (e, a\<lparr>medium := m\<rparr>))"

definition file_delete ::
  "('m, 'k, 'p) auth_env \<Rightarrow> string \<Rightarrow> ('m, 'k) auth \<Rightarrow> err option \<times> ('m, 'k) auth" where
  "file_delete env path a =
     (case med_Delete (med env) path (medium a) of (e, m) \<Rightarrow> (e, a\<lparr>medium := m\<rparr>))"

definition file_read :: "('m, 'k, 'p) auth_env \<Rightarrow> ('m, 'k) auth \<Rightarrow> string \<Rightarrow> string res" where
  "file_read env a path = med_Read (med env) (medium a) path"

definition is_file :: "('m, 'k, 'p) auth_env \<Rightarrow> ('m, 'k) auth \<Rightarrow> string \<Rightarrow> bool" where
  "is_file env a path = IsFile (med env) (medium a) path"

text \<open>Writes in turn, each with its error message, up to the first failure.\<close>

fun file_writes ::
  "('m, 'k, 'p) auth_env \<Rightarrow> string \<Rightarrow> (string \<times> string \<times> string) list \<Rightarrow> ('m, 'k) auth \<Rightarrow>
     err option \<times> ('m, 'k) auth" where
  "file_writes env op [] a = (None, a)"
| "file_writes env op ((path, content, failure) # ws) a =
     (case file_write env path content a of
        (Some e, a') \<Rightarrow> (Some (E op failure (Some e)), a')
      | (None, a') \<Rightarrow> file_writes env op ws a')"

definition sessions_drop_user ::
  "('m, 'k, 'p) auth_env \<Rightarrow> string \<Rightarrow> ('m, 'k) auth \<Rightarrow> err option \<times> ('m, 'k) auth" where
  "sessions_drop_user env userID a =
     (case store_DeleteByUser (sess env) userID (store a) of (e, s) \<Rightarrow> (e, a\<lparr>store := s\<rparr>))"

section \<open>Sessions\<close>

definition createSession ::
  "('m, 'k, 'p) auth_env \<Rightarrow> nat \<Rightarrow> string \<Rightarrow> ('m, 'k) auth \<Rightarrow> Session res \<times> ('m, 'k) auth" where
  "createSession env i userID a =
     (let op = ''auth.createSession'' in
      case rnd env 32 of
        Inl e \<Rightarrow> (Inl (E op ''failed to generate session token'' (Some e)), a)
      | Inr tokenBytes \<Rightarrow>
          (let session = \<lparr>Token = HexEncode tokenBytes, UserID = userID,
                          ExpiresAt = clock env i + sessionTTL a\<rparr>
           in case store_Set (sess env) session (store a) of
                (Some e, s) \<Rightarrow> (Inl (E op ''failed to persist session'' (Some e)), a\<lparr>store := s\<rparr>)
              | (None, s) \<Rightarrow> (Inr session, a\<lparr>store := s\<rparr>)))"

definition drop_expired ::
  "('m, 'k, 'p) auth_env \<Rightarrow> string \<Rightarrow> string \<Rightarrow> ('m, 'k) auth \<Rightarrow> ('m, 'k) auth" where
  "drop_expired env op token a =
     (case store_Delete (sess env) token (store a) of
        (Some e, s) \<Rightarrow> a\<lparr>store := s,
          printed := printed a @ [(op @ '': failed to delete expired session'', e)]\<rparr>
      | (None, s) \<Rightarrow> a\<lparr>store := s\<rparr>)"

definition ValidateSession ::
  "('m, 'k, 'p) auth_env \<Rightarrow> string \<Rightarrow> ('m, 'k) auth \<Rightarrow> Session res \<times> ('m, 'k) auth" where
  "ValidateSession env token a =
     (let op = ''auth.ValidateSession'' in
      case store_Get (sess env) (store a) token of
        Inl _ \<Rightarrow> (Inl (E op ''session not found'' None), a)
      | Inr session \<Rightarrow>
          if After (clock env 0) (ExpiresAt session)
          then (Inl (E op ''session expired'' None), drop_expired env op token a)
          else (Inr session, a))"

definition RefreshSession ::
  "('m, 'k, 'p) auth_env \<Rightarrow> string \<Rightarrow> ('m, 'k) auth \<Rightarrow> Session res \<times> ('m, 'k) auth" where
  "RefreshSession env token a =
     (let op = ''auth.RefreshSession'' in
      case store_Get (sess env) (store a) token of
        Inl _ \<Rightarrow> (Inl (E op ''session not found'' None), a)
      | Inr session \<Rightarrow>
          if After (clock env 0) (ExpiresAt session)
          then (Inl (E op ''session expired'' None), drop_expired env op token a)
          else
            (let session' = session\<lparr>ExpiresAt := clock env 1 + sessionTTL a\<rparr> in
             case store_Set (sess env) session' (store a) of
               (Some e, s) \<Rightarrow> (Inl (E op ''failed to update session'' (Some e)), a\<lparr>store := s\<rparr>)
             | (None, s) \<Rightarrow> (Inr session', a\<lparr>store := s\<rparr>)))"

definition RevokeSession ::
  "('m, 'k, 'p) auth_env \<Rightarrow> string \<Rightarrow> ('m, 'k) auth \<Rightarrow> err option \<times> ('m, 'k) auth" where
  "RevokeSession env token a =
     (case store_Delete (sess env) token (store a) of
        (Some _, s) \<Rightarrow> (Some (E ''auth.RevokeSession'' ''session not found'' None), a\<lparr>store := s\<rparr>)
      | (None, s) \<Rightarrow> (None, a\<lparr>store := s\<rparr>))"

text \<open>One tick of the goroutine of StartCleanup; \<open>Ext\<close> carries the count it prints.\<close>

definition cleanup_tick :: "('m, 'k, 'p) auth_env \<Rightarrow> ('m, 'k) auth \<Rightarrow> ('m, 'k) auth" where
  "cleanup_tick env a =
     (case store_Cleanup (sess env) (clock env 0) (store a) of
        (count, Some e, s) \<Rightarrow> a\<lparr>store := s, printed := printed a @ [(''auth: session cleanup error'', e)]\<rparr>
      | (count, None, s) \<Rightarrow>
          if 0 < count
          then a\<lparr>store := s,
            printed := printed a @ [(''auth: cleaned up expired sessions'', Ext (nat_to_dec count))]\<rparr>
          else a\<lparr>store := s\<rparr>)"

text \<open>
  The goroutine itself: what its channels deliver, one after the other, a tick with the surroundings
  of that moment or the end of the context.  The second component says whether it still runs.
\<close>

datatype ('m, 'k, 'p) cleanup_event = Tick "('m, 'k, 'p) auth_env" | ContextDone

fun StartCleanup ::
  "('m, 'k, 'p) cleanup_event list \<Rightarrow> ('m, 'k) auth \<Rightarrow> ('m, 'k) auth \<times> bool" where
  "StartCleanup [] a = (a, True)"
| "StartCleanup (Tick env # evs) a = StartCleanup evs (cleanup_tick env a)"
| "StartCleanup (ContextDone # evs) a = (a, False)"

lemma StartCleanup_stops: "StartCleanup (xs @ ContextDone # ys) a = StartCleanup (xs @ [ContextDone]) a"
  by (induction xs a rule: StartCleanup.induct) simp_all

lemma StartCleanup_runs: "snd (StartCleanup evs a) \<longleftrightarrow> ContextDone \<notin> set evs"
  by (induction evs a rule: StartCleanup.induct) simp_all

section \<open>Registration\<close>

definition Register ::
  "('m, 'k, 'p) auth_env \<Rightarrow> string \<Rightarrow> string \<Rightarrow> ('m, 'k) auth \<Rightarrow> User res option \<times> ('m, 'k) auth" where
  "Register env username password a =
     (let op = ''auth.Register''; userID = lthn_Hash env username in
      if is_file env a (userPath userID ''.pub'')
      then (Some (Inl (E op ''user already exists'' None)), a)
      else
      (case EnsureDir (med env) ''users'' (medium a) of
         (Some e, m) \<Rightarrow> (Some (Inl (E op ''failed to create users directory'' (Some e))), a\<lparr>medium := m\<rparr>)
       | (None, m) \<Rightarrow>
      (let a0 = a\<lparr>medium := m\<rparr> in
      (case CreateKeyPair (pgp env) userID (userID @ ''@auth.local'') password of
         None \<Rightarrow> (None, a0)
       | Some (Inl e) \<Rightarrow> (Some (Inl (E op ''failed to create PGP keypair'' (Some e))), a0)
       | Some (Inr kp) \<Rightarrow>
      (case file_writes env op
              [(userPath userID ''.pub'', PublicKey kp, ''failed to write public key''),
               (userPath userID ''.key'', PrivateKey kp, ''failed to write private key''),
               (userPath userID ''.rev'', ''REVOCATION_PLACEHOLDER'',
                ''failed to write revocation certificate'')] a0 of
         (Some e, a1) \<Rightarrow> (Some (Inl e), a1)
       | (None, a1) \<Rightarrow>
      (case HashPassword (argon env) (rnd env) password of
         None \<Rightarrow> (None, a1)
       | Some (Inl e) \<Rightarrow> (Some (Inl (E op ''failed to hash password'' (Some e))), a1)
       | Some (Inr passwordHash) \<Rightarrow>
      (case file_writes env op
              [(userPath userID ''.hash'', passwordHash, ''failed to write password hash'')] a1 of
         (Some e, a2) \<Rightarrow> (Some (Inl e), a2)
       | (None, a2) \<Rightarrow>
      (let user = \<lparr>user_PublicKey = PublicKey kp, user_KeyID = userID,
                   user_Fingerprint = lthn_Hash env (PublicKey kp),
                   user_PasswordHash = passwordHash, user_Created = clock env 0, user_LastLogin = 0\<rparr> in
      (case marshal_user env user of
         Inl e \<Rightarrow> (Some (Inl (E op ''failed to marshal user metadata'' (Some e))), a2)
       | Inr metaJSON \<Rightarrow>
      (case pgp_Encrypt (pgp env) (bytes_of_string metaJSON) (PublicKey kp) of
         Inl e \<Rightarrow> (Some (Inl (E op ''failed to encrypt user metadata'' (Some e))), a2)
       | Inr encMeta \<Rightarrow>
      (case file_writes env op
              [(userPath userID ''.json'', string_of_bytes encMeta, ''failed to write user metadata'')] a2 of
         (Some e, a3) \<Rightarrow> (Some (Inl e), a3)
       | (None, a3) \<Rightarrow> (Some (Inr user), a3))))))))))))"

section \<open>Revocation\<close>

definition IsRevoked :: "('m, 'k, 'p) auth_env \<Rightarrow> string \<Rightarrow> ('m, 'k) auth \<Rightarrow> bool" where
  "IsRevoked env userID a =
     (case file_read env a (userPath userID ''.rev'') of
        Inl _ \<Rightarrow> False
      | Inr content \<Rightarrow>
          if content = ''REVOCATION_PLACEHOLDER'' then False
          else (case unmarshal_rev env content of
             Inl _ \<Rightarrow> False
           | Inr r \<Rightarrow> \<not> IsZero (RevokedAt r)))"

section \<open>Passwords\<close>

text \<open>The result of verifyPassword: no result is a panic, no error is success.\<close>

definition verifyPassword ::
  "('m, 'k, 'p) auth_env \<Rightarrow> string \<Rightarrow> string \<Rightarrow> ('m, 'k) auth \<Rightarrow> err option option" where
  "verifyPassword env userID password a =
     (let op = ''auth.verifyPassword'' in
      if is_file env a (userPath userID ''.hash'') then
        (case file_read env a (userPath userID ''.hash'') of
           Inl e \<Rightarrow> Some (Some (E op ''failed to read password hash'' (Some e)))
         | Inr storedHash \<Rightarrow>
             if \<not> HasPrefix storedHash ''$argon2id$''
             then Some (Some (E op ''corrupted password hash'' None))
             else (case VerifyPassword (argon env) password storedHash of
                None \<Rightarrow> None
              | Some (Inl e) \<Rightarrow> Some (Some (E op ''failed to verify password'' (Some e)))
              | Some (Inr valid) \<Rightarrow>
                  if valid then Some None else Some (Some (E op ''invalid password'' None))))
      else
        (case file_read env a (userPath userID ''.lthn'') of
           Inl _ \<Rightarrow> Some (Some (E op ''user not found'' None))
         | Inr storedHash \<Rightarrow>
             if \<not> lthn_Verify (lthn_Hash env) password storedHash
             then Some (Some (E op ''invalid password'' None))
             else Some None))"

text \<open>Migration is best effort: a failing write is printed, a failing hash ignored.\<close>

definition migrate_hash ::
  "('m, 'k, 'p) auth_env \<Rightarrow> string \<Rightarrow> string \<Rightarrow> ('m, 'k) auth \<Rightarrow> (unit option) \<times> ('m, 'k) auth" where
  "migrate_hash env userID password a =
     (case HashPassword (argon env) (rnd env) password of
        None \<Rightarrow> (None, a)
      | Some (Inl _) \<Rightarrow> (Some (), a)
      | Some (Inr newHash) \<Rightarrow>
          (case file_write env (userPath userID ''.hash'') newHash a of
             (Some e, a') \<Rightarrow>
               (Some (), a'\<lparr>printed := printed a' @ [(''auth.Login: password hash migration failed'', e)]\<rparr>)
           | (None, a') \<Rightarrow> (Some (), a')))"

definition Login ::
  "('m, 'k, 'p) auth_env \<Rightarrow> string \<Rightarrow> string \<Rightarrow> ('m, 'k) auth \<Rightarrow> Session res option \<times> ('m, 'k) auth" where
  "Login env userID password a =
     (let op = ''auth.Login'' in
      if IsRevoked env userID a then (Some (Inl (E op ''key has been revoked'' None)), a)
      else if is_file env a (userPath userID ''.hash'') then
        (case file_read env a (userPath userID ''.hash'') of
           Inl e \<Rightarrow> (Some (Inl (E op ''failed to read password hash'' (Some e))), a)
         | Inr storedHash \<Rightarrow>
             if \<not> HasPrefix storedHash ''$argon2id$''
             then (Some (Inl (E op ''corrupted password hash'' None)), a)
             else (case VerifyPassword (argon env) password storedHash of
                None \<Rightarrow> (None, a)
              | Some (Inl e) \<Rightarrow> (Some (Inl (E op ''failed to verify password'' (Some e))), a)
              | Some (Inr valid) \<Rightarrow>
                  if \<not> valid then (Some (Inl (E op ''invalid password'' None)), a)
                  else map_prod Some id (createSession env 0 userID a)))
      else
        (case file_read env a (userPath userID ''.lthn'') of
           Inl e \<Rightarrow> (Some (Inl (E op ''user not found'' (Some e))), a)
         | Inr storedHash \<Rightarrow>
             if \<not> lthn_Verify (lthn_Hash env) password storedHash
             then (Some (Inl (E op ''invalid password'' None)), a)
             else (case migrate_hash env userID password a of
                (None, a') \<Rightarrow> (None, a')
              | (Some _, a') \<Rightarrow> map_prod Some id (createSession env 0 userID a'))))"

definition RevokeKey ::
  "('m, 'k, 'p) auth_env \<Rightarrow> (err \<Rightarrow> string) \<Rightarrow> string \<Rightarrow> string \<Rightarrow> string \<Rightarrow> ('m, 'k) auth \<Rightarrow>
     err option option \<times> ('m, 'k) auth" where
  "RevokeKey env err_text userID password reason a =
     (let op = ''auth.RevokeKey'' in
      if \<not> is_file env a (userPath userID ''.pub'')
      then (Some (Some (E op ''user not found'' None)), a)
      else
      (case verifyPassword env userID password a of
         None \<Rightarrow> (None, a)
       | Some (Some e) \<Rightarrow> (Some (Some (E op (err_text e) None)), a)
       | Some None \<Rightarrow>
      (case marshal_rev env \<lparr>rev_UserID = userID, rev_Reason = reason, RevokedAt = clock env 0\<rparr> of
         Inl e \<Rightarrow> (Some (Some (E op ''failed to marshal revocation record'' (Some e))), a)
       | Inr revJSON \<Rightarrow>
      (case file_writes env op
              [(userPath userID ''.rev'', revJSON, ''failed to write revocation record'')] a of
         (Some e, a1) \<Rightarrow> (Some (Some e), a1)
       | (None, a1) \<Rightarrow>
      (case sessions_drop_user env userID a1 of
         (Some e, a2) \<Rightarrow> (Some (Some (E op ''failed to invalidate sessions'' (Some e))), a2)
       | (None, a2) \<Rightarrow> (Some None, a2))))))"

section \<open>Challenge and response\<close>

definition CreateChallenge ::
  "('m, 'k, 'p) auth_env \<Rightarrow> string \<Rightarrow> ('m, 'k) auth \<Rightarrow> Challenge res \<times> ('m, 'k) auth" where
  "CreateChallenge env userID a =
     (let op = ''auth.CreateChallenge'' in
      if IsRevoked env userID a then (Inl (E op ''key has been revoked'' None), a)
      else
      (case file_read env a (userPath userID ''.pub'') of
         Inl e \<Rightarrow> (Inl (E op ''user not found'' (Some e)), a)
       | Inr pubKey \<Rightarrow>
      (case rnd env nonceBytes of
         Inl e \<Rightarrow> (Inl (E op ''failed to generate nonce'' (Some e)), a)
       | Inr nonce \<Rightarrow>
      (case pgp_Encrypt (pgp env) nonce pubKey of
         Inl e \<Rightarrow> (Inl (E op ''failed to encrypt nonce'' (Some e)), a)
       | Inr encrypted \<Rightarrow>
          (let challenge = \<lparr>Nonce = nonce, EncryptedNonce = string_of_bytes encrypted,
                            ch_ExpiresAt = clock env 0 + challengeTTL a\<rparr>
           in (Inr challenge, a\<lparr>challenges := (challenges a)(userID \<mapsto> challenge)\<rparr>))))))"

definition ValidateResponse ::
  "('m, 'k, 'p) auth_env \<Rightarrow> string \<Rightarrow> bytes \<Rightarrow> ('m, 'k) auth \<Rightarrow> Session res \<times> ('m, 'k) auth" where
  "ValidateResponse env userID signedNonce a =
     (let op = ''auth.ValidateResponse'' in
      case challenges a userID of
        None \<Rightarrow> (Inl (E op ''no pending challenge for user'' None), a)
      | Some challenge \<Rightarrow>
          (let a1 = a\<lparr>challenges := (challenges a)(userID := None)\<rparr> in
           if After (clock env 0) (ch_ExpiresAt challenge)
           then (Inl (E op ''challenge expired'' None), a1)
           else
           (case file_read env a1 (userPath userID ''.pub'') of
              Inl e \<Rightarrow> (Inl (E op ''user not found'' (Some e)), a1)
            | Inr pubKey \<Rightarrow>
           (case pgp_Verify (pgp env) (Nonce challenge) signedNonce pubKey of
              Some e \<Rightarrow> (Inl (E op ''signature verification failed'' (Some e)), a1)
            | None \<Rightarrow> createSession env 1 userID a1))))"

definition WriteChallengeFile ::
  "('m, 'k, 'p) auth_env \<Rightarrow> string \<Rightarrow> string \<Rightarrow> ('m, 'k) auth \<Rightarrow> err option \<times> ('m, 'k) auth" where
  "WriteChallengeFile env userID path a =
     (let op = ''auth.WriteChallengeFile'' in
      case CreateChallenge env userID a of
        (Inl e, a1) \<Rightarrow> (Some (E op ''failed to create challenge'' (Some e)), a1)
      | (Inr challenge, a1) \<Rightarrow>
          (case marshal_challenge env challenge of
             Inl e \<Rightarrow> (Some (E op ''failed to marshal challenge'' (Some e)), a1)
           | Inr json \<Rightarrow> file_writes env op [(path, json, ''failed to write challenge file'')] a1))"

definition ReadResponseFile ::
  "('m, 'k, 'p) auth_env \<Rightarrow> string \<Rightarrow> string \<Rightarrow> ('m, 'k) auth \<Rightarrow> Session res \<times> ('m, 'k) auth" where
  "ReadResponseFile env userID path a =
     (let op = ''auth.ReadResponseFile'' in
      case file_read env a path of
        Inl e \<Rightarrow> (Inl (E op ''failed to read response file'' (Some e)), a)
      | Inr content \<Rightarrow>
          (case ValidateResponse env userID (bytes_of_string content) a of
             (Inl e, a1) \<Rightarrow> (Inl (E op ''failed to validate response'' (Some e)), a1)
           | (Inr session, a1) \<Rightarrow> (Inr session, a1)))"

section \<open>Deletion and rotation\<close>

fun delete_artifacts ::
  "('m, 'k, 'p) auth_env \<Rightarrow> string \<Rightarrow> string \<Rightarrow> string list \<Rightarrow> ('m, 'k) auth \<Rightarrow> err option \<times> ('m, 'k) auth"
where
  "delete_artifacts env op userID [] a = (None, a)"
| "delete_artifacts env op userID (ext # exts) a =
     (if is_file env a (userPath userID ext)
      then (case file_delete env (userPath userID ext) a of
         (Some e, a1) \<Rightarrow> (Some (E op (''failed to delete '' @ ext) (Some e)), a1)
       | (None, a1) \<Rightarrow> delete_artifacts env op userID exts a1)
      else delete_artifacts env op userID exts a)"

definition artifact_extensions :: "string list" where
  "artifact_extensions = [''.pub'', ''.key'', ''.rev'', ''.json'', ''.hash'', ''.lthn'']"

definition DeleteUser ::
  "('m, 'k, 'p) auth_env \<Rightarrow> string \<Rightarrow> ('m, 'k) auth \<Rightarrow> err option \<times> ('m, 'k) auth" where
  "DeleteUser env userID a =
     (let op = ''auth.DeleteUser'' in
      if protectedUsers userID then (Some (E op ''cannot delete protected user'' None), a)
      else if \<not> is_file env a (userPath userID ''.pub'')
      then (Some (E op ''user not found'' None), a)
      else
      (case delete_artifacts env op userID artifact_extensions a of
         (Some e, a1) \<Rightarrow> (Some e, a1)
       | (None, a1) \<Rightarrow>
      (case sessions_drop_user env userID a1 of
         (Some e, a2) \<Rightarrow> (Some (E op ''failed to revoke active sessions'' (Some e)), a2)
       | (None, a2) \<Rightarrow> (None, a2))))"

definition RotateKeyPair ::
  "('m, 'k, 'p) auth_env \<Rightarrow> string \<Rightarrow> string \<Rightarrow> string \<Rightarrow> ('m, 'k) auth \<Rightarrow>
     User res option \<times> ('m, 'k) auth" where
  "RotateKeyPair env userID oldPassword newPassword a =
     (let op = ''auth.RotateKeyPair'' in
      if \<not> is_file env a (userPath userID ''.pub'')
      then (Some (Inl (E op ''user not found'' None)), a)
      else
      (case file_read env a (userPath userID ''.key'') of
         Inl e \<Rightarrow> (Some (Inl (E op ''failed to read private key'' (Some e))), a)
       | Inr privKeyArmor \<Rightarrow>
      (case file_read env a (userPath userID ''.json'') of
         Inl e \<Rightarrow> (Some (Inl (E op ''failed to read user metadata'' (Some e))), a)
       | Inr encMeta \<Rightarrow>
      (case pgp_Decrypt (pgp env) (bytes_of_string encMeta) privKeyArmor oldPassword of
         Inl e \<Rightarrow> (Some (Inl (E op ''failed to decrypt metadata (wrong password?)'' (Some e))), a)
       | Inr metaJSON \<Rightarrow>
      (case unmarshal_user env metaJSON of
         Inl e \<Rightarrow> (Some (Inl (E op ''failed to unmarshal user metadata'' (Some e))), a)
       | Inr user0 \<Rightarrow>
      (case CreateKeyPair (pgp env) userID (userID @ ''@auth.local'') newPassword of
         None \<Rightarrow> (None, a)
       | Some (Inl e) \<Rightarrow> (Some (Inl (E op ''failed to create new PGP keypair'' (Some e))), a)
       | Some (Inr newKP) \<Rightarrow>
      (case HashPassword (argon env) (rnd env) newPassword of
         None \<Rightarrow> (None, a)
       | Some (Inl e) \<Rightarrow> (Some (Inl (E op ''failed to hash new password'' (Some e))), a)
       | Some (Inr newHash) \<Rightarrow>
      (let user = user0\<lparr>user_PublicKey := PublicKey newKP,
                        user_Fingerprint := lthn_Hash env (PublicKey newKP),
                        user_PasswordHash := newHash\<rparr> in
      (case marshal_user env user of
         Inl e \<Rightarrow> (Some (Inl (E op ''failed to marshal updated metadata'' (Some e))), a)
       | Inr updatedMeta \<Rightarrow>
      (case pgp_Encrypt (pgp env) (bytes_of_string updatedMeta) (PublicKey newKP) of
         Inl e \<Rightarrow> (Some (Inl (E op ''failed to encrypt metadata with new key'' (Some e))), a)
       | Inr encUpdatedMeta \<Rightarrow>
      (case file_writes env op
              [(userPath userID ''.pub'', PublicKey newKP, ''failed to write new public key''),
               (userPath userID ''.key'', PrivateKey newKP, ''failed to write new private key''),
               (userPath userID ''.json'', string_of_bytes encUpdatedMeta,
                ''failed to write updated metadata''),
               (userPath userID ''.hash'', newHash, ''failed to write new password hash'')] a of
         (Some e, a1) \<Rightarrow> (Some (Inl e), a1)
       | (None, a1) \<Rightarrow>
      (case sessions_drop_user env userID a1 of
         (Some e, a2) \<Rightarrow> (Some (Inl (E op ''failed to invalidate sessions'' (Some e))), a2)
       | (None, a2) \<Rightarrow> (Some (Inr user), a2)))))))))))))"

section \<open>The medium\<close>

text \<open>
  The documented behaviour of a medium: a write that succeeds is read back, a delete that succeeds
  removes the file, and no operation touches another path, whether or not it succeeds.
\<close>

definition medium_sound :: "'m medium_lib \<Rightarrow> bool" where
  "medium_sound M \<longleftrightarrow>
     (\<forall>d m p. med_Read M (snd (EnsureDir M d m)) p = med_Read M m p \<and>
        IsFile M (snd (EnsureDir M d m)) p = IsFile M m p) \<and>
     (\<forall>p c m q. q \<noteq> p \<longrightarrow> med_Read M (snd (med_Write M p c m)) q = med_Read M m q \<and>
        IsFile M (snd (med_Write M p c m)) q = IsFile M m q) \<and>
     (\<forall>p c m. fst (med_Write M p c m) = None \<longrightarrow>
        med_Read M (snd (med_Write M p c m)) p = Inr c \<and> IsFile M (snd (med_Write M p c m)) p) \<and>
     (\<forall>p m q. q \<noteq> p \<longrightarrow> med_Read M (snd (med_Delete M p m)) q = med_Read M m q \<and>
        IsFile M (snd (med_Delete M p m)) q = IsFile M m q) \<and>
     (\<forall>p m. fst (med_Delete M p m) = None \<longrightarrow>
        \<not> ok (med_Read M (snd (med_Delete M p m)) p) \<and> \<not> IsFile M (snd (med_Delete M p m)) p)"

text \<open>Two states of the Authenticator hold the same at a path; they differ in the medium only.\<close>

definition same_at ::
  "('m, 'k, 'p) auth_env \<Rightarrow> string \<Rightarrow> ('m, 'k) auth \<Rightarrow> ('m, 'k) auth \<Rightarrow> bool" where
  "same_at env p a b \<longleftrightarrow> file_read env a p = file_read env b p \<and> is_file env a p = is_file env b p"

definition files_only :: "('m, 'k) auth \<Rightarrow> ('m, 'k) auth \<Rightarrow> bool" where
  "files_only a b \<longleftrightarrow> (\<exists>m. b = a\<lparr>medium := m\<rparr>)"

lemma files_only_simps:
  assumes "files_only a b"
  shows "store b = store a" "challenges b = challenges a" "challengeTTL b = challengeTTL a"
    "sessionTTL b = sessionTTL a" "printed b = printed a"
  using assms by (auto simp: files_only_def)

lemma files_only_refl [simp]: "files_only a a"
  unfolding files_only_def by (rule exI [of _ "medium a"]) simp

lemma files_only_trans: "files_only a b \<Longrightarrow> files_only b c \<Longrightarrow> files_only a c"
  by (auto simp: files_only_def)

lemma same_at_trans: "same_at env p a b \<Longrightarrow> same_at env p b c \<Longrightarrow> same_at env p a c"
  by (simp add: same_at_def)

lemma same_at_refl [simp]: "same_at env p a a"
  by (simp add: same_at_def)

lemma file_write_frame: "files_only a (snd (file_write env p c a))"
  by (auto simp: file_write_def files_only_def split_def)

lemma file_write_other:
  "medium_sound (med env) \<Longrightarrow> q \<noteq> p \<Longrightarrow> same_at env q a (snd (file_write env p c a))"
  by (simp add: medium_sound_def same_at_def file_write_def file_read_def is_file_def split_def)

lemma file_write_same:
  "medium_sound (med env) \<Longrightarrow> file_write env p c a = (None, a') \<Longrightarrow>
     file_read env a' p = Inr c \<and> is_file env a' p"
  by (auto simp: medium_sound_def file_write_def file_read_def is_file_def split_def)

lemma file_delete_frame: "files_only a (snd (file_delete env p a))"
  by (auto simp: file_delete_def files_only_def split_def)

lemma file_delete_other:
  "medium_sound (med env) \<Longrightarrow> q \<noteq> p \<Longrightarrow> same_at env q a (snd (file_delete env p a))"
  by (simp add: medium_sound_def same_at_def file_delete_def file_read_def is_file_def split_def)

lemma file_delete_same:
  "medium_sound (med env) \<Longrightarrow> file_delete env p a = (None, a') \<Longrightarrow>
     \<not> ok (file_read env a' p) \<and> \<not> is_file env a' p"
  by (auto simp: medium_sound_def file_delete_def file_read_def is_file_def split_def)

lemma file_writes_frame: "files_only a (snd (file_writes env op ws a))"
proof (induction ws arbitrary: a)
  case (Cons w ws)
  obtain p c f where w: "w = (p, c, f)" by (cases w)
  obtain e a' where fw: "file_write env p c a = (e, a')" by (cases "file_write env p c a")
  then have "files_only a a'" using file_write_frame [of a env p c] by simp
  with Cons.IH [of a'] w fw show ?case by (cases e) (auto intro: files_only_trans)
qed simp

lemma file_writes_other:
  assumes "medium_sound (med env)" and "q \<notin> fst ` set ws"
  shows "same_at env q a (snd (file_writes env op ws a))"
  using assms(2)
proof (induction ws arbitrary: a)
  case (Cons w ws)
  obtain p c f where w: "w = (p, c, f)" by (cases w)
  obtain e a' where fw: "file_write env p c a = (e, a')" by (cases "file_write env p c a")
  then have "same_at env q a a'"
    using file_write_other [OF assms(1), of q p a c] Cons.prems w by simp
  with Cons w fw show ?case by (cases e) (auto intro: same_at_trans)
qed simp

lemma file_writes_same:
  assumes "medium_sound (med env)" and "file_writes env op ws a = (None, a')"
    and "distinct (map fst ws)" and "(p, c, f) \<in> set ws"
  shows "file_read env a' p = Inr c \<and> is_file env a' p"
  using assms(2-4)
proof (induction ws arbitrary: a)
  case (Cons w ws)
  obtain q d g where w: "w = (q, d, g)" by (cases w)
  obtain a1 where a1: "file_write env q d a = (None, a1)" "file_writes env op ws a1 = (None, a')"
    using Cons.prems(1) w by (auto split: prod.splits option.splits)
  show ?case
  proof (cases "(p, c, f) \<in> set ws")
    case True
    with Cons.IH [OF a1(2)] Cons.prems(2) show ?thesis by simp
  next
    case False
    with Cons.prems(3) w have eq: "q = p" "d = c" by auto
    with Cons.prems(2) w have "p \<notin> fst ` set ws" by auto
    from file_writes_other [OF assms(1) this, of a1 op] a1
    have "same_at env p a1 a'" by simp
    with file_write_same [OF assms(1) a1(1)] eq show ?thesis by (simp add: same_at_def)
  qed
qed simp

lemma userPath_eq_iff:
  "userPath u ext = userPath u ext' \<longleftrightarrow> ext = ext'" "userPath u ext = userPath v ext \<longleftrightarrow> u = v"
  by (simp_all add: userPath_def)

text \<open>The artifacts of different users, or of different kinds, are different files.\<close>

lemma userPath_inj:
  assumes "ext \<in> set artifact_extensions" and "ext' \<in> set artifact_extensions"
    and "userPath u ext = userPath v ext'"
  shows "u = v \<and> ext = ext'"
proof -
  from assms(3) have "u @ ext = v @ ext'" by (simp add: userPath_def)
  then have r: "rev ext @ rev u = rev ext' @ rev v" by (metis rev_append)
  with assms(1,2) have "ext = ext'" by (auto simp: artifact_extensions_def)
  with assms(3) show ?thesis by (simp add: userPath_eq_iff)
qed

lemma delete_artifacts_frame: "files_only a (snd (delete_artifacts env op u exts a))"
proof (induction exts arbitrary: a)
  case (Cons ext exts)
  obtain e a' where d: "file_delete env (userPath u ext) a = (e, a')"
    by (cases "file_delete env (userPath u ext) a")
  then have "files_only a a'" using file_delete_frame [of a env "userPath u ext"] by simp
  with Cons.IH [of a'] Cons.IH [of a] d show ?case by (cases e) (auto intro: files_only_trans)
qed simp

lemma delete_artifacts_other:
  assumes "medium_sound (med env)" and "q \<notin> userPath u ` set exts"
  shows "same_at env q a (snd (delete_artifacts env op u exts a))"
  using assms(2)
proof (induction exts arbitrary: a)
  case (Cons ext exts)
  obtain e a' where d: "file_delete env (userPath u ext) a = (e, a')"
    by (cases "file_delete env (userPath u ext) a")
  then have "same_at env q a a'"
    using file_delete_other [OF assms(1), of q "userPath u ext" a] Cons.prems by simp
  with Cons d show ?case by (cases e) (auto intro: same_at_trans)
qed simp

lemma delete_artifacts_gone:
  assumes "medium_sound (med env)" and "delete_artifacts env op u exts a = (None, a')"
    and "ext \<in> set exts" and "distinct exts"
  shows "\<not> is_file env a' (userPath u ext)"
  using assms(2-)
proof (induction exts arbitrary: a)
  case (Cons x exts)
  obtain a1 where a1: "delete_artifacts env op u exts a1 = (None, a')"
      "\<not> is_file env a1 (userPath u x)"
    using Cons.prems(1) file_delete_same [OF assms(1)]
    by (cases "is_file env a (userPath u x)") (auto split: prod.splits option.splits)
  show ?case
  proof (cases "ext = x")
    case True
    have "userPath u x \<notin> userPath u ` set exts"
      using Cons.prems(3) by (auto simp: userPath_eq_iff)
    from delete_artifacts_other [OF assms(1) this, of a1 op] a1 True show ?thesis
      by (simp add: same_at_def)
  next
    case False
    with Cons.IH [OF a1(1)] Cons.prems(2,3) show ?thesis by simp
  qed
qed simp

section \<open>Sessions of the Authenticator\<close>

definition new_session ::
  "('m, 'k, 'p) auth_env \<Rightarrow> nat \<Rightarrow> string \<Rightarrow> ('m, 'k) auth \<Rightarrow> bytes \<Rightarrow> Session" where
  "new_session env i u a tok =
     \<lparr>Token = HexEncode tok, UserID = u, ExpiresAt = clock env i + sessionTTL a\<rparr>"

definition session_at :: "('m, 'k, 'p) auth_env \<Rightarrow> ('m, 'k) auth \<Rightarrow> string \<rightharpoonup> Session" where
  "session_at env a = store_contents (sess env) (store a)"

definition sessions_ok :: "('m, 'k, 'p) auth_env \<Rightarrow> ('m, 'k) auth \<Rightarrow> bool" where
  "sessions_ok env a \<longleftrightarrow> store_inv (sess env) (store a)"

definition storable :: "('m, 'k, 'p) auth_env \<Rightarrow> ('m, 'k) auth \<Rightarrow> Session \<Rightarrow> bool" where
  "storable env a = store_storable (sess env) (store a)"

lemmas session_defs = session_at_def sessions_ok_def storable_def

lemma createSession_Inr:
  assumes "createSession env i u a = (Inr s, a')"
  shows "\<exists>tok st. rnd env 32 = Inr tok \<and> s = new_session env i u a tok \<and>
    store_Set (sess env) s (store a) = (None, st) \<and> a' = a\<lparr>store := st\<rparr>"
  using assms
  by (auto simp: createSession_def new_session_def Let_def split: sum.splits prod.splits option.splits)

lemma createSession_stored:
  assumes "createSession env i u a = (Inr s, a')" and "sessions_ok env a" and "storable env a s"
  shows "session_at env a' = (session_at env a)(Token s \<mapsto> s) \<and> sessions_ok env a' \<and>
    storable env a' = storable env a"
proof -
  obtain st where st: "store_Set (sess env) s (store a) = (None, st)" "a' = a\<lparr>store := st\<rparr>"
    using createSession_Inr [OF assms(1)] by blast
  with store.put_contents [of "sess env" "store a" s] assms(2,3) show ?thesis
    by (auto simp: session_defs)
qed

lemma createSession_ok:
  assumes "sessions_ok env a" and "rnd env 32 = Inr tok" and "storable env a (new_session env i u a tok)"
  shows "\<exists>st. createSession env i u a = (Inr (new_session env i u a tok), a\<lparr>store := st\<rparr>)"
  using store.put_contents [of "sess env" "store a" "new_session env i u a tok"] assms
  by (auto simp: session_defs createSession_def new_session_def Let_def)

lemma createSession_frame:
  "createSession env i u a = (r, a') \<Longrightarrow> \<exists>st. a' = a\<lparr>store := st\<rparr>"
proof -
  have "\<exists>st. a = a\<lparr>store := st\<rparr>" by (rule exI [of _ "store a"]) simp
  then show "createSession env i u a = (r, a') \<Longrightarrow> \<exists>st. a' = a\<lparr>store := st\<rparr>"
    by (auto simp: createSession_def Let_def split: sum.splits prod.splits option.splits)
qed

lemma get_session:
  "sessions_ok env a \<Longrightarrow>
     store_Get (sess env) (store a) t =
       (case session_at env a t of None \<Rightarrow> Inl ErrSessionNotFound | Some x \<Rightarrow> Inr x)"
  by (simp add: session_defs store.get_contents)

lemma drop_expired_gone:
  assumes "sessions_ok env a" and "session_at env a t = Some x"
  shows "session_at env (drop_expired env op t a) = (session_at env a)(t := None) \<and>
    sessions_ok env (drop_expired env op t a)"
  using store.delete_present [of "sess env" "store a" t x] assms
  by (auto simp: session_defs drop_expired_def)

text \<open>
  A session is valid from its creation up to and including the instant of its expiry, and
  not after: ValidateSession returns the very session that was created, or fails as expired and
  then removes it, so that the token is unknown from then on.
\<close>

theorem session_valid_until_expiry:
  assumes "createSession env i userID a = (Inr s, a')"
    and "sessions_ok env a" and "storable env a s"
    and "sess env' = sess env" and "sess env'' = sess env"
  shows "fst (ValidateSession env' (Token s) a') =
      (if clock env' 0 \<le> clock env i + sessionTTL a then Inr s
       else Inl (E ''auth.ValidateSession'' ''session expired'' None)) \<and>
    (clock env i + sessionTTL a < clock env' 0 \<longrightarrow>
       fst (ValidateSession env'' (Token s) (snd (ValidateSession env' (Token s) a'))) =
         Inl (E ''auth.ValidateSession'' ''session not found'' None))"
proof -
  have new: "ExpiresAt s = clock env i + sessionTTL a"
    using createSession_Inr [OF assms(1)] by (auto simp: new_session_def)
  have st: "session_at env' a' (Token s) = Some s" "sessions_ok env' a'"
    using createSession_stored [OF assms(1-3)] assms(4) by (simp_all add: session_defs)
  note get = get_session [OF st(2), of "Token s", unfolded st(1)]
  show ?thesis
  proof (cases "clock env' 0 \<le> clock env i + sessionTTL a")
    case True
    with get new show ?thesis by (simp add: ValidateSession_def After_def)
  next
    case False
    then have v: "ValidateSession env' (Token s) a' =
        (Inl (E ''auth.ValidateSession'' ''session expired'' None),
         drop_expired env' ''auth.ValidateSession'' (Token s) a')"
      using get new by (simp add: ValidateSession_def After_def Let_def)
    let ?b = "drop_expired env' ''auth.ValidateSession'' (Token s) a'"
    have "session_at env'' ?b (Token s) = None \<and> sessions_ok env'' ?b"
      using drop_expired_gone [OF st(2,1)] assms(4,5) by (simp add: session_defs)
    then have "fst (ValidateSession env'' (Token s) ?b) =
        Inl (E ''auth.ValidateSession'' ''session not found'' None)"
      using get_session [of env'' ?b "Token s"] by (simp add: ValidateSession_def)
    with v False show ?thesis by simp
  qed
qed

text \<open>
  A challenge is good for one answer.  ValidateResponse spends it whatever the answer is
  worth, so that the next answer fails, and it leaves the challenges of other users alone.
\<close>

theorem challenge_is_single_use:
  "challenges (snd (ValidateResponse env u sig a)) = (challenges a)(u := None) \<and>
   fst (ValidateResponse env' u sig' (snd (ValidateResponse env u sig a))) =
     Inl (E ''auth.ValidateResponse'' ''no pending challenge for user'' None)"
proof -
  have "challenges (snd (createSession env i u b)) = challenges b" for i b
    using createSession_frame [of env i u b] by (cases "createSession env i u b") auto
  then have "challenges (snd (ValidateResponse env u sig a)) = (challenges a)(u := None)"
    by (auto simp: ValidateResponse_def Let_def fun_upd_idem split: option.splits sum.splits)
  then show ?thesis by (simp add: ValidateResponse_def Let_def)
qed

text \<open>
  C20.  ValidateResponse grants a session exactly when a challenge is pending for that user, has
  not expired, and the answer is a signature of its nonce under the public key now on file; the
  session is a fresh one of that user, under the drawn token, expiring one session lifetime later.
\<close>

theorem response_grants_session_iff:
  assumes "sessions_ok env a" and "\<And>tok. storable env a (new_session env 1 u a tok)"
  shows "fst (ValidateResponse env u sig a) = Inr s \<longleftrightarrow>
    (\<exists>ch pub tok. challenges a u = Some ch \<and> clock env 0 \<le> ch_ExpiresAt ch \<and>
       file_read env a (userPath u ''.pub'') = Inr pub \<and>
       pgp_Verify (pgp env) (Nonce ch) sig pub = None \<and>
       rnd env 32 = Inr tok \<and> s = new_session env 1 u a tok)"
proof (cases "challenges a u")
  case None
  then show ?thesis by (simp add: ValidateResponse_def Let_def)
next
  case (Some ch)
  let ?b = "a\<lparr>challenges := (challenges a)(u := None)\<rparr>"
  have b: "sessions_ok env ?b" "storable env ?b = storable env a"
      "new_session env 1 u ?b = new_session env 1 u a" "file_read env ?b = file_read env a"
    using assms(1) by (auto simp: session_defs new_session_def file_read_def fun_eq_iff)
  have create: "fst (createSession env 1 u ?b) = Inr s \<longleftrightarrow>
      (\<exists>tok. rnd env 32 = Inr tok \<and> s = new_session env 1 u a tok)"
  proof (cases "rnd env 32")
    case (Inl e)
    then show ?thesis by (simp add: createSession_def Let_def)
  next
    case (Inr tok)
    with createSession_ok [OF b(1) Inr, of 1 u] assms(2) b(2,3) show ?thesis by auto
  qed
  show ?thesis
    using create b(4) Some
    by (cases "file_read env a (userPath u ''.pub'')")
       (auto simp: ValidateResponse_def Let_def After_def split: option.splits)
qed

text \<open>
  RefreshSession moves the expiry of a live session to one session lifetime from now and
  changes nothing else of it; it refuses a session whose expiry has passed, and removes it.
\<close>

theorem refresh_extends_live_sessions:
  assumes "sessions_ok env a" and "session_at env a token = Some s"
    and "storable env a (s\<lparr>ExpiresAt := clock env 1 + sessionTTL a\<rparr>)"
  shows "(clock env 0 \<le> ExpiresAt s \<longrightarrow>
      fst (RefreshSession env token a) = Inr (s\<lparr>ExpiresAt := clock env 1 + sessionTTL a\<rparr>) \<and>
      session_at env (snd (RefreshSession env token a)) =
        (session_at env a)(token \<mapsto> s\<lparr>ExpiresAt := clock env 1 + sessionTTL a\<rparr>)) \<and>
    (ExpiresAt s < clock env 0 \<longrightarrow>
      fst (RefreshSession env token a) = Inl (E ''auth.RefreshSession'' ''session expired'' None) \<and>
      session_at env (snd (RefreshSession env token a)) = (session_at env a)(token := None))"
proof -
  have get: "store_Get (sess env) (store a) token = Inr s"
    using get_session [OF assms(1), of token] assms(2) by simp
  have tok: "Token s = token"
    using store.token_key [of "sess env" "store a" token s] assms(1,2) by (simp add: session_defs)
  let ?s = "s\<lparr>ExpiresAt := clock env 1 + sessionTTL a\<rparr>"
  obtain st where st: "store_Set (sess env) ?s (store a) = (None, st)"
      "store_contents (sess env) st = (store_contents (sess env) (store a))(token \<mapsto> ?s)"
    using store.put_contents [of "sess env" "store a" ?s] assms(1,3) tok by (auto simp: session_defs)
  have gone: "session_at env (drop_expired env op token a) = (session_at env a)(token := None)" for op
    using drop_expired_gone [OF assms(1,2)] by simp
  show ?thesis
    using get st gone by (auto simp: RefreshSession_def Let_def After_def session_at_def)
qed

section \<open>A concrete environment\<close>

type_synonym files = "string \<rightharpoonup> string"

definition map_medium :: "files medium_lib" where
  "map_medium =
     \<lparr>IsFile = (\<lambda>m p. m p \<noteq> None), EnsureDir = (\<lambda>d m. (None, m)),
      med_Write = (\<lambda>p c m. (None, m(p \<mapsto> c))),
      med_Read = (\<lambda>m p. case m p of None \<Rightarrow> Inl (Ext ''no such file'') | Some c \<Rightarrow> Inr c),
      med_Delete = (\<lambda>p m. if m p = None then (Some (Ext ''no such file''), m) else (None, m(p := None)))\<rparr>"

lemma map_medium_sound: "medium_sound map_medium"
  by (simp add: medium_sound_def map_medium_def)

definition demo_env :: "gotime \<Rightarrow> (files, rows, string) auth_env" where
  "demo_env t =
     \<lparr>med = map_medium, sess = list_env, pgp = text_pgp, argon = plain_kdf,
      rnd = (\<lambda>n. Inr (replicate n 1)), clock = (\<lambda>_. t), lthn_Hash = (\<lambda>s. ''h'' @ rev s),
      marshal_user = (\<lambda>u. Inr (user_KeyID u)),
      unmarshal_user = (\<lambda>b. Inr \<lparr>user_PublicKey = '''', user_KeyID = string_of_bytes b,
        user_Fingerprint = '''', user_PasswordHash = '''', user_Created = 0, user_LastLogin = 0\<rparr>),
      marshal_rev = (\<lambda>r. if 0 \<le> RevokedAt r \<and> RevokedAt r < 2 ^ 63
        then Inr (nat_to_dec (nat (RevokedAt r))) else Inl (Ext ''year outside of range'')),
      unmarshal_rev = (\<lambda>s. case Atoi s of Inl e \<Rightarrow> Inl e
        | Inr i \<Rightarrow> Inr \<lparr>rev_UserID = '''', rev_Reason = '''', RevokedAt = i\<rparr>),
      marshal_challenge = (\<lambda>c. Inr (EncryptedNonce c))\<rparr>"

definition demo_auth :: "(files, rows) auth" where
  "demo_auth = New Map.empty [WithSessionTTL 100, WithChallengeTTL 10]"

lemma demo_simps:
  "med (demo_env t) = map_medium" "sess (demo_env t) = list_env" "pgp (demo_env t) = text_pgp"
  "argon (demo_env t) = plain_kdf" "rnd (demo_env t) = (\<lambda>n. Inr (replicate n 1))"
  "clock (demo_env t) = (\<lambda>_. t)" "lthn_Hash (demo_env t) = (\<lambda>s. ''h'' @ rev s)"
  by (simp_all add: demo_env_def)

lemma demo_auth_simps:
  "medium demo_auth = Map.empty" "store demo_auth = Memory NewMemorySessionStore"
  "challenges demo_auth = Map.empty" "sessionTTL demo_auth = 100" "challengeTTL demo_auth = 10"
  by (simp_all add: demo_auth_def New_def)

lemma demo_sessions_ok: "store a = Memory NewMemorySessionStore \<Longrightarrow> sessions_ok (demo_env t) a"
  using list_env_inv(1) by (simp add: sessions_ok_def demo_simps)

lemma demo_storable: "store a = Memory m \<Longrightarrow> storable (demo_env t) a s"
  by (simp add: storable_def)

theorem session_valid_until_expiry_witness:
  "\<exists>s a'. createSession (demo_env 5) 0 ''u'' demo_auth = (Inr s, a') \<and>
     fst (ValidateSession (demo_env 105) (Token s) a') = Inr s \<and>
     fst (ValidateSession (demo_env 106) (Token s) a') =
       Inl (E ''auth.ValidateSession'' ''session expired'' None)"
proof -
  note ok = demo_sessions_ok [OF demo_auth_simps(2)] and st = demo_storable [OF demo_auth_simps(2)]
  obtain st' where c: "createSession (demo_env 5) 0 ''u'' demo_auth =
      (Inr (new_session (demo_env 5) 0 ''u'' demo_auth (replicate 32 1)), demo_auth\<lparr>store := st'\<rparr>)"
    using createSession_ok [OF ok _ st, of 5 "replicate 32 1" 0 "''u''"] by (auto simp: demo_simps)
  note v = session_valid_until_expiry [OF c ok st, of "demo_env 105" "demo_env 0"]
    session_valid_until_expiry [OF c ok st, of "demo_env 106" "demo_env 0"]
  show ?thesis
    using c v by (simp add: demo_simps demo_auth_simps)
qed

theorem response_grants_session_iff_witness:
  "\<exists>s. fst (ValidateResponse (demo_env 5) ''u'' [4, 2]
     (demo_auth\<lparr>challenges := [''u'' \<mapsto> \<lparr>Nonce = [4, 2], EncryptedNonce = '''', ch_ExpiresAt = 9\<rparr>],
        medium := [userPath ''u'' ''.pub'' \<mapsto> ''PGP PUBLIC KEY BLOCK|u'']\<rparr>)) = Inr s"
proof -
  let ?a = "demo_auth\<lparr>challenges := [''u'' \<mapsto> \<lparr>Nonce = [4, 2], EncryptedNonce = '''', ch_ExpiresAt = 9\<rparr>],
        medium := [userPath ''u'' ''.pub'' \<mapsto> ''PGP PUBLIC KEY BLOCK|u'']\<rparr>"
  have st: "store ?a = Memory NewMemorySessionStore" by (simp add: demo_auth_simps)
  have "file_read (demo_env 5) ?a (userPath ''u'' ''.pub'') = Inr ''PGP PUBLIC KEY BLOCK|u''"
    by (simp add: file_read_def demo_simps map_medium_def)
  moreover have "pgp_Verify (pgp (demo_env 5)) [4, 2] [4, 2] ''PGP PUBLIC KEY BLOCK|u'' = None"
    by (simp add: demo_simps pgp_Verify_def text_pgp_def)
  ultimately show ?thesis
    using response_grants_session_iff [OF demo_sessions_ok [OF st] demo_storable [OF st], of 5 "''u''" "[4, 2]"]
    by (auto simp: demo_simps)
qed

theorem refresh_extends_live_sessions_witness:
  "fst (RefreshSession (demo_env 40) ''t1'' (demo_auth\<lparr>store := Memory \<lparr>sessions = [''t1'' \<mapsto> session_a]\<rparr>\<rparr>)) =
     Inr (session_a\<lparr>ExpiresAt := 140\<rparr>)"
proof -
  let ?a = "demo_auth\<lparr>store := Memory \<lparr>sessions = [''t1'' \<mapsto> session_a]\<rparr>\<rparr>"
  have "sessions_ok (demo_env 40) ?a"
    using some_visit_visits
    by (simp add: sessions_ok_def demo_simps list_env_def mem_inv_def keyed_by_token_def session_a_def)
  moreover have "session_at (demo_env 40) ?a ''t1'' = Some session_a"
    by (simp add: session_at_def)
  ultimately show ?thesis
    using refresh_extends_live_sessions [of "demo_env 40" ?a "''t1''" session_a]
    by (simp add: storable_def demo_simps demo_auth_simps session_a_def)
qed

section \<open>Revocation\<close>

text \<open>Two environments that differ in clock, random bytes and library state only.\<close>

definition same_services ::
  "('m, 'k, 'p) auth_env \<Rightarrow> ('m, 'k, 'p) auth_env \<Rightarrow> bool" where
  "same_services env env' \<longleftrightarrow> med env' = med env \<and> sess env' = sess env \<and> argon env' = argon env \<and>
     lthn_Hash env' = lthn_Hash env \<and> unmarshal_rev env' = unmarshal_rev env"

lemma same_services_simps:
  assumes "same_services env env'"
  shows "med env' = med env" "sess env' = sess env" "argon env' = argon env"
    "lthn_Hash env' = lthn_Hash env" "unmarshal_rev env' = unmarshal_rev env"
    "file_read env' = file_read env" "is_file env' = is_file env"
    "session_at env' = session_at env" "sessions_ok env' = sessions_ok env"
    "storable env' = storable env" "IsRevoked env' = IsRevoked env" "same_at env' = same_at env"
  using assms
  by (simp_all add: same_services_def file_read_def [abs_def] is_file_def [abs_def]
    session_at_def [abs_def] sessions_ok_def [abs_def] storable_def [abs_def] IsRevoked_def [abs_def]
    same_at_def [abs_def] cong: sum.case_cong)

lemma same_services_refl [simp]: "same_services env env"
  by (simp add: same_services_def)

lemma sessions_drop_user_drops:
  assumes "sessions_ok env a"
  shows "\<exists>st. sessions_drop_user env u a = (None, a\<lparr>store := st\<rparr>) \<and>
    sessions_ok env (a\<lparr>store := st\<rparr>) \<and> storable env (a\<lparr>store := st\<rparr>) = storable env a \<and>
    session_at env (a\<lparr>store := st\<rparr>) = drop_where (\<lambda>x. UserID x = u) (session_at env a)"
  using store.delete_by_user [of "sess env" "store a" u] assms
  by (auto simp: session_defs sessions_drop_user_def)

lemma sessions_files_only:
  assumes "files_only a b"
  shows "session_at env b = session_at env a" "sessions_ok env b = sessions_ok env a"
    "storable env b = storable env a"
  using files_only_simps(1) [OF assms] by (simp_all add: session_defs)

lemma file_read_store [simp]: "file_read env (a\<lparr>store := st\<rparr>) = file_read env a"
  "is_file env (a\<lparr>store := st\<rparr>) = is_file env a"
  by (simp_all add: fun_eq_iff file_read_def is_file_def)

text \<open>The steps of a successful revocation.\<close>

lemma RevokeKey_success:
  assumes "RevokeKey env txt u password reason a = (Some None, a')"
  shows "\<exists>json a1. verifyPassword env u password a = Some None \<and>
    marshal_rev env \<lparr>rev_UserID = u, rev_Reason = reason, RevokedAt = clock env 0\<rparr> = Inr json \<and>
    file_write env (userPath u ''.rev'') json a = (None, a1) \<and>
    sessions_drop_user env u a1 = (None, a')"
  using assms
  by (auto simp: RevokeKey_def Let_def split: if_splits option.splits sum.splits prod.splits)

definition revocation_codec :: "('m, 'k, 'p) auth_env \<Rightarrow> bool" where
  "revocation_codec env \<longleftrightarrow> (\<forall>r json. marshal_rev env r = Inr json \<longrightarrow>
     json \<noteq> ''REVOCATION_PLACEHOLDER'' \<and>
     (\<exists>r'. unmarshal_rev env json = Inr r' \<and> RevokedAt r' = RevokedAt r))"

lemma RevokeKey_effect:
  assumes "RevokeKey env txt u password reason a = (Some None, a')"
    and "medium_sound (med env)" and "sessions_ok env a" and "revocation_codec env"
    and "clock env 0 \<noteq> 0"
  shows "IsRevoked env u a' \<and> challenges a' = challenges a \<and> sessionTTL a' = sessionTTL a \<and>
    sessions_ok env a' \<and> storable env a' = storable env a \<and>
    session_at env a' = drop_where (\<lambda>x. UserID x = u) (session_at env a) \<and>
    (\<forall>p. p \<noteq> userPath u ''.rev'' \<longrightarrow> same_at env p a a')"
proof -
  obtain json a1 where s: "marshal_rev env \<lparr>rev_UserID = u, rev_Reason = reason, RevokedAt = clock env 0\<rparr> = Inr json"
      "file_write env (userPath u ''.rev'') json a = (None, a1)" "sessions_drop_user env u a1 = (None, a')"
    using RevokeKey_success [OF assms(1)] by blast
  have frame: "files_only a a1" using file_write_frame [of a env "userPath u ''.rev''" json] s(2) by simp
  note same = sessions_files_only [OF frame, of env] files_only_simps [OF frame]
  obtain st where st: "a' = a1\<lparr>store := st\<rparr>" "sessions_ok env a'" "storable env a' = storable env a1"
      "session_at env a' = drop_where (\<lambda>x. UserID x = u) (session_at env a1)"
    using sessions_drop_user_drops [of env a1 u] s(3) assms(3) same by auto
  have "file_read env a' (userPath u ''.rev'') = Inr json"
    using file_write_same [OF assms(2) s(2)] st(1) by simp
  moreover obtain r where "json \<noteq> ''REVOCATION_PLACEHOLDER''" "unmarshal_rev env json = Inr r"
      "RevokedAt r = clock env 0"
    using assms(4) s(1) unfolding revocation_codec_def by force
  ultimately have "IsRevoked env u a'" using assms(5) by (simp add: IsRevoked_def IsZero_def)
  moreover have "same_at env p a a'" if "p \<noteq> userPath u ''.rev''" for p
    using file_write_other [OF assms(2) that, of a json] s(2) st(1) by (simp add: same_at_def)
  ultimately show ?thesis using st same by simp
qed

text \<open>
  C21.  After a successful RevokeKey the user is revoked: no session of the user is left, and
  neither a password nor a new challenge gets one; the sessions, files and revocation state of
  everyone else are as before.
\<close>

theorem revoke_key_shuts_the_user_out:
  assumes "RevokeKey env txt u password reason a = (Some None, a')"
    and "medium_sound (med env)" and "sessions_ok env a" and "revocation_codec env"
    and "clock env 0 \<noteq> 0" and "same_services env env'"
  shows "IsRevoked env' u a' \<and>
    fst (Login env' u password' a') = Some (Inl (E ''auth.Login'' ''key has been revoked'' None)) \<and>
    fst (CreateChallenge env' u a') = Inl (E ''auth.CreateChallenge'' ''key has been revoked'' None) \<and>
    (\<forall>t s. session_at env' a' t = Some s \<longleftrightarrow> session_at env a t = Some s \<and> UserID s \<noteq> u) \<and>
    (\<forall>v. v \<noteq> u \<longrightarrow> IsRevoked env' v a' = IsRevoked env v a)"
proof -
  note e = RevokeKey_effect [OF assms(1-5)]
  have "IsRevoked env v a' = IsRevoked env v a" if "v \<noteq> u" for v
  proof -
    have "userPath v ''.rev'' \<noteq> userPath u ''.rev''" using that by (simp add: userPath_eq_iff)
    then have "file_read env a (userPath v ''.rev'') = file_read env a' (userPath v ''.rev'')"
      using e by (simp add: same_at_def)
    then show ?thesis by (simp add: IsRevoked_def)
  qed
  moreover have "IsRevoked env' u a'" using e same_services_simps(11) [OF assms(6)] by simp
  ultimately show ?thesis
    using e by (simp add: same_services_simps [OF assms(6)] Login_def CreateChallenge_def Let_def
      drop_where_Some)
qed

text \<open>
  C36.  Revocation does not reach a challenge that is already pending: the response to one issued
  before RevokeKey is still accepted after it, and gives the revoked user a session.
\<close>

theorem revoked_user_can_answer_pending_challenge:
  assumes "RevokeKey env txt u password reason a = (Some None, a')"
    and "medium_sound (med env)" and "sessions_ok env a" and "revocation_codec env"
    and "clock env 0 \<noteq> 0" and "same_services env env'"
    and "challenges a u = Some ch" and "clock env' 0 \<le> ch_ExpiresAt ch"
    and "file_read env a (userPath u ''.pub'') = Inr pub"
    and "pgp_Verify (pgp env') (Nonce ch) sig pub = None"
    and "rnd env' 32 = Inr tok" and "\<And>x. storable env a x"
  shows "IsRevoked env' u a' \<and>
    fst (ValidateResponse env' u sig a') = Inr (new_session env' 1 u a' tok) \<and>
    session_at env' (snd (ValidateResponse env' u sig a')) (HexEncode tok) =
      Some (new_session env' 1 u a' tok)"
proof -
  note e = RevokeKey_effect [OF assms(1-5)] and s = same_services_simps [OF assms(6)]
  let ?b = "a'\<lparr>challenges := (challenges a')(u := None)\<rparr>"
  have "same_at env (userPath u ''.pub'') a a'" using e by (simp add: userPath_eq_iff)
  then have pub: "file_read env' ?b (userPath u ''.pub'') = Inr pub"
    using assms(9) s(6) by (simp add: same_at_def file_read_def)
  have ok: "sessions_ok env' ?b" "storable env' ?b = storable env a"
    using e s by (simp_all add: session_defs)
  obtain st where c: "createSession env' 1 u ?b = (Inr (new_session env' 1 u ?b tok), ?b\<lparr>store := st\<rparr>)"
    using createSession_ok [OF ok(1) assms(11), of 1 u] ok(2) assms(12) by auto
  have new: "new_session env' 1 u ?b tok = new_session env' 1 u a' tok" by (simp add: new_session_def)
  have v: "ValidateResponse env' u sig a' = (Inr (new_session env' 1 u ?b tok), ?b\<lparr>store := st\<rparr>)"
    using c pub assms(7,8,10) e by (simp add: ValidateResponse_def Let_def After_def)
  have "session_at env' (?b\<lparr>store := st\<rparr>) (Token (new_session env' 1 u ?b tok)) =
      Some (new_session env' 1 u ?b tok)"
    using createSession_stored [OF c ok(1)] ok(2) assms(12) by simp
  with v new e s(11) show ?thesis by (simp add: new_session_def)
qed

lemma demo_codec: "revocation_codec (demo_env t)"
proof -
  have "nat_to_dec n \<noteq> ''REVOCATION_PLACEHOLDER''" for n
    using nat_to_dec_no_sep [of "CHR ''R''" n] by (auto simp: digit_val_def)
  moreover have "Atoi (nat_to_dec (nat i)) = Inr i" if "0 \<le> i" "i < 2 ^ 63" for i
    using Atoi_nat_to_dec [of "nat i"] that by simp
  ultimately show ?thesis
    by (auto simp: revocation_codec_def demo_env_def split: if_splits)
qed

text \<open>A user with a legacy password, and a challenge that is pending until the instant 9.\<close>

definition demo_user :: "(files, rows) auth" where
  "demo_user = demo_auth\<lparr>
     challenges := [''u'' \<mapsto> \<lparr>Nonce = [4, 2], EncryptedNonce = '''', ch_ExpiresAt = 9\<rparr>],
     medium := [''users/u.pub'' \<mapsto> ''PGP PUBLIC KEY BLOCK|u'', ''users/u.lthn'' \<mapsto> ''hwp'']\<rparr>"

lemma demo_user_simps:
  "medium demo_user = [''users/u.pub'' \<mapsto> ''PGP PUBLIC KEY BLOCK|u'', ''users/u.lthn'' \<mapsto> ''hwp'']"
  "store demo_user = Memory NewMemorySessionStore"
  "challenges demo_user ''u'' = Some \<lparr>Nonce = [4, 2], EncryptedNonce = '''', ch_ExpiresAt = 9\<rparr>"
  by (simp_all add: demo_user_def demo_auth_simps)

lemma demo_reads:
  "file_read (demo_env t) a p = (case medium a p of None \<Rightarrow> Inl (Ext ''no such file'') | Some c \<Rightarrow> Inr c)"
  "is_file (demo_env t) a p \<longleftrightarrow> medium a p \<noteq> None"
  by (simp_all add: file_read_def is_file_def demo_simps map_medium_def)

lemma demo_write: "file_write (demo_env t) p c a = (None, a\<lparr>medium := (medium a)(p \<mapsto> c)\<rparr>)"
  by (simp add: file_write_def demo_simps map_medium_def)

lemma demo_revoke:
  "\<exists>a'. RevokeKey (demo_env 5) (\<lambda>_. '''') ''u'' ''pw'' ''lost'' demo_user = (Some None, a')"
proof -
  have "verifyPassword (demo_env 5) ''u'' ''pw'' demo_user = Some None"
    by (simp add: verifyPassword_def demo_reads demo_user_simps userPath_def lthn_Verify_def demo_simps)
  moreover obtain st where "sessions_drop_user (demo_env 5) ''u''
      (demo_user\<lparr>medium := (medium demo_user)(userPath ''u'' ''.rev'' \<mapsto> ''5'')\<rparr>) = (None, st)"
    using sessions_drop_user_drops [of "demo_env 5"
      "demo_user\<lparr>medium := (medium demo_user)(userPath ''u'' ''.rev'' \<mapsto> ''5'')\<rparr>" "''u''"]
      demo_sessions_ok by (auto simp: demo_user_simps)
  moreover have "marshal_rev (demo_env 5) \<lparr>rev_UserID = ''u'', rev_Reason = ''lost'', RevokedAt = 5\<rparr> = Inr ''5''"
    by (simp add: demo_env_def nat_to_dec.simps)
  moreover have "is_file (demo_env 5) demo_user (userPath ''u'' ''.pub'')"
    by (simp add: demo_reads demo_user_simps userPath_def)
  ultimately show ?thesis by (simp add: RevokeKey_def demo_write demo_simps)
qed

theorem revoke_key_shuts_the_user_out_witness:
  "\<exists>a'. RevokeKey (demo_env 5) (\<lambda>_. '''') ''u'' ''pw'' ''lost'' demo_user = (Some None, a') \<and>
     IsRevoked (demo_env 6) ''u'' a' \<and>
     fst (Login (demo_env 6) ''u'' ''pw'' a') = Some (Inl (E ''auth.Login'' ''key has been revoked'' None))"
proof -
  obtain a' where r: "RevokeKey (demo_env 5) (\<lambda>_. '''') ''u'' ''pw'' ''lost'' demo_user = (Some None, a')"
    using demo_revoke by blast
  have "medium_sound (med (demo_env 5))" "clock (demo_env 5) 0 \<noteq> 0"
      "same_services (demo_env 5) (demo_env 6)"
    using map_medium_sound by (simp_all add: demo_simps same_services_def) (simp add: demo_env_def)
  from revoke_key_shuts_the_user_out [OF r this(1) demo_sessions_ok demo_codec this(2,3)] r
  show ?thesis using demo_user_simps(2) by blast
qed

theorem revoked_user_can_answer_pending_challenge_witness:
  "\<exists>a'. RevokeKey (demo_env 5) (\<lambda>_. '''') ''u'' ''pw'' ''lost'' demo_user = (Some None, a') \<and>
     IsRevoked (demo_env 6) ''u'' a' \<and>
     fst (ValidateResponse (demo_env 6) ''u'' [4, 2] a') =
       Inr (new_session (demo_env 6) 1 ''u'' a' (replicate 32 1))"
proof -
  obtain a' where r: "RevokeKey (demo_env 5) (\<lambda>_. '''') ''u'' ''pw'' ''lost'' demo_user = (Some None, a')"
    using demo_revoke by blast
  have "medium_sound (med (demo_env 5))" "clock (demo_env 5) 0 \<noteq> 0"
      "same_services (demo_env 5) (demo_env 6)"
    using map_medium_sound by (simp_all add: demo_simps same_services_def) (simp add: demo_env_def)
  note h = revoked_user_can_answer_pending_challenge
    [OF r this(1) demo_sessions_ok demo_codec this(2,3) demo_user_simps(3)]
  have "clock (demo_env 6) 0 \<le> 9" "rnd (demo_env 6) 32 = Inr (replicate 32 1)"
      "file_read (demo_env 5) demo_user (userPath ''u'' ''.pub'') = Inr ''PGP PUBLIC KEY BLOCK|u''"
      "pgp_Verify (pgp (demo_env 6)) [4, 2] [4, 2] ''PGP PUBLIC KEY BLOCK|u'' = None"
    by (simp_all add: demo_simps demo_reads demo_user_simps userPath_def pgp_Verify_def text_pgp_def)
  from h [of "''PGP PUBLIC KEY BLOCK|u''" "[4, 2]" "replicate 32 1"] this r show ?thesis
    using demo_user_simps(2) demo_storable [OF demo_user_simps(2)] by auto
qed

end
