(* ===== verification/AuthFlows.thy ===== *)
theory AuthFlows
  imports Auth
begin

text \<open>
  The flows of \<^verbatim>\<open>go/auth/auth.go\<close> that span several operations: registration and login, deletion,
  migration of legacy password hashes, rotation of keys, and the sessions of a run of operations.
\<close>

section \<open>Deletion\<close>

lemma DeleteUser_success:
  assumes "DeleteUser env u a = (None, a')"
  shows "\<not> protectedUsers u \<and> is_file env a (userPath u ''.pub'') \<and>
    (\<exists>a1. delete_artifacts env ''auth.DeleteUser'' u artifact_extensions a = (None, a1) \<and>
       sessions_drop_user env u a1 = (None, a'))"
  using assms by (auto simp: DeleteUser_def Let_def split: if_splits option.splits prod.splits)

lemma artifacts_distinct: "distinct artifact_extensions"
  by (simp add: artifact_extensions_def)

lemma artifact_path_other:
  assumes "v \<noteq> u" and "ext \<in> set artifact_extensions"
  shows "userPath v ext \<notin> userPath u ` set artifact_extensions"
  using assms userPath_inj [of ext _ v u] by blast

text \<open>
  C31.  A successful DeleteUser leaves no artifact of the user, under either password scheme, and
  none of the user's sessions; the artifacts and sessions of every other user are untouched, and a
  second deletion finds no user.
\<close>

theorem delete_user_removes_everything:
  assumes "DeleteUser env u a = (None, a')" and "medium_sound (med env)" and "sessions_ok env a"
  shows "(\<forall>ext \<in> set artifact_extensions. \<not> is_file env a' (userPath u ext)) \<and>
    (\<forall>t s. session_at env a' t = Some s \<longleftrightarrow> session_at env a t = Some s \<and> UserID s \<noteq> u) \<and>
    (\<forall>v ext. v \<noteq> u \<longrightarrow> ext \<in> set artifact_extensions \<longrightarrow> same_at env (userPath v ext) a a') \<and>
    DeleteUser env u a' = (Some (E ''auth.DeleteUser'' ''user not found'' None), a')"
proof -
  obtain a1 where d: "\<not> protectedUsers u"
      "delete_artifacts env ''auth.DeleteUser'' u artifact_extensions a = (None, a1)"
      "sessions_drop_user env u a1 = (None, a')"
    using DeleteUser_success [OF assms(1)] by blast
  have frame: "files_only a a1"
    using delete_artifacts_frame [of a env "''auth.DeleteUser''" u artifact_extensions] d(2) by simp
  note same = sessions_files_only [OF frame, of env]
  obtain st where st: "a' = a1\<lparr>store := st\<rparr>"
      "session_at env a' = drop_where (\<lambda>x. UserID x = u) (session_at env a1)"
    using sessions_drop_user_drops [of env a1 u] d(3) assms(3) same by auto
  have gone: "\<not> is_file env a' (userPath u ext)" if "ext \<in> set artifact_extensions" for ext
    using delete_artifacts_gone [OF assms(2) d(2) that artifacts_distinct] st(1) by simp
  moreover have "same_at env (userPath v ext) a a'"
    if "v \<noteq> u" "ext \<in> set artifact_extensions" for v ext
    using delete_artifacts_other [OF assms(2) artifact_path_other [OF that], of a "''auth.DeleteUser''"]
      d(2) st(1) by (simp add: same_at_def)
  moreover have "DeleteUser env u a' = (Some (E ''auth.DeleteUser'' ''user not found'' None), a')"
    using gone [of "''.pub''"] d(1) by (simp add: DeleteUser_def artifact_extensions_def)
  ultimately show ?thesis using st(2) same by (simp add: drop_where_Some)
qed

text \<open>Protection is by user id: the name given at registration is hashed, and not looked at here.\<close>

lemma protection_is_by_id:
  "DeleteUser env ''server'' a = (Some (E ''auth.DeleteUser'' ''cannot delete protected user'' None), a)"
  by (simp add: DeleteUser_def protectedUsers_def Let_def)

section \<open>Registration and login\<close>

lemma option_res_cases [case_names panic error result]:
  fixes r :: "'a res option"
  obtains "r = None" | e where "r = Some (Inl e)" | v where "r = Some (Inr v)"
  by (cases r) (auto, metis sum.exhaust)

lemma writes_case:
  fixes x :: "err option \<times> 's" and v :: "'a res option \<times> 's"
  assumes "(case x of (None, s) \<Rightarrow> f s | (Some e, s) \<Rightarrow> (Some (Inl e), s)) = (Some (Inr u), w)"
  obtains s where "x = (None, s)" "f s = (Some (Inr u), w)"
  using assms by (cases x; cases "fst x") auto

text \<open>The files that registration and rotation write, in order.\<close>

abbreviation key_writes :: "string \<Rightarrow> KeyPair \<Rightarrow> (string \<times> string \<times> string) list" where
  "key_writes u kp \<equiv>
     [(userPath u ''.pub'', PublicKey kp, ''failed to write public key''),
      (userPath u ''.key'', PrivateKey kp, ''failed to write private key''),
      (userPath u ''.rev'', ''REVOCATION_PLACEHOLDER'', ''failed to write revocation certificate'')]"

abbreviation hash_write :: "string \<Rightarrow> string \<Rightarrow> (string \<times> string \<times> string) list" where
  "hash_write u hash \<equiv> [(userPath u ''.hash'', hash, ''failed to write password hash'')]"

abbreviation meta_write :: "string \<Rightarrow> string \<Rightarrow> (string \<times> string \<times> string) list" where
  "meta_write u encMeta \<equiv> [(userPath u ''.json'', encMeta, ''failed to write user metadata'')]"

abbreviation rotation_writes ::
  "string \<Rightarrow> KeyPair \<Rightarrow> string \<Rightarrow> string \<Rightarrow> (string \<times> string \<times> string) list" where
  "rotation_writes u kp encMeta hash \<equiv>
     [(userPath u ''.pub'', PublicKey kp, ''failed to write new public key''),
      (userPath u ''.key'', PrivateKey kp, ''failed to write new private key''),
      (userPath u ''.json'', encMeta, ''failed to write updated metadata''),
      (userPath u ''.hash'', hash, ''failed to write new password hash'')]"

lemma Register_success:
  assumes "Register env username password a = (Some (Inr user), a')"
  defines "u \<equiv> lthn_Hash env username"
  shows "\<exists>m kp a1 a2 hash encMeta.
    \<not> is_file env a (userPath u ''.pub'') \<and> EnsureDir (med env) ''users'' (medium a) = (None, m) \<and>
    CreateKeyPair (pgp env) u (u @ ''@auth.local'') password = Some (Inr kp) \<and>
    file_writes env ''auth.Register''
      (key_writes u kp)
      (a\<lparr>medium := m\<rparr>) = (None, a1) \<and>
    HashPassword (argon env) (rnd env) password = Some (Inr hash) \<and>
    file_writes env ''auth.Register''
      (hash_write u hash) a1 = (None, a2) \<and>
    file_writes env ''auth.Register''
      (meta_write u encMeta) a2 = (None, a') \<and>
    user_KeyID user = u \<and> user_PublicKey user = PublicKey kp \<and> user_PasswordHash user = hash"
proof -
  note r = assms(1) [unfolded Register_def Let_def, folded u_def]
  have 1: "\<not> is_file env a (userPath u ''.pub'')" using r by (rule_tac ccontr) simp
  obtain m where 2: "EnsureDir (med env) ''users'' (medium a) = (None, m)"
    using r 1 by (cases "EnsureDir (med env) ''users'' (medium a)"; cases "fst (EnsureDir (med env) ''users'' (medium a))") auto
  obtain kp where 3: "CreateKeyPair (pgp env) u (u @ ''@auth.local'') password = Some (Inr kp)"
    using r 1 2 by (cases "CreateKeyPair (pgp env) u (u @ ''@auth.local'') password" rule: option_res_cases) auto
  note r3 = r [simplified 1 2 3 if_False prod.case option.case sum.case]
  obtain a1 where 4: "file_writes env ''auth.Register''
      (key_writes u kp)
      (a\<lparr>medium := m\<rparr>) = (None, a1)"
    using r3 by (rule writes_case) auto
  note r4 = r3 [simplified 4 prod.case option.case]
  obtain hash where 5: "HashPassword (argon env) (rnd env) password = Some (Inr hash)"
    using r4 by (cases "HashPassword (argon env) (rnd env) password" rule: option_res_cases) auto
  note r5 = r4 [simplified 5 option.case sum.case]
  obtain a2 where 6: "file_writes env ''auth.Register''
      (hash_write u hash) a1 = (None, a2)"
    using r5 by (rule writes_case) auto
  note r6 = r5 [simplified 6 prod.case option.case]
  let ?user = "\<lparr>user_PublicKey = PublicKey kp, user_KeyID = u,
     user_Fingerprint = lthn_Hash env (PublicKey kp), user_PasswordHash = hash,
     user_Created = clock env 0, user_LastLogin = 0\<rparr>"
  obtain json where 7: "marshal_user env ?user = Inr json"
    using r6 by (cases "marshal_user env ?user") auto
  note r7 = r6 [simplified 7 sum.case]
  obtain enc where 8: "pgp_Encrypt (pgp env) (bytes_of_string json) (PublicKey kp) = Inr enc"
    using r7 by (cases "pgp_Encrypt (pgp env) (bytes_of_string json) (PublicKey kp)") auto
  note r8 = r7 [simplified 8 sum.case]
  obtain a3 where 9: "file_writes env ''auth.Register''
      (meta_write u (string_of_bytes enc)) a2 = (None, a3)"
      "(Some (Inr ?user), a3) = (Some (Inr user), a')"
    using r8 by (rule writes_case) auto
  show ?thesis
  proof (intro exI conjI)
    show "file_writes env ''auth.Register''
        (meta_write u (string_of_bytes enc)) a2 = (None, a')"
      using 9 by simp
    show "user_KeyID user = u" "user_PublicKey user = PublicKey kp" "user_PasswordHash user = hash"
      using 9(2) by auto
  qed (fact 1 2 3 4 5 6)+
qed

lemma ensure_same:
  assumes "medium_sound (med env)" and "EnsureDir (med env) d (medium a) = (e, m)"
  shows "same_at env p a (a\<lparr>medium := m\<rparr>)"
proof -
  have "med_Read (med env) (snd (EnsureDir (med env) d (medium a))) p = med_Read (med env) (medium a) p \<and>
      IsFile (med env) (snd (EnsureDir (med env) d (medium a))) p = IsFile (med env) (medium a) p"
    using assms(1) by (simp add: medium_sound_def)
  with assms(2) show ?thesis by (simp add: same_at_def file_read_def is_file_def)
qed

text \<open>What a medium holds after a registration.\<close>

lemma Register_effect:
  assumes "Register env username password a = (Some (Inr user), a')" and "medium_sound (med env)"
  defines "u \<equiv> lthn_Hash env username"
  shows "\<exists>kp hash. CreateKeyPair (pgp env) u (u @ ''@auth.local'') password = Some (Inr kp) \<and>
    HashPassword (argon env) (rnd env) password = Some (Inr hash) \<and>
    files_only a a' \<and> \<not> is_file env a (userPath u ''.pub'') \<and>
    is_file env a' (userPath u ''.pub'') \<and> file_read env a' (userPath u ''.pub'') = Inr (PublicKey kp) \<and>
    file_read env a' (userPath u ''.key'') = Inr (PrivateKey kp) \<and>
    file_read env a' (userPath u ''.rev'') = Inr ''REVOCATION_PLACEHOLDER'' \<and>
    is_file env a' (userPath u ''.hash'') \<and> file_read env a' (userPath u ''.hash'') = Inr hash \<and>
    (\<forall>p. p \<notin> userPath u ` set artifact_extensions \<longrightarrow> same_at env p a a')"
proof -
  let ?op = "''auth.Register''"
  obtain m kp a1 a2 hash encMeta where
      r: "\<not> is_file env a (userPath u ''.pub'')" "EnsureDir (med env) ''users'' (medium a) = (None, m)"
      "CreateKeyPair (pgp env) u (u @ ''@auth.local'') password = Some (Inr kp)"
      "HashPassword (argon env) (rnd env) password = Some (Inr hash)"
      and w1: "file_writes env ?op
      (key_writes u kp)
      (a\<lparr>medium := m\<rparr>) = (None, a1)"
      and w2: "file_writes env ?op
      (hash_write u hash) a1 = (None, a2)"
      and w3: "file_writes env ?op
      (meta_write u encMeta) a2 = (None, a')"
    using Register_success [OF assms(1)] unfolding u_def by blast
  let ?ws1 = "key_writes u kp"
  have d1: "distinct (map fst ?ws1)" by (simp add: userPath_eq_iff)
  have ens: "same_at env p a (a\<lparr>medium := m\<rparr>)" for p
    by (rule ensure_same [OF assms(2) r(2)])
  have o2: "same_at env p a1 a2" if "p \<noteq> userPath u ''.hash''" for p
    using file_writes_other [OF assms(2), of p
      "hash_write u hash" a1 ?op] w2 that by simp
  have o3: "same_at env p a2 a'" if "p \<noteq> userPath u ''.json''" for p
    using file_writes_other [OF assms(2), of p
      "meta_write u encMeta" a2 ?op] w3 that by simp
  have h: "file_read env a2 (userPath u ''.hash'') = Inr hash \<and> is_file env a2 (userPath u ''.hash'')"
    by (rule file_writes_same [OF assms(2) w2]) simp_all
  have k: "file_read env a' p = Inr c \<and> is_file env a' p"
    if "(p, c, f) \<in> set ?ws1" "p \<noteq> userPath u ''.hash''" "p \<noteq> userPath u ''.json''" for p c f
    using file_writes_same [OF assms(2) w1 d1 that(1)] o2 [OF that(2)] o3 [OF that(3)]
    by (simp add: same_at_def)
  have "same_at env p a a'" if p: "p \<notin> userPath u ` set artifact_extensions" for p
  proof -
    have ne: "p \<noteq> userPath u ext" if "ext \<in> set artifact_extensions" for ext using p that by blast
    have "same_at env p (a\<lparr>medium := m\<rparr>) a1"
      using file_writes_other [OF assms(2), of p ?ws1 "a\<lparr>medium := m\<rparr>" ?op] w1
        ne [of "''.pub''"] ne [of "''.key''"] ne [of "''.rev''"] by (simp add: artifact_extensions_def)
    then have "same_at env p a a1" using ens same_at_trans by blast
    moreover have "same_at env p a1 a2" "same_at env p a2 a'"
      using o2 o3 ne [of "''.hash''"] ne [of "''.json''"] by (simp_all add: artifact_extensions_def)
    ultimately show ?thesis by (simp add: same_at_def)
  qed
  moreover have "files_only a a'"
  proof -
    have "files_only (a\<lparr>medium := m\<rparr>) a1" "files_only a1 a2" "files_only a2 a'"
      using file_writes_frame [of "a\<lparr>medium := m\<rparr>" env ?op ?ws1] w1
        file_writes_frame [of a1 env ?op "hash_write u hash"] w2
        file_writes_frame [of a2 env ?op "meta_write u encMeta"] w3
      by simp_all
    moreover have "files_only a (a\<lparr>medium := m\<rparr>)" by (auto simp: files_only_def)
    ultimately show ?thesis using files_only_trans by blast
  qed
  ultimately show ?thesis
    using r(1) h o3 [of "userPath u ''.hash''"] k [of "userPath u ''.pub''" "PublicKey kp"]
      k [of "userPath u ''.key''" "PrivateKey kp"] k [of "userPath u ''.rev''" "''REVOCATION_PLACEHOLDER''"]
    by (intro exI [of _ kp] exI [of _ hash]) (auto simp: userPath_eq_iff same_at_def r)
qed

text \<open>Login against a stored Argon2id hash, and against a legacy one.\<close>

lemma Login_hash:
  assumes "\<not> IsRevoked env u a" and "is_file env a (userPath u ''.hash'')"
    and "file_read env a (userPath u ''.hash'') = Inr hash" and "HasPrefix hash ''$argon2id$''"
  shows "Login env u q a =
    (case VerifyPassword (argon env) q hash of
       None \<Rightarrow> (None, a)
     | Some (Inl e) \<Rightarrow> (Some (Inl (E ''auth.Login'' ''failed to verify password'' (Some e))), a)
     | Some (Inr valid) \<Rightarrow> if \<not> valid then (Some (Inl (E ''auth.Login'' ''invalid password'' None)), a)
         else map_prod Some id (createSession env 0 u a))"
  using assms by (simp add: Login_def Let_def)

lemma verifyPassword_hash:
  assumes "is_file env a (userPath u ''.hash'')"
    and "file_read env a (userPath u ''.hash'') = Inr hash" and "HasPrefix hash ''$argon2id$''"
  shows "verifyPassword env u q a = Some None \<longleftrightarrow> VerifyPassword (argon env) q hash = Some (Inr True)"
  using assms by (auto simp: verifyPassword_def Let_def split: option.splits sum.splits if_splits)

text \<open>
  C24.  After a successful registration the password opens a session of the new user, and any
  other password does so only if the key derived from it under the stored salt is the same; the
  name cannot be registered a second time.
\<close>

theorem registered_user_can_log_in:
  assumes "Register env username password a = (Some (Inr user), a')"
    and "medium_sound (med env)" and "kdf_sound (argon env)" and "same_services env env'"
    and "sessions_ok env a" and "\<And>x. storable env a x" and "rnd env' 32 = Inr tok"
  shows "fst (Login env' (lthn_Hash env username) password a') =
      Some (Inr (new_session env' 0 (lthn_Hash env username) a tok)) \<and>
    (\<exists>salt h. rnd env argon2SaltLen = Inr salt \<and>
       DeriveKey (argon env) (bytes_of_string password) salt argon2KeyLen = Some h \<and>
       (\<forall>q k. DeriveKey (argon env) (bytes_of_string q) salt argon2KeyLen = Some k \<longrightarrow> k \<noteq> h \<longrightarrow>
          fst (Login env' (lthn_Hash env username) q a') =
            Some (Inl (E ''auth.Login'' ''invalid password'' None)))) \<and>
    fst (Register env' username password' a') =
      Some (Inl (E ''auth.Register'' ''user already exists'' None))"
proof -
  let ?u = "lthn_Hash env username"
  note s = same_services_simps [OF assms(4)]
  obtain hash where h: "HashPassword (argon env) (rnd env) password = Some (Inr hash)"
      "files_only a a'" "is_file env a' (userPath ?u ''.pub'')"
      "file_read env a' (userPath ?u ''.rev'') = Inr ''REVOCATION_PLACEHOLDER''"
      "is_file env a' (userPath ?u ''.hash'')" "file_read env a' (userPath ?u ''.hash'') = Inr hash"
    using Register_effect [OF assms(1,2)] by blast
  obtain salt k where v: "rnd env argon2SaltLen = Inr salt"
      "DeriveKey (argon env) (bytes_of_string password) salt argon2KeyLen = Some k"
      "\<And>q. VerifyPassword (argon env) q hash =
         map_option (\<lambda>k'. Inr (k' = k)) (DeriveKey (argon env) (bytes_of_string q) salt argon2KeyLen)"
    using HashPassword_verifies [OF assms(3) h(1)] by blast
  have "\<not> IsRevoked env ?u a'" using h(4) by (simp add: IsRevoked_def)
  then have login: "Login env' ?u q a' =
      (case map_option (\<lambda>k'. Inr (k' = k)) (DeriveKey (argon env) (bytes_of_string q) salt argon2KeyLen) of
         None \<Rightarrow> (None, a')
       | Some (Inl e) \<Rightarrow> (Some (Inl (E ''auth.Login'' ''failed to verify password'' (Some e))), a')
       | Some (Inr valid) \<Rightarrow>
           if \<not> valid then (Some (Inl (E ''auth.Login'' ''invalid password'' None)), a')
           else map_prod Some id (createSession env' 0 ?u a'))" for q
    using Login_hash [of env' ?u a' hash q] h(5,6) HashPassword_prefix [OF h(1)] v(3) s by simp
  have frame: "sessions_ok env' a'" "storable env' a' = storable env a"
      "new_session env' 0 ?u a' = new_session env' 0 ?u a"
    using sessions_files_only [OF h(2), of env] files_only_simps [OF h(2)] s assms(5)
    by (simp_all add: new_session_def fun_eq_iff)
  obtain st where "createSession env' 0 ?u a' = (Inr (new_session env' 0 ?u a tok), a'\<lparr>store := st\<rparr>)"
    using createSession_ok [OF frame(1) assms(7), of 0 ?u] frame(2,3) assms(6) by auto
  then have "fst (Login env' ?u password a') = Some (Inr (new_session env' 0 ?u a tok))"
    using login [of password] v(2) by simp
  moreover have "fst (Login env' ?u q a') = Some (Inl (E ''auth.Login'' ''invalid password'' None))"
    if "DeriveKey (argon env) (bytes_of_string q) salt argon2KeyLen = Some k'" "k' \<noteq> k" for q k'
    using login [of q] that by simp
  moreover have "fst (Register env' username password' a') =
      Some (Inl (E ''auth.Register'' ''user already exists'' None))"
    using h(3) s by (simp add: Register_def Let_def)
  ultimately show ?thesis using v(1,2) by blast
qed

lemma demo_register:
  "\<exists>user a'. Register (demo_env 5) ''n'' ''pw'' demo_auth = (Some (Inr user), a')"
proof -
  obtain hash where h: "HashPassword plain_kdf (\<lambda>n. Inr (replicate n 1)) ''pw'' = Some (Inr hash)"
    using HashPassword_total [of "\<lambda>n. Inr (replicate n 1)" "replicate argon2SaltLen 1"] plain_key_exists
    by blast
  obtain kp where kp: "CreateKeyPair text_pgp ''hn'' ''hn@auth.local'' ''pw'' = Some (Inr kp)"
      "PublicKey kp = ''PGP PUBLIC KEY BLOCK|hn''"
    by (simp add: CreateKeyPair_def text_pgp_def encrypt_entity_def serializeEncryptedEntity_def write_key_def
      publicKeyType_def)
  have "\<exists>e. pgp_Encrypt text_pgp d ''PGP PUBLIC KEY BLOCK|hn'' = Inr e" for d
    by (simp add: pgp_Encrypt_def text_pgp_def)
  then obtain e where e: "pgp_Encrypt text_pgp (bytes_of_string ''hn'') ''PGP PUBLIC KEY BLOCK|hn'' = Inr e"
    by blast
  have "\<not> is_file (demo_env 5) demo_auth (userPath ''hn'' ''.pub'')"
    by (simp add: demo_reads demo_auth_simps)
  moreover have "EnsureDir map_medium d m = (None, m)" for d m by (simp add: map_medium_def)
  moreover have "marshal_user (demo_env 5) u = Inr (user_KeyID u)" for u by (simp add: demo_env_def)
  ultimately show ?thesis using h kp e by (simp add: Register_def Let_def demo_simps demo_write)
qed

theorem registered_user_can_log_in_witness:
  "\<exists>user a' s. Register (demo_env 5) ''n'' ''pw'' demo_auth = (Some (Inr user), a') \<and>
     fst (Login (demo_env 6) ''hn'' ''pw'' a') = Some (Inr s) \<and> UserID s = ''hn''"
proof -
  obtain user a' where r: "Register (demo_env 5) ''n'' ''pw'' demo_auth = (Some (Inr user), a')"
    using demo_register by blast
  have "medium_sound (med (demo_env 5))" "kdf_sound (argon (demo_env 5))"
      "same_services (demo_env 5) (demo_env 6)" "rnd (demo_env 6) 32 = Inr (replicate 32 1)"
    using map_medium_sound plain_kdf_sound by (simp_all add: demo_simps same_services_def)
      (simp add: demo_env_def)
  from registered_user_can_log_in [OF r this(1-3) demo_sessions_ok [OF demo_auth_simps(2)]
      demo_storable [OF demo_auth_simps(2)] this(4)] r
  show ?thesis by (auto simp: demo_simps new_session_def)
qed

theorem delete_user_removes_everything_witness:
  "\<exists>a'. DeleteUser (demo_env 5) ''u'' demo_user = (None, a') \<and>
     \<not> is_file (demo_env 5) a' (userPath ''u'' ''.lthn'')"
proof -
  have del: "file_delete (demo_env 5) p a =
      (if medium a p = None then (Some (Ext ''no such file''), a) else (None, a\<lparr>medium := (medium a)(p := None)\<rparr>))"
    for p a by (simp add: file_delete_def demo_simps map_medium_def)
  obtain a1 where a1: "delete_artifacts (demo_env 5) ''auth.DeleteUser'' ''u'' artifact_extensions demo_user = (None, a1)"
    by (simp add: artifact_extensions_def demo_reads del demo_user_simps userPath_def)
  then have "files_only demo_user a1"
    using delete_artifacts_frame [of demo_user "demo_env 5" "''auth.DeleteUser''" "''u''" artifact_extensions]
    by simp
  then have ok: "sessions_ok (demo_env 5) a1"
    using demo_sessions_ok files_only_simps(1) demo_user_simps(2) by metis
  obtain a2 where "sessions_drop_user (demo_env 5) ''u'' a1 = (None, a2)"
    using sessions_drop_user_drops [OF ok] by blast
  with a1 have d: "DeleteUser (demo_env 5) ''u'' demo_user = (None, a2)"
    by (simp add: DeleteUser_def protectedUsers_def demo_reads demo_user_simps userPath_def Let_def)
  have "medium_sound (med (demo_env 5))" using map_medium_sound by (simp add: demo_simps)
  from delete_user_removes_everything [OF d this demo_sessions_ok [OF demo_user_simps(2)]] d
  show ?thesis by (auto simp: artifact_extensions_def)
qed

section \<open>Legacy passwords\<close>

text \<open>
  A login against a legacy hash migrates it: when the hash can be made and written, the user
  has an Argon2id hash afterwards, under which the same password is accepted from then on, and the
  login succeeds; when the write fails the login succeeds all the same.
\<close>

theorem legacy_login_migrates:
  assumes "\<not> IsRevoked env u a" and "\<not> is_file env a (userPath u ''.hash'')"
    and "file_read env a (userPath u ''.lthn'') = Inr (lthn_Hash env password)"
    and "HashPassword (argon env) (rnd env) password = Some (Inr hash)"
    and "medium_sound (med env)" and "kdf_sound (argon env)" and "same_services env env'"
    and "sessions_ok env a" and "\<And>x. storable env a x" and "rnd env 32 = Inr tok"
  shows "fst (Login env u password a) = Some (Inr (new_session env 0 u a tok)) \<and>
    (\<forall>m. med_Write (med env) (userPath u ''.hash'') hash (medium a) = (None, m) \<longrightarrow>
       verifyPassword env' u password (snd (Login env u password a)) = Some None \<and>
       file_read env (snd (Login env u password a)) (userPath u ''.hash'') = Inr hash)"
proof -
  note s = same_services_simps [OF assms(7)]
  obtain e b where w: "file_write env (userPath u ''.hash'') hash a = (e, b)"
    by (cases "file_write env (userPath u ''.hash'') hash a")
  then have frame: "files_only a b" using file_write_frame [of a env "userPath u ''.hash''" hash] by simp
  obtain c where c: "migrate_hash env u password a = (Some (), c)" "store c = store b"
      "sessionTTL c = sessionTTL b" "medium c = medium b"
    using w assms(4) by (cases e) (auto simp: migrate_hash_def)
  have ok: "sessions_ok env c" "storable env c = storable env a" "new_session env 0 u c tok = new_session env 0 u a tok"
    using c(2,3) files_only_simps [OF frame] assms(8) by (simp_all add: session_defs new_session_def)
  obtain st where st: "createSession env 0 u c = (Inr (new_session env 0 u a tok), c\<lparr>store := st\<rparr>)"
    using createSession_ok [OF ok(1) assms(10), of 0 u] ok assms(9) by auto
  have login: "Login env u password a = (Some (Inr (new_session env 0 u a tok)), c\<lparr>store := st\<rparr>)"
    using assms(1-3) c(1) st by (simp add: Login_def Let_def lthn_Verify_def)
  have "verifyPassword env' u password (c\<lparr>store := st\<rparr>) = Some None \<and>
      file_read env (c\<lparr>store := st\<rparr>) (userPath u ''.hash'') = Inr hash"
    if m: "med_Write (med env) (userPath u ''.hash'') hash (medium a) = (None, m)" for m
  proof -
    have "file_write env (userPath u ''.hash'') hash a = (None, b)"
      using w m by (auto simp: file_write_def)
    from file_write_same [OF assms(5) this]
    have r: "file_read env (c\<lparr>store := st\<rparr>) (userPath u ''.hash'') = Inr hash"
        "is_file env (c\<lparr>store := st\<rparr>) (userPath u ''.hash'')"
      using c(4) by (simp_all add: file_read_def is_file_def)
    obtain salt h where "VerifyPassword (argon env) password hash = Some (Inr True)"
      using HashPassword_verifies [OF assms(6,4)] by auto
    with r show ?thesis
      using verifyPassword_hash [of env' "c\<lparr>store := st\<rparr>" u hash password] s HashPassword_prefix [OF assms(4)]
      by simp
  qed
  with login show ?thesis by simp
qed

theorem legacy_login_migrates_witness:
  "\<exists>hash. HashPassword plain_kdf (\<lambda>n. Inr (replicate n 1)) ''pw'' = Some (Inr hash) \<and>
     fst (Login (demo_env 5) ''u'' ''pw'' demo_user) =
       Some (Inr (new_session (demo_env 5) 0 ''u'' demo_user (replicate 32 1))) \<and>
     verifyPassword (demo_env 6) ''u'' ''pw'' (snd (Login (demo_env 5) ''u'' ''pw'' demo_user)) = Some None"
proof -
  obtain hash where h: "HashPassword plain_kdf (\<lambda>n. Inr (replicate n 1)) ''pw'' = Some (Inr hash)"
    using HashPassword_total [of "\<lambda>n. Inr (replicate n 1)" "replicate argon2SaltLen 1"] plain_key_exists
    by blast
  have p: "\<not> IsRevoked (demo_env 5) ''u'' demo_user" "\<not> is_file (demo_env 5) demo_user (userPath ''u'' ''.hash'')"
      "file_read (demo_env 5) demo_user (userPath ''u'' ''.lthn'') = Inr (lthn_Hash (demo_env 5) ''pw'')"
      "HashPassword (argon (demo_env 5)) (rnd (demo_env 5)) ''pw'' = Some (Inr hash)"
      "medium_sound (med (demo_env 5))" "kdf_sound (argon (demo_env 5))"
      "same_services (demo_env 5) (demo_env 6)"
    using map_medium_sound plain_kdf_sound h
    by (simp_all add: IsRevoked_def demo_simps demo_reads demo_user_simps userPath_def same_services_def)
      (simp add: demo_env_def)
  have "rnd (demo_env 5) 32 = Inr (replicate 32 1)" by (simp add: demo_simps)
  note l = legacy_login_migrates [OF p demo_sessions_ok [OF demo_user_simps(2)]
    demo_storable [OF demo_user_simps(2)] this]
  have "\<exists>m. med_Write (med (demo_env 5)) (userPath ''u'' ''.hash'') hash (medium demo_user) = (None, m)"
    by (simp add: demo_simps map_medium_def)
  with l h show ?thesis by blast
qed

section \<open>Rotation\<close>

lemma RotateKeyPair_success:
  assumes "RotateKeyPair env u old new a = (Some (Inr user), a')"
  shows "\<exists>privKey encMeta meta kp hash encMeta' a1.
    is_file env a (userPath u ''.pub'') \<and> file_read env a (userPath u ''.key'') = Inr privKey \<and>
    file_read env a (userPath u ''.json'') = Inr encMeta \<and>
    pgp_Decrypt (pgp env) (bytes_of_string encMeta) privKey old = Inr meta \<and>
    CreateKeyPair (pgp env) u (u @ ''@auth.local'') new = Some (Inr kp) \<and>
    HashPassword (argon env) (rnd env) new = Some (Inr hash) \<and>
    user_PublicKey user = PublicKey kp \<and> user_PasswordHash user = hash \<and>
    file_writes env ''auth.RotateKeyPair''
      (rotation_writes u kp encMeta' hash) a = (None, a1) \<and>
    sessions_drop_user env u a1 = (None, a')"
proof -
  note r = assms [unfolded RotateKeyPair_def Let_def]
  have 1: "is_file env a (userPath u ''.pub'')" using r by (rule_tac ccontr) simp
  obtain privKey where 2: "file_read env a (userPath u ''.key'') = Inr privKey"
    using r 1 by (cases "file_read env a (userPath u ''.key'')") auto
  obtain encMeta where 3: "file_read env a (userPath u ''.json'') = Inr encMeta"
    using r 1 2 by (cases "file_read env a (userPath u ''.json'')") auto
  note r3 = r [simplified 1 2 3 simp_thms if_False sum.case]
  obtain meta where 4: "pgp_Decrypt (pgp env) (bytes_of_string encMeta) privKey old = Inr meta"
    using r3 by (cases "pgp_Decrypt (pgp env) (bytes_of_string encMeta) privKey old") auto
  obtain user0 where 5: "unmarshal_user env meta = Inr user0"
    using r3 4 by (cases "unmarshal_user env meta") auto
  note r5 = r3 [simplified 4 5 sum.case]
  obtain kp where 6: "CreateKeyPair (pgp env) u (u @ ''@auth.local'') new = Some (Inr kp)"
    using r5 by (cases "CreateKeyPair (pgp env) u (u @ ''@auth.local'') new" rule: option_res_cases) auto
  note r6 = r5 [simplified 6 option.case sum.case]
  obtain hash where 7: "HashPassword (argon env) (rnd env) new = Some (Inr hash)"
    using r6 by (cases "HashPassword (argon env) (rnd env) new" rule: option_res_cases) auto
  note r7 = r6 [simplified 7 option.case sum.case]
  let ?user = "user0\<lparr>user_PublicKey := PublicKey kp, user_Fingerprint := lthn_Hash env (PublicKey kp),
     user_PasswordHash := hash\<rparr>"
  obtain json where 8: "marshal_user env ?user = Inr json"
    using r7 by (cases "marshal_user env ?user") auto
  note r8 = r7 [simplified 8 sum.case]
  obtain enc where 9: "pgp_Encrypt (pgp env) (bytes_of_string json) (PublicKey kp) = Inr enc"
    using r8 by (cases "pgp_Encrypt (pgp env) (bytes_of_string json) (PublicKey kp)") auto
  note r9 = r8 [simplified 9 sum.case]
  obtain a1 where 10: "file_writes env ''auth.RotateKeyPair''
      (rotation_writes u kp (string_of_bytes enc) hash) a = (None, a1)"
    using r9 by (rule writes_case) auto
  note r10 = r9 [simplified 10 prod.case option.case]
  have 11: "sessions_drop_user env u a1 = (None, a') \<and> user = ?user"
    using r10 by (cases "sessions_drop_user env u a1"; cases "fst (sessions_drop_user env u a1)") auto
  show ?thesis
  proof (intro exI conjI)
    show "user_PublicKey user = PublicKey kp" "user_PasswordHash user = hash"
        "sessions_drop_user env u a1 = (None, a')" using 11 by auto
  qed (fact 1 2 3 4 6 7 10)+
qed

text \<open>
  C30.  A successful rotation needs the current password: the old metadata was opened with it.
  Afterwards the stored public key is the new one, the new password is accepted and another one
  only if it derives the same key, no session of the user is left, the user is as revoked as
  before, and no other user's artifact has changed.
\<close>

theorem rotation_replaces_credentials:
  assumes "RotateKeyPair env u old new a = (Some (Inr user), a')"
    and "medium_sound (med env)" and "sessions_ok env a" and "kdf_sound (argon env)"
  shows "(\<exists>privKey encMeta meta. file_read env a (userPath u ''.key'') = Inr privKey \<and>
      file_read env a (userPath u ''.json'') = Inr encMeta \<and>
      pgp_Decrypt (pgp env) (bytes_of_string encMeta) privKey old = Inr meta) \<and>
    file_read env a' (userPath u ''.pub'') = Inr (user_PublicKey user) \<and>
    (\<exists>salt h. DeriveKey (argon env) (bytes_of_string new) salt argon2KeyLen = Some h \<and>
       (\<forall>q. verifyPassword env u q a' = Some None \<longleftrightarrow>
          DeriveKey (argon env) (bytes_of_string q) salt argon2KeyLen = Some h)) \<and>
    (\<forall>t s. session_at env a' t = Some s \<longleftrightarrow> session_at env a t = Some s \<and> UserID s \<noteq> u) \<and>
    IsRevoked env u a' = IsRevoked env u a \<and>
    (\<forall>v ext. v \<noteq> u \<longrightarrow> ext \<in> set artifact_extensions \<longrightarrow> same_at env (userPath v ext) a a')"
proof -
  let ?op = "''auth.RotateKeyPair''"
  obtain privKey encMeta meta hash encMeta' a1 and kp :: KeyPair where
      r: "file_read env a (userPath u ''.key'') = Inr privKey" "file_read env a (userPath u ''.json'') = Inr encMeta"
        "pgp_Decrypt (pgp env) (bytes_of_string encMeta) privKey old = Inr meta"
        "HashPassword (argon env) (rnd env) new = Some (Inr hash)" "user_PublicKey user = PublicKey kp"
      and w: "file_writes env ?op
      (rotation_writes u kp encMeta' hash) a = (None, a1)"
      and d: "sessions_drop_user env u a1 = (None, a')"
    using RotateKeyPair_success [OF assms(1)] by blast
  let ?ws = "rotation_writes u kp encMeta' hash"
  have frame: "files_only a a1" using file_writes_frame [of a env ?op ?ws] w by simp
  note same = sessions_files_only [OF frame, of env]
  obtain st where st: "a' = a1\<lparr>store := st\<rparr>"
      "session_at env a' = drop_where (\<lambda>x. UserID x = u) (session_at env a1)"
    using sessions_drop_user_drops [of env a1 u] d assms(3) same by auto
  have dist: "distinct (map fst ?ws)" by (simp add: userPath_eq_iff)
  have written: "file_read env a' p = Inr c \<and> is_file env a' p" if "(p, c, f) \<in> set ?ws" for p c f
    using file_writes_same [OF assms(2) w dist that] st(1) by (simp only: file_read_store)
  have other: "same_at env p a a'" if "p \<notin> fst ` set ?ws" for p
    using file_writes_other [OF assms(2) that, of a ?op] unfolding w st(1)
    by (simp only: same_at_def file_read_store snd_conv)
  have h: "file_read env a' (userPath u ''.hash'') = Inr hash" "is_file env a' (userPath u ''.hash'')"
    using written [of "userPath u ''.hash''" hash "''failed to write new password hash''"] by simp_all
  obtain salt k where v: "DeriveKey (argon env) (bytes_of_string new) salt argon2KeyLen = Some k"
      "\<And>q. VerifyPassword (argon env) q hash =
         map_option (\<lambda>k'. Inr (k' = k)) (DeriveKey (argon env) (bytes_of_string q) salt argon2KeyLen)"
    using HashPassword_verifies [OF assms(4) r(4)] by blast
  have "verifyPassword env u q a' = Some None \<longleftrightarrow>
      DeriveKey (argon env) (bytes_of_string q) salt argon2KeyLen = Some k" for q
    using verifyPassword_hash [OF h(2,1) HashPassword_prefix [OF r(4)], of q] v(2) [of q] by auto
  moreover have "IsRevoked env u a' = IsRevoked env u a"
    using other [of "userPath u ''.rev''"] by (simp add: userPath_eq_iff same_at_def IsRevoked_def)
  moreover have "same_at env (userPath v ext) a a'" if "v \<noteq> u" "ext \<in> set artifact_extensions" for v ext
  proof (rule other)
    have "userPath v ext \<noteq> userPath u x" if "x \<in> set artifact_extensions" for x
      using artifact_path_other [OF \<open>v \<noteq> u\<close> \<open>ext \<in> set artifact_extensions\<close>] that by blast
    then show "userPath v ext \<notin> fst ` set ?ws" by (simp add: artifact_extensions_def)
  qed
  ultimately show ?thesis
    using r(1-3,5) v(1) written [of "userPath u ''.pub''" "PublicKey kp" "''failed to write new public key''"]
      st(2) same(1) by (simp add: drop_where_Some) blast
qed

text \<open>The user of \<open>demo_user\<close> with a private key and metadata that decrypt.\<close>

definition demo_owner :: "(files, rows) auth" where
  "demo_owner = demo_user\<lparr>medium := (medium demo_user)
     (''users/u.key'' \<mapsto> ''PGP PRIVATE KEY BLOCK|x'', ''users/u.json'' \<mapsto> ''PGP MESSAGE|u'')\<rparr>"

lemma demo_owner_simps:
  "medium demo_owner = (medium demo_user)
     (''users/u.key'' \<mapsto> ''PGP PRIVATE KEY BLOCK|x'', ''users/u.json'' \<mapsto> ''PGP MESSAGE|u'')"
  "store demo_owner = Memory NewMemorySessionStore"
  by (simp_all add: demo_owner_def demo_user_simps)

lemma demo_drop_user:
  "store a = Memory NewMemorySessionStore \<Longrightarrow> \<exists>a'. sessions_drop_user (demo_env t) u a = (None, a')"
  using sessions_drop_user_drops [OF demo_sessions_ok] by blast

lemma demo_rotate:
  "\<exists>user a'. RotateKeyPair (demo_env 5) ''u'' ''old'' ''new'' demo_owner = (Some (Inr user), a')"
proof -
  obtain hash where h: "HashPassword plain_kdf (\<lambda>n. Inr (replicate n 1)) ''new'' = Some (Inr hash)"
    using HashPassword_total [of "\<lambda>n. Inr (replicate n 1)" "replicate argon2SaltLen 1"] plain_key_exists
    by blast
  obtain kp where kp: "CreateKeyPair text_pgp ''u'' ''u@auth.local'' ''new'' = Some (Inr kp)"
      "PublicKey kp = ''PGP PUBLIC KEY BLOCK|u''"
    by (simp add: CreateKeyPair_def text_pgp_def encrypt_entity_def serializeEncryptedEntity_def write_key_def
      publicKeyType_def)
  have "\<exists>e. pgp_Encrypt text_pgp d ''PGP PUBLIC KEY BLOCK|u'' = Inr e" for d
    by (simp add: pgp_Encrypt_def text_pgp_def)
  then obtain e where e: "\<And>d. pgp_Encrypt text_pgp d ''PGP PUBLIC KEY BLOCK|u'' = Inr (e d)" by metis
  have dec: "\<exists>m. pgp_Decrypt text_pgp (bytes_of_string ''PGP MESSAGE|u'') ''PGP PRIVATE KEY BLOCK|x'' ''old'' = Inr m"
    by (simp add: pgp_Decrypt_def text_pgp_def unlock_primary_def privateKeyType_def)
  then obtain m where m: "pgp_Decrypt text_pgp (bytes_of_string ''PGP MESSAGE|u'') ''PGP PRIVATE KEY BLOCK|x'' ''old'' = Inr m"
    by blast
  have reads: "is_file (demo_env 5) demo_owner (userPath ''u'' ''.pub'')"
      "file_read (demo_env 5) demo_owner (userPath ''u'' ''.key'') = Inr ''PGP PRIVATE KEY BLOCK|x''"
      "file_read (demo_env 5) demo_owner (userPath ''u'' ''.json'') = Inr ''PGP MESSAGE|u''"
    by (simp_all add: demo_reads demo_owner_simps demo_user_simps userPath_def)
  have user: "\<exists>v. unmarshal_user (demo_env 5) m = Inr v" "\<And>w. marshal_user (demo_env 5) w = Inr (user_KeyID w)"
    by (simp_all add: demo_env_def)
  then obtain v where v: "unmarshal_user (demo_env 5) m = Inr v" by blast
  obtain f where f: "\<And>b. store b = Memory NewMemorySessionStore \<Longrightarrow>
      sessions_drop_user (demo_env 5) ''u'' b = (None, f b)"
    using demo_drop_user [of _ 5 "''u''"] by metis
  show ?thesis
    using h kp e m reads user(2) v f
    by (simp add: RotateKeyPair_def Let_def demo_simps demo_write demo_owner_simps)
qed

theorem rotation_replaces_credentials_witness:
  "\<exists>user a'. RotateKeyPair (demo_env 5) ''u'' ''old'' ''new'' demo_owner = (Some (Inr user), a') \<and>
     verifyPassword (demo_env 5) ''u'' ''new'' a' = Some None"
proof -
  obtain user a' where r: "RotateKeyPair (demo_env 5) ''u'' ''old'' ''new'' demo_owner = (Some (Inr user), a')"
    using demo_rotate by blast
  have "medium_sound (med (demo_env 5))" "kdf_sound (argon (demo_env 5))"
    using map_medium_sound plain_kdf_sound by (simp_all add: demo_simps)
  from rotation_replaces_credentials [OF r this(1) demo_sessions_ok [OF demo_owner_simps(2)] this(2)]
  have "\<exists>salt h. DeriveKey (argon (demo_env 5)) (bytes_of_string ''new'') salt argon2KeyLen = Some h \<and>
      (\<forall>q. verifyPassword (demo_env 5) ''u'' q a' = Some None \<longleftrightarrow>
         DeriveKey (argon (demo_env 5)) (bytes_of_string q) salt argon2KeyLen = Some h)"
    by (elim conjE)
  with r show ?thesis by auto
qed

section \<open>Where sessions come from\<close>

text \<open>
  A run of operations, each in its own environment.  \<open>exec\<close> performs one and says which session it
  granted, if any: only a password login and an answered challenge grant one.
\<close>

datatype auth_op =
    OpRegister string string | OpLogin string string | OpCreateChallenge string
  | OpValidateResponse string bytes | OpWriteChallengeFile string string | OpReadResponseFile string string
  | OpValidateSession string | OpRefreshSession string | OpRevokeSession string
  | OpDeleteUser string | OpRotateKeyPair string string string | OpRevokeKey string string string
  | OpCleanup

fun exec ::
  "('m, 'k, 'p) auth_env \<Rightarrow> auth_op \<Rightarrow> ('m, 'k) auth \<Rightarrow> (string \<times> string) list \<times> ('m, 'k) auth" where
  "exec env (OpRegister name pw) a = ([], snd (Register env name pw a))"
| "exec env (OpLogin u pw) a =
     (case Login env u pw a of (Some (Inr s), a') \<Rightarrow> ([(u, Token s)], a') | (_, a') \<Rightarrow> ([], a'))"
| "exec env (OpCreateChallenge u) a = ([], snd (CreateChallenge env u a))"
| "exec env (OpValidateResponse u sig) a =
     (case ValidateResponse env u sig a of (Inr s, a') \<Rightarrow> ([(u, Token s)], a') | (_, a') \<Rightarrow> ([], a'))"
| "exec env (OpWriteChallengeFile u path) a = ([], snd (WriteChallengeFile env u path a))"
| "exec env (OpReadResponseFile u path) a =
     (case ReadResponseFile env u path a of (Inr s, a') \<Rightarrow> ([(u, Token s)], a') | (_, a') \<Rightarrow> ([], a'))"
| "exec env (OpValidateSession t) a = ([], snd (ValidateSession env t a))"
| "exec env (OpRefreshSession t) a = ([], snd (RefreshSession env t a))"
| "exec env (OpRevokeSession t) a = ([], snd (RevokeSession env t a))"
| "exec env (OpDeleteUser u) a = ([], snd (DeleteUser env u a))"
| "exec env (OpRotateKeyPair u old new) a = ([], snd (RotateKeyPair env u old new a))"
| "exec env (OpRevokeKey u pw reason) a = ([], snd (RevokeKey env (\<lambda>_. '''') u pw reason a))"
| "exec env OpCleanup a = ([], cleanup_tick env a)"

fun run_auth ::
  "(('m, 'k, 'p) auth_env \<times> auth_op) list \<Rightarrow> ('m, 'k) auth \<Rightarrow> (string \<times> string) list \<times> ('m, 'k) auth"
where
  "run_auth [] a = ([], a)"
| "run_auth ((env, x) # xs) a =
     (case exec env x a of (g, a') \<Rightarrow> case run_auth xs a' of (gs, a'') \<Rightarrow> (g @ gs, a''))"

text \<open>
  \<open>keeps svc a b\<close>: on the way from \<open>a\<close> to \<open>b\<close> sessions may have been dropped or extended, but none
  has appeared or changed hands.  The rules below follow the operations' case analyses.
\<close>

definition keeps ::
  "('m, 'k, 'p) auth_env \<Rightarrow> ('m, 'k) auth \<Rightarrow> ('m, 'k) auth \<Rightarrow> bool" where
  "keeps svc a b \<longleftrightarrow> sessions_ok svc b \<and> storable svc b = storable svc a \<and>
     (\<forall>t s. session_at svc b t = Some s \<longrightarrow> (\<exists>s0. session_at svc a t = Some s0 \<and> UserID s0 = UserID s))"

named_theorems keeps_intros

lemma keeps_refl: "sessions_ok svc a \<Longrightarrow> keeps svc a a"
  by (simp add: keeps_def)

lemma keeps_trans: "keeps svc a b \<Longrightarrow> keeps svc b c \<Longrightarrow> keeps svc a c"
  unfolding keeps_def by (metis (no_types))

lemma keeps_store:
  "keeps svc a b \<Longrightarrow> store c = store b \<Longrightarrow> keeps svc a c"
  by (simp add: keeps_def session_defs)

lemma keeps_same_store [keeps_intros]:
  "keeps svc a b \<Longrightarrow> keeps svc a (b\<lparr>medium := m\<rparr>)" "keeps svc a b \<Longrightarrow> keeps svc a (b\<lparr>challenges := c\<rparr>)"
  "keeps svc a b \<Longrightarrow> keeps svc a (b\<lparr>printed := p\<rparr>)"
  by (erule keeps_store; simp)+

lemma keeps_case_sum [keeps_intros]:
  "(\<And>e. r = Inl e \<Longrightarrow> keeps svc a (snd (f e))) \<Longrightarrow> (\<And>v. r = Inr v \<Longrightarrow> keeps svc a (snd (g v))) \<Longrightarrow>
     keeps svc a (snd (case r of Inl e \<Rightarrow> f e | Inr v \<Rightarrow> g v))"
  by (cases r) auto

lemma keeps_case_option [keeps_intros]:
  "keeps svc a (snd f) \<Longrightarrow> (\<And>v. r = Some v \<Longrightarrow> keeps svc a (snd (g v))) \<Longrightarrow>
     keeps svc a (snd (case r of None \<Rightarrow> f | Some v \<Rightarrow> g v))"
  by (cases r) auto

lemma keeps_if [keeps_intros]:
  "keeps svc a (snd f) \<Longrightarrow> keeps svc a (snd g) \<Longrightarrow> keeps svc a (snd (if c then f else g))"
  by simp

lemma keeps_case_prod:
  "(\<And>x y. p = (x, y) \<Longrightarrow> keeps svc a (snd (f x y))) \<Longrightarrow> keeps svc a (snd (case p of (x, y) \<Rightarrow> f x y))"
  by (cases p) auto

lemma keeps_writes [keeps_intros]:
  assumes "keeps svc a b" and "\<And>e b'. keeps svc a b' \<Longrightarrow> keeps svc a (snd (f e b'))"
  shows "keeps svc a (snd (case file_writes env op ws b of (e, b') \<Rightarrow> f e b'))"
proof (rule keeps_case_prod)
  fix e b'
  assume "file_writes env op ws b = (e, b')"
  then have "store b' = store b"
    using files_only_simps(1) [OF file_writes_frame [of b env op ws]] by simp
  with assms show "keeps svc a (snd (f e b'))" by (blast intro: keeps_store)
qed

lemma keeps_artifacts [keeps_intros]:
  assumes "keeps svc a b" and "\<And>e b'. keeps svc a b' \<Longrightarrow> keeps svc a (snd (f e b'))"
  shows "keeps svc a (snd (case delete_artifacts env op u exts b of (e, b') \<Rightarrow> f e b'))"
proof (rule keeps_case_prod)
  fix e b'
  assume "delete_artifacts env op u exts b = (e, b')"
  then have "store b' = store b"
    using files_only_simps(1) [OF delete_artifacts_frame [of b env op u exts]] by simp
  with assms show "keeps svc a (snd (f e b'))" by (blast intro: keeps_store)
qed

lemma keeps_ensure [keeps_intros]:
  "(\<And>e m. keeps svc a (snd (f e m))) \<Longrightarrow>
     keeps svc a (snd (case EnsureDir M d m0 of (e, m) \<Rightarrow> f e m))"
  by (rule keeps_case_prod)

lemma keeps_drop_user [keeps_intros]:
  assumes "same_services svc env" and "keeps svc a b"
    and "\<And>e b'. keeps svc a b' \<Longrightarrow> keeps svc a (snd (f e b'))"
  shows "keeps svc a (snd (case sessions_drop_user env u b of (e, b') \<Rightarrow> f e b'))"
proof -
  note s = same_services_simps [OF assms(1)]
  obtain st where st: "sessions_drop_user env u b = (None, b\<lparr>store := st\<rparr>)"
      "sessions_ok env (b\<lparr>store := st\<rparr>)" "storable env (b\<lparr>store := st\<rparr>) = storable env b"
      "session_at env (b\<lparr>store := st\<rparr>) = drop_where (\<lambda>x. UserID x = u) (session_at env b)"
    using sessions_drop_user_drops [of env b u] assms(2) s by (auto simp: keeps_def)
  have "keeps svc b (b\<lparr>store := st\<rparr>)"
    using st(2-4) s by (auto simp: keeps_def drop_where_Some)
  with assms(2,3) st(1) show ?thesis by (auto intro: keeps_trans)
qed

text \<open>Every operation that grants nothing keeps the sessions.\<close>

lemma keeps_Register: "sessions_ok svc a \<Longrightarrow> keeps svc a (snd (Register env name pw a))"
  unfolding Register_def Let_def
  by (intro keeps_intros; (assumption | simp add: keeps_refl keeps_same_store)?)

lemma keeps_DeleteUser:
  "same_services svc env \<Longrightarrow> sessions_ok svc a \<Longrightarrow> keeps svc a (snd (DeleteUser env u a))"
  unfolding DeleteUser_def Let_def
  by (intro keeps_intros; (assumption | simp add: keeps_refl)?)

lemma keeps_RevokeKey:
  "same_services svc env \<Longrightarrow> sessions_ok svc a \<Longrightarrow> keeps svc a (snd (RevokeKey env txt u pw reason a))"
  unfolding RevokeKey_def Let_def
  by (intro keeps_intros; (assumption | simp add: keeps_refl)?)

lemma keeps_Rotate:
  "same_services svc env \<Longrightarrow> sessions_ok svc a \<Longrightarrow> keeps svc a (snd (RotateKeyPair env u old new a))"
  unfolding RotateKeyPair_def Let_def
  by (intro keeps_intros; (assumption | simp add: keeps_refl)?)

lemma keeps_CreateChallenge: "sessions_ok svc a \<Longrightarrow> keeps svc a (snd (CreateChallenge env u a))"
  unfolding CreateChallenge_def Let_def snd_conv
  by (intro keeps_intros; simp add: keeps_refl keeps_same_store)

lemma keeps_WriteChallengeFile:
  assumes "sessions_ok svc a"
  shows "keeps svc a (snd (WriteChallengeFile env u path a))"
proof -
  obtain r b where c: "CreateChallenge env u a = (r, b)" by (cases "CreateChallenge env u a")
  then have b: "keeps svc a b" using keeps_CreateChallenge [OF assms, of env u] by simp
  have "keeps svc a (snd (file_writes env op ws b))" for op ws
    using b files_only_simps(1) [OF file_writes_frame [of b env op ws]] by (rule keeps_store)
  with b c show ?thesis
    by (cases r) (auto simp: WriteChallengeFile_def Let_def simp del: file_writes.simps split: sum.splits)
qed

lemma keeps_drop_expired:
  assumes "same_services svc env" and "sessions_ok svc a" and "session_at svc a t = Some x"
  shows "keeps svc a (drop_expired env op t a)"
proof -
  have "storable env (drop_expired env op t a) = storable env a"
    using store.delete_present [of "sess env" "store a" t x] assms same_services_simps [OF assms(1)]
    by (auto simp: session_defs drop_expired_def)
  with drop_expired_gone [of env a t x op] assms same_services_simps [OF assms(1)] show ?thesis
    by (auto simp: keeps_def split: if_splits)
qed

lemma keeps_ValidateSession:
  assumes "same_services svc env" and "sessions_ok svc a"
  shows "keeps svc a (snd (ValidateSession env t a))"
  using get_session [of env a t] keeps_drop_expired [OF assms] keeps_refl [OF assms(2)] assms
    same_services_simps [OF assms(1)]
  by (auto simp: ValidateSession_def Let_def split: option.splits)

lemma keeps_RefreshSession:
  assumes "same_services svc env" and "sessions_ok svc a" and "\<And>x. storable svc a x"
  shows "keeps svc a (snd (RefreshSession env t a))"
proof (cases "session_at svc a t")
  case None
  then show ?thesis
    using get_session [of env a t] keeps_refl [OF assms(2)] assms same_services_simps [OF assms(1)]
    by (simp add: RefreshSession_def Let_def)
next
  case (Some x)
  note s = same_services_simps [OF assms(1)]
  have get: "store_Get (sess env) (store a) t = Inr x"
    using get_session [of env a t] assms(2) Some s by simp
  have tok: "Token x = t"
    using store.token_key [of "sess svc" "store a" t x] assms(2) Some by (simp add: session_defs)
  let ?x = "x\<lparr>ExpiresAt := clock env 1 + sessionTTL a\<rparr>"
  obtain st where st: "store_Set (sess env) ?x (store a) = (None, st)" "store_inv (sess env) st"
      "store_storable (sess env) st = store_storable (sess env) (store a)"
      "store_contents (sess env) st = (store_contents (sess env) (store a))(t \<mapsto> ?x)"
    using store.put_contents [of "sess env" "store a" ?x] assms(2,3) tok s by (auto simp: session_defs)
  then have "keeps svc a (a\<lparr>store := st\<rparr>)"
    using Some s by (auto simp: keeps_def session_defs)
  then show ?thesis
    using get st(1) keeps_drop_expired [OF assms(1,2) Some] by (simp add: RefreshSession_def Let_def)
qed

lemma keeps_RevokeSession:
  assumes "same_services svc env" and "sessions_ok svc a"
  shows "keeps svc a (snd (RevokeSession env t a))"
proof (cases "session_at svc a t")
  case None
  then show ?thesis
    using store.delete_missing [of "sess svc" "store a" t] keeps_refl [OF assms(2)] assms(2)
      same_services_simps(2) [OF assms(1)] by (simp add: RevokeSession_def session_defs)
next
  case (Some x)
  then obtain st where "store_Delete (sess svc) t (store a) = (None, st)" "store_inv (sess svc) st"
      "store_storable (sess svc) st = store_storable (sess svc) (store a)"
      "store_contents (sess svc) st = (store_contents (sess svc) (store a))(t := None)"
    using store.delete_present [of "sess svc" "store a" t x] assms(2) by (auto simp: session_defs)
  then show ?thesis
    using same_services_simps(2) [OF assms(1)]
    by (auto simp: RevokeSession_def keeps_def session_defs split: if_splits)
qed

lemma keeps_cleanup:
  assumes "same_services svc env" and "sessions_ok svc a"
  shows "keeps svc a (cleanup_tick env a)"
proof -
  obtain n st where "store_Cleanup (sess svc) (clock env 0) (store a) = (n, None, st)"
      "store_inv (sess svc) st" "store_storable (sess svc) st = store_storable (sess svc) (store a)"
      "store_contents (sess svc) st =
         drop_where (\<lambda>x. After (clock env 0) (ExpiresAt x)) (store_contents (sess svc) (store a))"
    using store.cleanup_contents [of "sess svc" "store a" "clock env 0"] assms(2)
    by (auto simp: session_defs)
  then show ?thesis
    using same_services_simps(2) [OF assms(1)]
    by (auto simp: cleanup_tick_def keeps_def session_defs drop_where_Some)
qed

text \<open>A grant adds one session, of the user it was granted to.\<close>

definition grants ::
  "('m, 'k, 'p) auth_env \<Rightarrow> ('m, 'k) auth \<Rightarrow> (string \<times> string) list \<Rightarrow> ('m, 'k) auth \<Rightarrow> bool" where
  "grants svc a g b \<longleftrightarrow> sessions_ok svc b \<and> storable svc b = storable svc a \<and>
     (\<forall>t s. session_at svc b t = Some s \<longrightarrow>
        (UserID s, t) \<in> set g \<or> (\<exists>s0. session_at svc a t = Some s0 \<and> UserID s0 = UserID s))"

lemma grants_keeps: "grants svc a [] b \<longleftrightarrow> keeps svc a b"
  by (simp add: grants_def keeps_def)

lemma keeps_grants_trans: "keeps svc a b \<Longrightarrow> grants svc b g c \<Longrightarrow> grants svc a g c"
  unfolding keeps_def grants_def by (metis (no_types))

lemma grants_trans: "grants svc a g b \<Longrightarrow> grants svc b g' c \<Longrightarrow> grants svc a (g @ g') c"
  unfolding grants_def set_append by (metis (no_types, lifting) UnCI)

lemma createSession_grants:
  assumes "same_services svc env" and "sessions_ok svc a" and "\<And>x. storable svc a x"
  shows "case createSession env i u a of
      (Inr s, b) \<Rightarrow> grants svc a [(u, Token s)] b | (Inl e, b) \<Rightarrow> keeps svc a b"
proof (cases "rnd env 32")
  case (Inl e)
  then show ?thesis using keeps_refl [OF assms(2)] by (simp add: createSession_def Let_def)
next
  case (Inr tok)
  note s = same_services_simps [OF assms(1)]
  obtain st where c: "createSession env i u a = (Inr (new_session env i u a tok), a\<lparr>store := st\<rparr>)"
    using createSession_ok [of env a tok i u] Inr assms(2,3) s by auto
  from createSession_stored [OF c] assms(2,3) s show ?thesis
    using c by (auto simp: grants_def new_session_def split: if_splits)
qed

lemma ValidateResponse_grants:
  assumes "same_services svc env" and "sessions_ok svc a" and "\<And>x. storable svc a x"
  shows "case ValidateResponse env u sig a of
      (Inr s, b) \<Rightarrow> grants svc a [(u, Token s)] b | (Inl e, b) \<Rightarrow> keeps svc a b"
proof -
  let ?a1 = "a\<lparr>challenges := (challenges a)(u := None)\<rparr>"
  have a1: "sessions_ok svc ?a1" "storable svc ?a1 = storable svc a" "keeps svc a ?a1"
    using assms(2) keeps_refl [OF assms(2)] by (simp_all add: session_defs keeps_same_store)
  have c: "case createSession env 1 u ?a1 of
      (Inr s, b) \<Rightarrow> grants svc a [(u, Token s)] b | (Inl e, b) \<Rightarrow> keeps svc a b"
    using createSession_grants [OF assms(1) a1(1), where i = 1 and u = u] a1(2,3) assms(3)
    by (auto split: prod.splits sum.splits intro: keeps_grants_trans keeps_trans)
  show ?thesis
    using c a1(3) keeps_refl [OF assms(2)]
    by (simp add: ValidateResponse_def Let_def split: option.split sum.split)
qed

text \<open>What a login may do: grant its user a session, or keep the sessions.\<close>

definition login_effect ::
  "('m, 'k, 'p) auth_env \<Rightarrow> ('m, 'k) auth \<Rightarrow> string \<Rightarrow> Session res option \<times> ('m, 'k) auth \<Rightarrow> bool" where
  "login_effect svc a u p \<longleftrightarrow>
     (case p of (Some (Inr s), b) \<Rightarrow> grants svc a [(u, Token s)] b | (_, b) \<Rightarrow> keeps svc a b)"

lemma login_effect_cases:
  "(\<And>e. r = Inl e \<Longrightarrow> login_effect svc a u (f e)) \<Longrightarrow> (\<And>v. r = Inr v \<Longrightarrow> login_effect svc a u (g v)) \<Longrightarrow>
     login_effect svc a u (case r of Inl e \<Rightarrow> f e | Inr v \<Rightarrow> g v)"
  "login_effect svc a u x \<Longrightarrow> (\<And>v. y = Some v \<Longrightarrow> login_effect svc a u (h v)) \<Longrightarrow>
     login_effect svc a u (case y of None \<Rightarrow> x | Some v \<Rightarrow> h v)"
  "login_effect svc a u x1 \<Longrightarrow> login_effect svc a u x2 \<Longrightarrow> login_effect svc a u (if c then x1 else x2)"
  "(\<And>o' b. p = (o', b) \<Longrightarrow> login_effect svc a u (k o' b)) \<Longrightarrow>
     login_effect svc a u (case p of (o', b) \<Rightarrow> k o' b)"
  "keeps svc a b \<Longrightarrow> login_effect svc a u (None, b)"
  "keeps svc a b \<Longrightarrow> login_effect svc a u (Some (Inl e), b)"
  by (cases r; cases y; cases p; simp add: login_effect_def)+

lemma Login_effect:
  assumes "same_services svc env" and "sessions_ok svc a" and "\<And>x. storable svc a x"
  shows "login_effect svc a u (Login env u pw a)"
proof -
  note r = keeps_refl [OF assms(2)]
  have c: "login_effect svc a u (map_prod Some id (createSession env 0 u b))" if b: "keeps svc a b" for b
  proof -
    have "sessions_ok svc b" "\<And>x. storable svc b x" using b assms(3) by (simp_all add: keeps_def)
    from createSession_grants [OF assms(1) this, where i = 0 and u = u] b show ?thesis
      by (auto simp: login_effect_def split: prod.splits sum.splits
        intro: keeps_grants_trans keeps_trans)
  qed
  have m: "keeps svc a b" if "migrate_hash env u pw a = (x, b)" for x b
  proof -
    have "store b = store a"
      using that by (auto simp: migrate_hash_def file_write_def split: option.splits sum.splits prod.splits)
    with r show ?thesis by (rule keeps_store)
  qed
  show ?thesis
    unfolding Login_def Let_def by (intro login_effect_cases; (rule r c m | assumption)+)
qed

lemma Login_grants:
  assumes "same_services svc env" and "sessions_ok svc a" and "\<And>x. storable svc a x"
  shows "case Login env u pw a of
      (Some (Inr s), b) \<Rightarrow> grants svc a [(u, Token s)] b | (_, b) \<Rightarrow> keeps svc a b"
  using Login_effect [OF assms] unfolding login_effect_def .

lemma ReadResponseFile_grants:
  assumes "same_services svc env" and "sessions_ok svc a" and "\<And>x. storable svc a x"
  shows "case ReadResponseFile env u path a of
      (Inr s, b) \<Rightarrow> grants svc a [(u, Token s)] b | (Inl e, b) \<Rightarrow> keeps svc a b"
proof (cases "file_read env a path")
  case (Inl e)
  then show ?thesis using keeps_refl [OF assms(2)] by (simp add: ReadResponseFile_def Let_def)
next
  case (Inr c)
  then show ?thesis using ValidateResponse_grants [OF assms, of u "bytes_of_string c"]
    by (auto simp: ReadResponseFile_def Let_def split: sum.splits prod.splits)
qed

lemma exec_grants:
  assumes "same_services svc env" and "sessions_ok svc a" and "\<And>x. storable svc a x"
  shows "grants svc a (fst (exec env x a)) (snd (exec env x a))"
proof (cases x)
  case (OpLogin u pw)
  then show ?thesis
    using Login_grants [OF assms, of u pw]
    by (auto simp: grants_keeps split: prod.splits option.splits sum.splits)
next
  case (OpValidateResponse u sig)
  then show ?thesis
    using ValidateResponse_grants [OF assms, of u sig]
    by (auto simp: grants_keeps split: prod.splits sum.splits)
next
  case (OpReadResponseFile u path)
  then show ?thesis
    using ReadResponseFile_grants [OF assms, of u path]
    by (auto simp: grants_keeps split: prod.splits sum.splits)
qed (use assms in \<open>simp_all add: grants_keeps keeps_Register keeps_CreateChallenge
  keeps_WriteChallengeFile keeps_ValidateSession keeps_RefreshSession keeps_RevokeSession
  keeps_DeleteUser keeps_Rotate keeps_RevokeKey keeps_cleanup\<close>)

lemma run_grants:
  assumes "\<forall>(env, x) \<in> set xs. same_services svc env" and "sessions_ok svc a"
    and "\<And>x. storable svc a x"
  shows "grants svc a (fst (run_auth xs a)) (snd (run_auth xs a))"
  using assms
proof (induction xs arbitrary: a)
  case Nil
  then show ?case by (simp add: grants_keeps keeps_refl)
next
  case (Cons y xs)
  obtain env x where y: "y = (env, x)" by (cases y)
  have g: "grants svc a (fst (exec env x a)) (snd (exec env x a))"
    using Cons.prems y by (intro exec_grants) auto
  then have "sessions_ok svc (snd (exec env x a))" "\<And>x'. storable svc (snd (exec env x a)) x'"
    using Cons.prems(3) by (simp_all add: grants_def)
  with Cons.IH Cons.prems(1) have
    "grants svc (snd (exec env x a)) (fst (run_auth xs (snd (exec env x a)))) (snd (run_auth xs (snd (exec env x a))))"
    by simp
  from grants_trans [OF g this] show ?case by (simp add: y split_def)
qed

text \<open>
  C2.  Authentication soundness.  Whatever operations are run on an Authenticator without sessions,
  in whatever order, each with its own clock, randomness and failing libraries: every session the
  store then holds was granted, under its token and to its user, by one of the run's password
  logins or answered challenges that succeeded.
\<close>

theorem every_session_was_granted:
  assumes "\<forall>(env, x) \<in> set ops. same_services svc env" and "sessions_ok svc a"
    and "\<And>x. storable svc a x" and "session_at svc a = Map.empty"
    and "session_at svc (snd (run_auth ops a)) t = Some s"
  shows "(UserID s, t) \<in> set (fst (run_auth ops a)) \<and> Token s = t"
proof
  note g = run_grants [OF assms(1-3)]
  show "(UserID s, t) \<in> set (fst (run_auth ops a))"
    using g assms(4,5) by (auto simp: grants_def)
  show "Token s = t"
    using g assms(5) store.token_key [of "sess svc"] by (auto simp: grants_def session_defs)
qed

text \<open>A legacy user's login, from which the examples take a session.\<close>

lemma demo_login_session:
  "\<exists>v. session_at (demo_env 5) (snd (run_auth [(demo_env 5, OpLogin ''u'' ''pw'')] demo_user))
     (HexEncode (replicate 32 1)) = Some v"
proof -
  obtain hash where h: "HashPassword plain_kdf (\<lambda>n. Inr (replicate n 1)) ''pw'' = Some (Inr hash)"
    using HashPassword_total [of "\<lambda>n. Inr (replicate n 1)" "replicate argon2SaltLen 1"] plain_key_exists
    by blast
  let ?b = "demo_user\<lparr>medium := (medium demo_user)(userPath ''u'' ''.hash'' \<mapsto> hash)\<rparr>"
  have b: "store ?b = Memory NewMemorySessionStore" by (simp add: demo_user_simps)
  have "\<not> IsRevoked (demo_env 5) ''u'' demo_user" "\<not> is_file (demo_env 5) demo_user (userPath ''u'' ''.hash'')"
      "file_read (demo_env 5) demo_user (userPath ''u'' ''.lthn'') = Inr ''hwp''"
    by (simp_all add: IsRevoked_def demo_reads demo_user_simps userPath_def)
  then have l: "Login (demo_env 5) ''u'' ''pw'' demo_user = map_prod Some id (createSession (demo_env 5) 0 ''u'' ?b)"
    using h by (simp add: Login_def Let_def lthn_Verify_def migrate_hash_def demo_simps demo_write)
  have "rnd (demo_env 5) 32 = Inr (replicate 32 1)" by (simp add: demo_simps)
  from createSession_ok [OF demo_sessions_ok [OF b] this demo_storable [OF b], of 0 "''u''"]
  obtain st where c: "createSession (demo_env 5) 0 ''u'' ?b =
      (Inr (new_session (demo_env 5) 0 ''u'' ?b (replicate 32 1)), ?b\<lparr>store := st\<rparr>)" by blast
  then have "snd (run_auth [(demo_env 5, OpLogin ''u'' ''pw'')] demo_user) = ?b\<lparr>store := st\<rparr>"
    using l by simp
  moreover have "session_at (demo_env 5) (?b\<lparr>store := st\<rparr>) (HexEncode (replicate 32 1)) =
      Some (new_session (demo_env 5) 0 ''u'' ?b (replicate 32 1))"
    using createSession_stored [OF c demo_sessions_ok [OF b] demo_storable [OF b]]
    by (simp add: new_session_def)
  ultimately show ?thesis by simp
qed

lemma demo_no_session: "session_at (demo_env 5) demo_user = Map.empty"
  by (simp add: session_at_def demo_user_simps NewMemorySessionStore_def)

theorem every_session_was_granted_witness:
  "\<exists>s. session_at (demo_env 5) (snd (run_auth [(demo_env 5, OpLogin ''u'' ''pw'')] demo_user))
       (HexEncode (replicate 32 1)) = Some s \<and>
     (UserID s, HexEncode (replicate 32 1)) \<in>
       set (fst (run_auth [(demo_env 5, OpLogin ''u'' ''pw'')] demo_user))"
proof -
  obtain s where s: "session_at (demo_env 5) (snd (run_auth [(demo_env 5, OpLogin ''u'' ''pw'')] demo_user))
       (HexEncode (replicate 32 1)) = Some s" using demo_login_session by blast
  from every_session_was_granted [OF _ demo_sessions_ok [OF demo_user_simps(2)]
      demo_storable [OF demo_user_simps(2)] demo_no_session s] s
  show ?thesis by auto
qed

end
