(* ===== verification/Resumption.thy ===== *)
theory Resumption
  imports Prelude
begin

text \<open>
  Calls that run at the same time.  A call is a resumption: it has returned, or it makes one atomic
  access to the shared state (a method of an object under that object's lock, a critical section)
  and goes on with what it read.  \<open>run\<close> lets a call run alone; \<open>interleave\<close> lets several run, one
  access of the call with the scheduled number at a time.

  The lemmas run sequences of accesses, finish a scheduled call, and carry an invariant of the state
  and of every call through any schedule.
\<close>

datatype ('s, 'r) proc = Return 'r | Access "'s \<Rightarrow> ('s, 'r) proc \<times> 's"

primrec run :: "('s, 'r) proc \<Rightarrow> 's \<Rightarrow> 'r \<times> 's" where
  "run (Return r) = (\<lambda>s. (r, s))"
| "run (Access k) = (\<lambda>s. case map_prod run id (k s) of (f, s') \<Rightarrow> f s')"

primrec bind :: "('s, 'r) proc \<Rightarrow> ('r \<Rightarrow> ('s, 'q) proc) \<Rightarrow> ('s, 'q) proc" where
  "bind (Return r) = (\<lambda>f. f r)"
| "bind (Access k) = (\<lambda>f. Access (\<lambda>s. map_prod (\<lambda>g. g f) id (map_prod bind id (k s))))"

text \<open>An access that changes the state, and one that only reads.\<close>

definition atomic :: "('s \<Rightarrow> 'r \<times> 's) \<Rightarrow> ('r \<Rightarrow> ('s, 'q) proc) \<Rightarrow> ('s, 'q) proc" where
  "atomic f k = Access (\<lambda>s. case f s of (r, s') \<Rightarrow> (k r, s'))"

definition reading :: "('s \<Rightarrow> 'r) \<Rightarrow> ('r \<Rightarrow> ('s, 'q) proc) \<Rightarrow> ('s, 'q) proc" where
  "reading f k = Access (\<lambda>s. (k (f s), s))"

lemma run_Access [simp]: "run (Access k) s = (case k s of (p, s') \<Rightarrow> run p s')"
  by (simp add: split_def map_prod_def)

lemma bind_Access [simp]: "bind (Access k) f = Access (\<lambda>s. case k s of (p, s') \<Rightarrow> (bind p f, s'))"
  by (simp add: split_def map_prod_def)

declare run.simps(2) [simp del] bind.simps(2) [simp del]

lemma run_atomic [simp]: "run (atomic f k) s = (case f s of (r, s') \<Rightarrow> run (k r) s')"
  by (simp add: atomic_def split_def)

lemma run_reading [simp]: "run (reading f k) s = run (k (f s)) s"
  by (simp add: reading_def)

lemma run_bind: "run (bind p f) s = (case run p s of (r, s') \<Rightarrow> run (f r) s')"
proof (induction p arbitrary: s)
  case (Access k)
  obtain p' s' where k: "k s = (p', s')" by (cases "k s")
  have "run (bind p' f) s' = (case run p' s' of (r, s') \<Rightarrow> run (f r) s')"
    by (rule Access.IH [OF rangeI [of k s]]) (simp add: k)
  then show ?case by (simp add: k)
qed simp

lemma bind_atomic [simp]: "bind (atomic g k) f = atomic g (\<lambda>r. bind (k r) f)"
  by (simp add: atomic_def split_def)

lemma bind_reading [simp]: "bind (reading g k) f = reading g (\<lambda>r. bind (k r) f)"
  by (simp add: reading_def)

section \<open>Interleaving\<close>

text \<open>One access of the call with number \<open>i\<close>; a call that has returned does nothing.\<close>

fun advance :: "nat \<Rightarrow> 's \<times> ('s, 'r) proc list \<Rightarrow> 's \<times> ('s, 'r) proc list" where
  "advance i (s, ps) =
     (if i < length ps
      then (case ps ! i of
              Return r \<Rightarrow> (s, ps)
            | Access k \<Rightarrow> (case k s of (p, s') \<Rightarrow> (s', ps[i := p])))
      else (s, ps))"

fun interleave :: "nat list \<Rightarrow> 's \<times> ('s, 'r) proc list \<Rightarrow> 's \<times> ('s, 'r) proc list" where
  "interleave [] c = c"
| "interleave (i # is) c = interleave is (advance i c)"

lemma interleave_append: "interleave (is @ js) c = interleave js (interleave is c)"
  by (induction "is" arbitrary: c) simp_all

lemma length_advance: "length (snd (advance i (s, ps))) = length ps"
  by (simp split: proc.split prod.split)

lemma length_interleave: "length (snd (interleave is (s, ps))) = length ps"
proof (induction "is" arbitrary: s ps)
  case (Cons i "is")
  obtain s' ps' where a: "advance i (s, ps) = (s', ps')" by (cases "advance i (s, ps)")
  from Cons [of s' ps'] length_advance [of i s ps] show ?case by (simp only: interleave.simps a snd_conv)
qed simp

text \<open>Scheduled often enough and undisturbed, a call does what it does alone.\<close>

lemma interleave_alone:
  assumes "i < length ps"
  shows "\<exists>n. interleave (replicate n i) (s, ps) =
    (snd (run (ps ! i) s), ps[i := Return (fst (run (ps ! i) s))])"
proof -
  have "\<exists>n. interleave (replicate n i) (s, ps[i := p]) = (snd (run p s), ps[i := Return (fst (run p s))])" for p s
  proof (induction p arbitrary: s)
    case (Return r)
    show ?case by (rule exI [of _ 0]) simp
  next
    case (Access k)
    obtain p' s' where k: "k s = (p', s')" by (cases "k s")
    obtain n where n: "interleave (replicate n i) (s', ps[i := p']) =
        (snd (run p' s'), ps[i := Return (fst (run p' s'))])"
      using Access.IH [OF rangeI [of k s], of p' s'] k by auto
    have "interleave (replicate (Suc n) i) (s, ps[i := Access k]) =
        (snd (run (Access k) s), ps[i := Return (fst (run (Access k) s))])"
      using assms n by (simp add: k)
    then show ?case by blast
  qed
  from this [of s "ps ! i"] show ?thesis by simp
qed

text \<open>What every access of a running call keeps, every schedule keeps.\<close>

lemma interleave_invariant:
  assumes "I s ps"
    and "\<And>s ps i k p s'. I s ps \<Longrightarrow> i < length ps \<Longrightarrow> ps ! i = Access k \<Longrightarrow> k s = (p, s') \<Longrightarrow> I s' (ps[i := p])"
    and "interleave is (s, ps) = (s', ps')"
  shows "I s' ps'"
  using assms(1,3)
proof (induction "is" arbitrary: s ps)
  case (Cons i "is")
  obtain t qs where a: "advance i (s, ps) = (t, qs)" by (cases "advance i (s, ps)")
  have "I t qs"
  proof (cases "i < length ps")
    case True
    show ?thesis
    proof (cases "ps ! i")
      case (Access k)
      with True a assms(2) [OF Cons.prems(1) True Access] show ?thesis by (cases "k s") auto
    qed (use a Cons.prems(1) True in auto)
  qed (use a Cons.prems(1) in auto)
  with Cons.IH [of t qs] Cons.prems(2) a show ?case by simp
qed simp


section \<open>Calls all of whose accesses do no more than allowed\<close>

inductive within :: "('s \<Rightarrow> 's \<Rightarrow> bool) \<Rightarrow> ('s, 'r) proc \<Rightarrow> bool" for R where
  within_Return: "within R (Return r)"
| within_Access: "(\<And>s p s'. k s = (p, s') \<Longrightarrow> R s s' \<and> within R p) \<Longrightarrow> within R (Access k)"

inductive_cases within_AccessE: "within R (Access k)"

lemma within_atomic:
  "(\<And>s. R s (snd (f s))) \<Longrightarrow> (\<And>r. within R (k r)) \<Longrightarrow> within R (atomic f k)"
  unfolding atomic_def by (rule within_Access) (auto simp: split_def)

lemma within_reading: "(\<And>s. R s s) \<Longrightarrow> (\<And>r. within R (k r)) \<Longrightarrow> within R (reading f k)"
  unfolding reading_def by (rule within_Access) auto

lemma within_bind: "within R p \<Longrightarrow> (\<And>r. within R (f r)) \<Longrightarrow> within R (bind p f)"
proof (induction p rule: within.induct)
  case (within_Access k)
  show ?case
    unfolding bind_Access
  proof (rule within.within_Access)
    fix s q s'
    assume e: "(case k s of (p, s') \<Rightarrow> (bind p f, s')) = (q, s')"
    obtain p where "k s = (p, s')" "q = bind p f" using e by (cases "k s") auto
    with within_Access show "R s s' \<and> within R q" by blast
  qed
qed simp

end
