(* ===== verification/AuthSteps.thy ===== *)
theory AuthSteps
  imports AuthFlows Resumption
begin

text \<open>
  The methods of \<^verbatim>\<open>go/auth/auth.go\<close> as they run when several goroutines use one Authenticator.  Its
  mutex guards the map of challenges only; each method of a session store holds the lock of the
  store, and each call of the medium is one access.  A method is the sequence of these accesses, with
  what it computes between them.

  \<open>methods_are_their_steps\<close> shows that a method that runs alone does what its definition in theory
  \<open>Auth\<close> does.
\<close>

section \<open>Accesses\<close>

type_synonym ('m, 'k, 'r) call = "(('m, 'k) auth, 'r) proc"

definition get_file ::
  "('m, 'k, 'p) auth_env \<Rightarrow> string \<Rightarrow> (string res \<Rightarrow> ('m, 'k, 'r) call) \<Rightarrow> ('m, 'k, 'r) call" where
  "get_file env path = reading (\<lambda>a. file_read env a path)"

definition test_file ::
  "('m, 'k, 'p) auth_env \<Rightarrow> string \<Rightarrow> (bool \<Rightarrow> ('m, 'k, 'r) call) \<Rightarrow> ('m, 'k, 'r) call" where
  "test_file env path = reading (\<lambda>a. is_file env a path)"

definition put_file ::
  "('m, 'k, 'p) auth_env \<Rightarrow> string \<Rightarrow> string \<Rightarrow> (err option \<Rightarrow> ('m, 'k, 'r) call) \<Rightarrow> ('m, 'k, 'r) call" where
  "put_file env path content = atomic (file_write env path content)"

definition erase_file ::
  "('m, 'k, 'p) auth_env \<Rightarrow> string \<Rightarrow> (err option \<Rightarrow> ('m, 'k, 'r) call) \<Rightarrow> ('m, 'k, 'r) call" where
  "erase_file env path = atomic (file_delete env path)"

definition make_dir ::
  "('m, 'k, 'p) auth_env \<Rightarrow> string \<Rightarrow> (err option \<Rightarrow> ('m, 'k, 'r) call) \<Rightarrow> ('m, 'k, 'r) call" where
  "make_dir env d =
     atomic (\<lambda>a. case EnsureDir (med env) d (medium a) of (e, m) \<Rightarrow> (e, a\<lparr>medium := m\<rparr>))"

definition look_up ::
  "('m, 'k, 'p) auth_env \<Rightarrow> string \<Rightarrow> (Session res \<Rightarrow> ('m, 'k, 'r) call) \<Rightarrow> ('m, 'k, 'r) call" where
  "look_up env token = reading (\<lambda>a. store_Get (sess env) (store a) token)"

definition keep_session ::
  "('m, 'k, 'p) auth_env \<Rightarrow> Session \<Rightarrow> (err option \<Rightarrow> ('m, 'k, 'r) call) \<Rightarrow> ('m, 'k, 'r) call" where
  "keep_session env session =
     atomic (\<lambda>a. case store_Set (sess env) session (store a) of (e, s) \<Rightarrow> (e, a\<lparr>store := s\<rparr>))"

definition drop_session ::
  "('m, 'k, 'p) auth_env \<Rightarrow> string \<Rightarrow> (err option \<Rightarrow> ('m, 'k, 'r) call) \<Rightarrow> ('m, 'k, 'r) call" where
  "drop_session env token =
     atomic (\<lambda>a. case store_Delete (sess env) token (store a) of (e, s) \<Rightarrow> (e, a\<lparr>store := s\<rparr>))"

definition drop_sessions_of ::
  "('m, 'k, 'p) auth_env \<Rightarrow> string \<Rightarrow> (err option \<Rightarrow> ('m, 'k, 'r) call) \<Rightarrow> ('m, 'k, 'r) call" where
  "drop_sessions_of env userID = atomic (sessions_drop_user env userID)"

definition print_error :: "string \<Rightarrow> err \<Rightarrow> ('m, 'k, 'r) call \<Rightarrow> ('m, 'k, 'r) call" where
  "print_error msg e p = atomic (\<lambda>a. ((), a\<lparr>printed := printed a @ [(msg, e)]\<rparr>)) (\<lambda>_. p)"

text \<open>The critical sections on the map of challenges.\<close>

definition take_challenge ::
  "string \<Rightarrow> (Challenge option \<Rightarrow> ('m, 'k, 'r) call) \<Rightarrow> ('m, 'k, 'r) call" where
  "take_challenge userID =
     atomic (\<lambda>a. case challenges a userID of
         None \<Rightarrow> (None, a)
       | Some challenge \<Rightarrow> (Some challenge, a\<lparr>challenges := (challenges a)(userID := None)\<rparr>))"

definition issue_challenge ::
  "string \<Rightarrow> Challenge \<Rightarrow> ('m, 'k, 'r) call \<Rightarrow> ('m, 'k, 'r) call" where
  "issue_challenge userID challenge p =
     atomic (\<lambda>a. ((), a\<lparr>challenges := (challenges a)(userID \<mapsto> challenge)\<rparr>)) (\<lambda>_. p)"

lemmas access_defs = get_file_def test_file_def put_file_def erase_file_def make_dir_def look_up_def
  keep_session_def drop_session_def drop_sessions_of_def print_error_def take_challenge_def
  issue_challenge_def

fun put_files ::
  "('m, 'k, 'p) auth_env \<Rightarrow> string \<Rightarrow> (string \<times> string \<times> string) list \<Rightarrow>
     (err option \<Rightarrow> ('m, 'k, 'r) call) \<Rightarrow> ('m, 'k, 'r) call" where
  "put_files env op [] k = k None"
| "put_files env op ((path, content, failure) # ws) k =
     put_file env path content (\<lambda>r.
       case r of Some e \<Rightarrow> k (Some (E op failure (Some e))) | None \<Rightarrow> put_files env op ws k)"

fun erase_artifacts ::
  "('m, 'k, 'p) auth_env \<Rightarrow> string \<Rightarrow> string \<Rightarrow> string list \<Rightarrow>
     (err option \<Rightarrow> ('m, 'k, 'r) call) \<Rightarrow> ('m, 'k, 'r) call" where
  "erase_artifacts env op userID [] k = k None"
| "erase_artifacts env op userID (ext # exts) k =
     test_file env (userPath userID ext) (\<lambda>there.
       if there
       then erase_file env (userPath userID ext) (\<lambda>r.
         case r of
           Some e \<Rightarrow> k (Some (E op (''failed to delete '' @ ext) (Some e)))
         | None \<Rightarrow> erase_artifacts env op userID exts k)
       else erase_artifacts env op userID exts k)"

section \<open>Methods\<close>

definition createSession_steps ::
  "('m, 'k, 'p) auth_env \<Rightarrow> nat \<Rightarrow> string \<Rightarrow> ('m, 'k, Session res) call" where
  "createSession_steps env i userID =
     (let op = ''auth.createSession'' in
      case rnd env 32 of
        Inl e \<Rightarrow> Return (Inl (E op ''failed to generate session token'' (Some e)))
      | Inr tokenBytes \<Rightarrow>
          reading sessionTTL (\<lambda>ttl.
          (let session = \<lparr>Token = HexEncode tokenBytes, UserID = userID, ExpiresAt = clock env i + ttl\<rparr>
           in keep_session env session (\<lambda>r. Return
                (case r of
                   Some e \<Rightarrow> Inl (E op ''failed to persist session'' (Some e))
                 | None \<Rightarrow> Inr session)))))"

definition drop_expired_steps ::
  "('m, 'k, 'p) auth_env \<Rightarrow> string \<Rightarrow> string \<Rightarrow> ('m, 'k, 'r) call \<Rightarrow> ('m, 'k, 'r) call" where
  "drop_expired_steps env op token p =
     drop_session env token (\<lambda>r.
       case r of
         Some e \<Rightarrow> print_error (op @ '': failed to delete expired session'') e p
       | None \<Rightarrow> p)"

definition ValidateSession_steps ::
  "('m, 'k, 'p) auth_env \<Rightarrow> string \<Rightarrow> ('m, 'k, Session res) call" where
  "ValidateSession_steps env token =
     (let op = ''auth.ValidateSession'' in
      look_up env token (\<lambda>r.
        case r of
          Inl _ \<Rightarrow> Return (Inl (E op ''session not found'' None))
        | Inr session \<Rightarrow>
            if After (clock env 0) (ExpiresAt session)
            then drop_expired_steps env op token (Return (Inl (E op ''session expired'' None)))
            else Return (Inr session)))"

definition RefreshSession_steps ::
  "('m, 'k, 'p) auth_env \<Rightarrow> string \<Rightarrow> ('m, 'k, Session res) call" where
  "RefreshSession_steps env token =
     (let op = ''auth.RefreshSession'' in
      look_up env token (\<lambda>r.
        case r of
          Inl _ \<Rightarrow> Return (Inl (E op ''session not found'' None))
        | Inr session \<Rightarrow>
            if After (clock env 0) (ExpiresAt session)
            then drop_expired_steps env op token (Return (Inl (E op ''session expired'' None)))
            else
              reading sessionTTL (\<lambda>ttl.
              (let session' = session\<lparr>ExpiresAt := clock env 1 + ttl\<rparr>
               in keep_session env session' (\<lambda>r. Return
                    (case r of
                       Some e \<Rightarrow> Inl (E op ''failed to update session'' (Some e))
                     | None \<Rightarrow> Inr session'))))))"

definition RevokeSession_steps ::
  "('m, 'k, 'p) auth_env \<Rightarrow> string \<Rightarrow> ('m, 'k, err option) call" where
  "RevokeSession_steps env token =
     drop_session env token (\<lambda>r. Return
       (case r of
          Some _ \<Rightarrow> Some (E ''auth.RevokeSession'' ''session not found'' None)
        | None \<Rightarrow> None))"

definition cleanup_steps :: "('m, 'k, 'p) auth_env \<Rightarrow> ('m, 'k, unit) call" where
  "cleanup_steps env =
     atomic (\<lambda>a. case store_Cleanup (sess env) (clock env 0) (store a) of
         (count, e, s) \<Rightarrow> ((count, e), a\<lparr>store := s\<rparr>)) (\<lambda>(count, r).
       case r of
         Some e \<Rightarrow> print_error ''auth: session cleanup error'' e (Return ())
       | None \<Rightarrow>
           if 0 < count
           then print_error ''auth: cleaned up expired sessions'' (Ext (nat_to_dec count)) (Return ())
           else Return ())"

text \<open>What the content of the \<^verbatim>\<open>.rev\<close> file says.\<close>

definition revoked_in :: "('m, 'k, 'p) auth_env \<Rightarrow> string res \<Rightarrow> bool" where
  "revoked_in env r =
     (case r of
        Inl _ \<Rightarrow> False
      | Inr content \<Rightarrow>
          if content = ''REVOCATION_PLACEHOLDER'' then False
          else (case unmarshal_rev env content of
             Inl _ \<Rightarrow> False
           | Inr r \<Rightarrow> \<not> IsZero (RevokedAt r)))"

definition IsRevoked_steps ::
  "('m, 'k, 'p) auth_env \<Rightarrow> string \<Rightarrow> (bool \<Rightarrow> ('m, 'k, 'r) call) \<Rightarrow> ('m, 'k, 'r) call" where
  "IsRevoked_steps env userID k = get_file env (userPath userID ''.rev'') (\<lambda>r. k (revoked_in env r))"

definition verifyPassword_steps ::
  "('m, 'k, 'p) auth_env \<Rightarrow> string \<Rightarrow> string \<Rightarrow> (err option option \<Rightarrow> ('m, 'k, 'r) call) \<Rightarrow>
     ('m, 'k, 'r) call" where
  "verifyPassword_steps env userID password k =
     (let op = ''auth.verifyPassword'' in
      test_file env (userPath userID ''.hash'') (\<lambda>there.
        if there then
          get_file env (userPath userID ''.hash'') (\<lambda>r. k
            (case r of
               Inl e \<Rightarrow> Some (Some (E op ''failed to read password hash'' (Some e)))
             | Inr storedHash \<Rightarrow>
                 if \<not> HasPrefix storedHash ''$argon2id$''
                 then Some (Some (E op ''corrupted password hash'' None))
                 else (case VerifyPassword (argon env) password storedHash of
                    None \<Rightarrow> None
                  | Some (Inl e) \<Rightarrow> Some (Some (E op ''failed to verify password'' (Some e)))
                  | Some (Inr valid) \<Rightarrow>
                      if valid then Some None else Some (Some (E op ''invalid password'' None)))))
        else
          get_file env (userPath userID ''.lthn'') (\<lambda>r. k
            (case r of
               Inl _ \<Rightarrow> Some (Some (E op ''user not found'' None))
             | Inr storedHash \<Rightarrow>
                 if \<not> lthn_Verify (lthn_Hash env) password storedHash
                 then Some (Some (E op ''invalid password'' None))
                 else Some None))))"

definition Login_steps ::
  "('m, 'k, 'p) auth_env \<Rightarrow> string \<Rightarrow> string \<Rightarrow> ('m, 'k, Session res option) call" where
  "Login_steps env userID password =
     (let op = ''auth.Login'';
          session = bind (createSession_steps env 0 userID) (\<lambda>r. Return (Some r))
      in IsRevoked_steps env userID (\<lambda>revoked.
        if revoked then Return (Some (Inl (E op ''key has been revoked'' None)))
        else test_file env (userPath userID ''.hash'') (\<lambda>there.
          if there then
            get_file env (userPath userID ''.hash'') (\<lambda>r.
              case r of
                Inl e \<Rightarrow> Return (Some (Inl (E op ''failed to read password hash'' (Some e))))
              | Inr storedHash \<Rightarrow>
                  if \<not> HasPrefix storedHash ''$argon2id$''
                  then Return (Some (Inl (E op ''corrupted password hash'' None)))
                  else (case VerifyPassword (argon env) password storedHash of
                     None \<Rightarrow> Return None
                   | Some (Inl e) \<Rightarrow> Return (Some (Inl (E op ''failed to verify password'' (Some e))))
                   | Some (Inr valid) \<Rightarrow>
                       if \<not> valid then Return (Some (Inl (E op ''invalid password'' None)))
                       else session))
          else
            get_file env (userPath userID ''.lthn'') (\<lambda>r.
              case r of
                Inl e \<Rightarrow> Return (Some (Inl (E op ''user not found'' (Some e))))
              | Inr storedHash \<Rightarrow>
                  if \<not> lthn_Verify (lthn_Hash env) password storedHash
                  then Return (Some (Inl (E op ''invalid password'' None)))
                  else (case HashPassword (argon env) (rnd env) password of
                     None \<Rightarrow> Return None
                   | Some (Inl _) \<Rightarrow> session
                   | Some (Inr newHash) \<Rightarrow>
                       put_file env (userPath userID ''.hash'') newHash (\<lambda>r.
                         case r of
                           Some e \<Rightarrow> print_error ''auth.Login: password hash migration failed'' e session
                         | None \<Rightarrow> session))))))"

definition RevokeKey_steps ::
  "('m, 'k, 'p) auth_env \<Rightarrow> (err \<Rightarrow> string) \<Rightarrow> string \<Rightarrow> string \<Rightarrow> string \<Rightarrow>
     ('m, 'k, err option option) call" where
  "RevokeKey_steps env err_text userID password reason =
     (let op = ''auth.RevokeKey'' in
      test_file env (userPath userID ''.pub'') (\<lambda>there.
        if \<not> there then Return (Some (Some (E op ''user not found'' None)))
        else verifyPassword_steps env userID password (\<lambda>v.
          case v of
            None \<Rightarrow> Return None
          | Some (Some e) \<Rightarrow> Return (Some (Some (E op (err_text e) None)))
          | Some None \<Rightarrow>
          (case marshal_rev env \<lparr>rev_UserID = userID, rev_Reason = reason, RevokedAt = clock env 0\<rparr> of
             Inl e \<Rightarrow> Return (Some (Some (E op ''failed to marshal revocation record'' (Some e))))
           | Inr revJSON \<Rightarrow>
               put_files env op [(userPath userID ''.rev'', revJSON, ''failed to write revocation record'')] (\<lambda>r.
               case r of
                 Some e \<Rightarrow> Return (Some (Some e))
               | None \<Rightarrow>
                   drop_sessions_of env userID (\<lambda>r. Return (Some
                     (case r of
                        Some e \<Rightarrow> Some (E op ''failed to invalidate sessions'' (Some e))
                      | None \<Rightarrow> None))))))))"

definition CreateChallenge_steps ::
  "('m, 'k, 'p) auth_env \<Rightarrow> string \<Rightarrow> ('m, 'k, Challenge res) call" where
  "CreateChallenge_steps env userID =
     (let op = ''auth.CreateChallenge'' in
      IsRevoked_steps env userID (\<lambda>revoked.
        if revoked then Return (Inl (E op ''key has been revoked'' None))
        else get_file env (userPath userID ''.pub'') (\<lambda>r.
          case r of
            Inl e \<Rightarrow> Return (Inl (E op ''user not found'' (Some e)))
          | Inr pubKey \<Rightarrow>
          (case rnd env nonceBytes of
             Inl e \<Rightarrow> Return (Inl (E op ''failed to generate nonce'' (Some e)))
           | Inr nonce \<Rightarrow>
          (case pgp_Encrypt (pgp env) nonce pubKey of
             Inl e \<Rightarrow> Return (Inl (E op ''failed to encrypt nonce'' (Some e)))
           | Inr encrypted \<Rightarrow>
               reading challengeTTL (\<lambda>ttl.
               (let challenge = \<lparr>Nonce = nonce, EncryptedNonce = string_of_bytes encrypted,
                                 ch_ExpiresAt = clock env 0 + ttl\<rparr>
                in issue_challenge userID challenge (Return (Inr challenge)))))))))"

definition ValidateResponse_steps ::
  "('m, 'k, 'p) auth_env \<Rightarrow> string \<Rightarrow> bytes \<Rightarrow> ('m, 'k, Session res) call" where
  "ValidateResponse_steps env userID signedNonce =
     (let op = ''auth.ValidateResponse'' in
      take_challenge userID (\<lambda>c.
        case c of
          None \<Rightarrow> Return (Inl (E op ''no pending challenge for user'' None))
        | Some challenge \<Rightarrow>
            if After (clock env 0) (ch_ExpiresAt challenge)
            then Return (Inl (E op ''challenge expired'' None))
            else get_file env (userPath userID ''.pub'') (\<lambda>r.
              case r of
                Inl e \<Rightarrow> Return (Inl (E op ''user not found'' (Some e)))
              | Inr pubKey \<Rightarrow>
              (case pgp_Verify (pgp env) (Nonce challenge) signedNonce pubKey of
                 Some e \<Rightarrow> Return (Inl (E op ''signature verification failed'' (Some e)))
               | None \<Rightarrow> createSession_steps env 1 userID))))"

definition WriteChallengeFile_steps ::
  "('m, 'k, 'p) auth_env \<Rightarrow> string \<Rightarrow> string \<Rightarrow> ('m, 'k, err option) call" where
  "WriteChallengeFile_steps env userID path =
     (let op = ''auth.WriteChallengeFile'' in
      bind (CreateChallenge_steps env userID) (\<lambda>r.
        case r of
          Inl e \<Rightarrow> Return (Some (E op ''failed to create challenge'' (Some e)))
        | Inr challenge \<Rightarrow>
            (case marshal_challenge env challenge of
               Inl e \<Rightarrow> Return (Some (E op ''failed to marshal challenge'' (Some e)))
             | Inr json \<Rightarrow> put_files env op [(path, json, ''failed to write challenge file'')] Return)))"

definition ReadResponseFile_steps ::
  "('m, 'k, 'p) auth_env \<Rightarrow> string \<Rightarrow> string \<Rightarrow> ('m, 'k, Session res) call" where
  "ReadResponseFile_steps env userID path =
     (let op = ''auth.ReadResponseFile'' in
      get_file env path (\<lambda>r.
        case r of
          Inl e \<Rightarrow> Return (Inl (E op ''failed to read response file'' (Some e)))
        | Inr content \<Rightarrow>
            bind (ValidateResponse_steps env userID (bytes_of_string content)) (\<lambda>r. Return
              (case r of
                 Inl e \<Rightarrow> Inl (E op ''failed to validate response'' (Some e))
               | Inr session \<Rightarrow> Inr session))))"

definition DeleteUser_steps ::
  "('m, 'k, 'p) auth_env \<Rightarrow> string \<Rightarrow> ('m, 'k, err option) call" where
  "DeleteUser_steps env userID =
     (let op = ''auth.DeleteUser'' in
      if protectedUsers userID then Return (Some (E op ''cannot delete protected user'' None))
      else test_file env (userPath userID ''.pub'') (\<lambda>there.
        if \<not> there then Return (Some (E op ''user not found'' None))
        else erase_artifacts env op userID artifact_extensions (\<lambda>r.
          case r of
            Some e \<Rightarrow> Return (Some e)
          | None \<Rightarrow>
              drop_sessions_of env userID (\<lambda>r. Return
                (case r of
                   Some e \<Rightarrow> Some (E op ''failed to revoke active sessions'' (Some e))
                 | None \<Rightarrow> None)))))"

definition Register_steps ::
  "('m, 'k, 'p) auth_env \<Rightarrow> string \<Rightarrow> string \<Rightarrow> ('m, 'k, User res option) call" where
  "Register_steps env username password =
     (let op = ''auth.Register''; userID = lthn_Hash env username in
      test_file env (userPath userID ''.pub'') (\<lambda>there.
      if there then Return (Some (Inl (E op ''user already exists'' None)))
      else make_dir env ''users'' (\<lambda>r.
      case r of
        Some e \<Rightarrow> Return (Some (Inl (E op ''failed to create users directory'' (Some e))))
      | None \<Rightarrow>
      (case CreateKeyPair (pgp env) userID (userID @ ''@auth.local'') password of
         None \<Rightarrow> Return None
       | Some (Inl e) \<Rightarrow> Return (Some (Inl (E op ''failed to create PGP keypair'' (Some e))))
       | Some (Inr kp) \<Rightarrow>
      put_files env op
        [(userPath userID ''.pub'', PublicKey kp, ''failed to write public key''),
         (userPath userID ''.key'', PrivateKey kp, ''failed to write private key''),
         (userPath userID ''.rev'', ''REVOCATION_PLACEHOLDER'',
          ''failed to write revocation certificate'')] (\<lambda>r.
      case r of
        Some e \<Rightarrow> Return (Some (Inl e))
      | None \<Rightarrow>
      (case HashPassword (argon env) (rnd env) password of
         None \<Rightarrow> Return None
       | Some (Inl e) \<Rightarrow> Return (Some (Inl (E op ''failed to hash password'' (Some e))))
       | Some (Inr passwordHash) \<Rightarrow>
      put_files env op
        [(userPath userID ''.hash'', passwordHash, ''failed to write password hash'')] (\<lambda>r.
      case r of
        Some e \<Rightarrow> Return (Some (Inl e))
      | None \<Rightarrow>
      (let user = \<lparr>user_PublicKey = PublicKey kp, user_KeyID = userID,
                   user_Fingerprint = lthn_Hash env (PublicKey kp),
                   user_PasswordHash = passwordHash, user_Created = clock env 0, user_LastLogin = 0\<rparr> in
      (case marshal_user env user of
         Inl e \<Rightarrow> Return (Some (Inl (E op ''failed to marshal user metadata'' (Some e))))
       | Inr metaJSON \<Rightarrow>
      (case pgp_Encrypt (pgp env) (bytes_of_string metaJSON) (PublicKey kp) of
         Inl e \<Rightarrow> Return (Some (Inl (E op ''failed to encrypt user metadata'' (Some e))))
       | Inr encMeta \<Rightarrow>
      put_files env op
        [(userPath userID ''.json'', string_of_bytes encMeta, ''failed to write user metadata'')] (\<lambda>r. Return (Some
      (case r of
         Some e \<Rightarrow> Inl e
       | None \<Rightarrow> Inr user)))))))))))))"

definition RotateKeyPair_steps ::
  "('m, 'k, 'p) auth_env \<Rightarrow> string \<Rightarrow> string \<Rightarrow> string \<Rightarrow> ('m, 'k, User res option) call" where
  "RotateKeyPair_steps env userID oldPassword newPassword =
     (let op = ''auth.RotateKeyPair'' in
      test_file env (userPath userID ''.pub'') (\<lambda>there.
      if \<not> there then Return (Some (Inl (E op ''user not found'' None)))
      else get_file env (userPath userID ''.key'') (\<lambda>r.
      case r of
        Inl e \<Rightarrow> Return (Some (Inl (E op ''failed to read private key'' (Some e))))
      | Inr privKeyArmor \<Rightarrow>
      get_file env (userPath userID ''.json'') (\<lambda>r.
      case r of
        Inl e \<Rightarrow> Return (Some (Inl (E op ''failed to read user metadata'' (Some e))))
      | Inr encMeta \<Rightarrow>
      (case pgp_Decrypt (pgp env) (bytes_of_string encMeta) privKeyArmor oldPassword of
         Inl e \<Rightarrow> Return (Some (Inl (E op ''failed to decrypt metadata (wrong password?)'' (Some e))))
       | Inr metaJSON \<Rightarrow>
      (case unmarshal_user env metaJSON of
         Inl e \<Rightarrow> Return (Some (Inl (E op ''failed to unmarshal user metadata'' (Some e))))
       | Inr user0 \<Rightarrow>
      (case CreateKeyPair (pgp env) userID (userID @ ''@auth.local'') newPassword of
         None \<Rightarrow> Return None
       | Some (Inl e) \<Rightarrow> Return (Some (Inl (E op ''failed to create new PGP keypair'' (Some e))))
       | Some (Inr newKP) \<Rightarrow>
      (case HashPassword (argon env) (rnd env) newPassword of
         None \<Rightarrow> Return None
       | Some (Inl e) \<Rightarrow> Return (Some (Inl (E op ''failed to hash new password'' (Some e))))
       | Some (Inr newHash) \<Rightarrow>
      (let user = user0\<lparr>user_PublicKey := PublicKey newKP,
                        user_Fingerprint := lthn_Hash env (PublicKey newKP),
                        user_PasswordHash := newHash\<rparr> in
      (case marshal_user env user of
         Inl e \<Rightarrow> Return (Some (Inl (E op ''failed to marshal updated metadata'' (Some e))))
       | Inr updatedMeta \<Rightarrow>
      (case pgp_Encrypt (pgp env) (bytes_of_string updatedMeta) (PublicKey newKP) of
         Inl e \<Rightarrow> Return (Some (Inl (E op ''failed to encrypt metadata with new key'' (Some e))))
       | Inr encUpdatedMeta \<Rightarrow>
      put_files env op
        [(userPath userID ''.pub'', PublicKey newKP, ''failed to write new public key''),
         (userPath userID ''.key'', PrivateKey newKP, ''failed to write new private key''),
         (userPath userID ''.json'', string_of_bytes encUpdatedMeta, ''failed to write updated metadata''),
         (userPath userID ''.hash'', newHash, ''failed to write new password hash'')] (\<lambda>r.
      case r of
        Some e \<Rightarrow> Return (Some (Inl e))
      | None \<Rightarrow>
          drop_sessions_of env userID (\<lambda>r. Return (Some
            (case r of
               Some e \<Rightarrow> Inl (E op ''failed to invalidate sessions'' (Some e))
             | None \<Rightarrow> Inr user)))))))))))))))"

section \<open>A method alone\<close>

lemma run_accesses [simp]:
  "run (get_file env path kr) a = run (kr (file_read env a path)) a"
  "run (test_file env path kb) a = run (kb (is_file env a path)) a"
  "run (put_file env path c k) a = (case file_write env path c a of (e, a') \<Rightarrow> run (k e) a')"
  "run (erase_file env path k) a = (case file_delete env path a of (e, a') \<Rightarrow> run (k e) a')"
  "run (make_dir env d k) a =
     (case EnsureDir (med env) d (medium a) of (e, m) \<Rightarrow> run (k e) (a\<lparr>medium := m\<rparr>))"
  "run (look_up env t g) a = run (g (store_Get (sess env) (store a) t)) a"
  "run (keep_session env s k) a =
     (case store_Set (sess env) s (store a) of (e, st) \<Rightarrow> run (k e) (a\<lparr>store := st\<rparr>))"
  "run (drop_session env t k) a =
     (case store_Delete (sess env) t (store a) of (e, st) \<Rightarrow> run (k e) (a\<lparr>store := st\<rparr>))"
  "run (drop_sessions_of env u k) a = (case sessions_drop_user env u a of (e, a') \<Rightarrow> run (k e) a')"
  "run (print_error msg x p) a = run p (a\<lparr>printed := printed a @ [(msg, x)]\<rparr>)"
  "run (take_challenge u h) a =
     (case challenges a u of
        None \<Rightarrow> run (h None) a
      | Some c \<Rightarrow> run (h (Some c)) (a\<lparr>challenges := (challenges a)(u := None)\<rparr>))"
  "run (issue_challenge u ch p) a = run p (a\<lparr>challenges := (challenges a)(u \<mapsto> ch)\<rparr>)"
  by (simp_all add: access_defs split_def split: option.split)

lemma run_put_files [simp]:
  "run (put_files env op ws k) a = (case file_writes env op ws a of (e, a') \<Rightarrow> run (k e) a')"
  by (induction env op ws k arbitrary: a rule: put_files.induct)
    (auto split: option.split prod.split)

lemma run_erase_artifacts [simp]:
  "run (erase_artifacts env op u exts k) a =
     (case delete_artifacts env op u exts a of (e, a') \<Rightarrow> run (k e) a')"
  by (induction env op u exts k arbitrary: a rule: erase_artifacts.induct)
    (auto split: option.split prod.split)

lemma run_IsRevoked [simp]: "run (IsRevoked_steps env u k) a = run (k (IsRevoked env u a)) a"
  by (simp add: IsRevoked_steps_def revoked_in_def IsRevoked_def split: sum.split)

lemma run_verifyPassword [simp]:
  "run (verifyPassword_steps env u pw k) a = run (k (verifyPassword env u pw a)) a"
  by (simp add: verifyPassword_steps_def verifyPassword_def Let_def)

lemma run_createSession [simp]: "run (createSession_steps env i u) a = createSession env i u a"
  by (simp add: createSession_steps_def createSession_def Let_def split: sum.split option.split prod.split)

lemma run_drop_expired [simp]:
  "run (drop_expired_steps env op t p) a = run p (drop_expired env op t a)"
  by (simp add: drop_expired_steps_def drop_expired_def split: option.split prod.split)

lemma run_case [simp]:
  "run (case r of Inl e \<Rightarrow> f e | Inr v \<Rightarrow> g v) a = (case r of Inl e \<Rightarrow> run (f e) a | Inr v \<Rightarrow> run (g v) a)"
  "run (case y of None \<Rightarrow> p | Some v \<Rightarrow> q v) a = (case y of None \<Rightarrow> run p a | Some v \<Rightarrow> run (q v) a)"
  "run (if b then p else p') a = (if b then run p a else run p' a)"
  by (simp_all split: sum.split option.split)

lemma run_ValidateSession: "run (ValidateSession_steps env t) a = ValidateSession env t a"
  by (simp add: ValidateSession_steps_def ValidateSession_def Let_def cong: if_cong sum.case_cong)

lemma run_RefreshSession: "run (RefreshSession_steps env t) a = RefreshSession env t a"
  by (simp add: RefreshSession_steps_def RefreshSession_def Let_def split: sum.split option.split prod.split)

lemma run_RevokeSession: "run (RevokeSession_steps env t) a = RevokeSession env t a"
  by (simp add: RevokeSession_steps_def RevokeSession_def split: option.split prod.split)

lemma run_cleanup: "run (cleanup_steps env) a = ((), cleanup_tick env a)"
  by (auto simp: cleanup_steps_def cleanup_tick_def split: option.splits prod.splits)

lemma run_Login: "run (Login_steps env u pw) a = Login env u pw a"
  by (simp add: Login_steps_def Login_def migrate_hash_def Let_def run_bind map_prod_def
    split: sum.split option.split prod.split)

lemma run_RevokeKey: "run (RevokeKey_steps env txt u pw reason) a = RevokeKey env txt u pw reason a"
  by (simp add: RevokeKey_steps_def RevokeKey_def Let_def del: file_writes.simps put_files.simps
    split: sum.split option.split prod.split)

lemma run_CreateChallenge: "run (CreateChallenge_steps env u) a = CreateChallenge env u a"
  by (simp add: CreateChallenge_steps_def CreateChallenge_def Let_def split: sum.split)

lemma run_ValidateResponse: "run (ValidateResponse_steps env u sig) a = ValidateResponse env u sig a"
  by (simp add: ValidateResponse_steps_def ValidateResponse_def Let_def split: sum.split option.split)

lemma run_WriteChallengeFile: "run (WriteChallengeFile_steps env u path) a = WriteChallengeFile env u path a"
  by (simp add: WriteChallengeFile_steps_def WriteChallengeFile_def Let_def run_bind run_CreateChallenge
    del: file_writes.simps put_files.simps split: sum.split prod.split)

lemma run_ReadResponseFile: "run (ReadResponseFile_steps env u path) a = ReadResponseFile env u path a"
  by (simp add: ReadResponseFile_steps_def ReadResponseFile_def Let_def run_bind run_ValidateResponse
    split: sum.split prod.split)

lemma run_DeleteUser: "run (DeleteUser_steps env u) a = DeleteUser env u a"
  by (simp add: DeleteUser_steps_def DeleteUser_def Let_def split: option.split prod.split)

lemma run_Register: "run (Register_steps env name pw) a = Register env name pw a"
  by (simp add: Register_steps_def Register_def Let_def del: file_writes.simps put_files.simps
    split: sum.split option.split prod.split)

lemma run_RotateKeyPair: "run (RotateKeyPair_steps env u old new) a = RotateKeyPair env u old new a"
  by (simp add: RotateKeyPair_steps_def RotateKeyPair_def Let_def del: file_writes.simps put_files.simps
    split: sum.split option.split prod.split)

text \<open>
  A method that runs alone is its definition: the same result, the same state after it, and a panic
  exactly where the definition has one.
\<close>

theorem methods_are_their_steps:
  "run (Register_steps env name pw) a = Register env name pw a \<and>
   run (Login_steps env u pw) a = Login env u pw a \<and>
   run (CreateChallenge_steps env u) a = CreateChallenge env u a \<and>
   run (ValidateResponse_steps env u sig) a = ValidateResponse env u sig a \<and>
   run (WriteChallengeFile_steps env u path) a = WriteChallengeFile env u path a \<and>
   run (ReadResponseFile_steps env u path) a = ReadResponseFile env u path a \<and>
   run (ValidateSession_steps env t) a = ValidateSession env t a \<and>
   run (RefreshSession_steps env t) a = RefreshSession env t a \<and>
   run (RevokeSession_steps env t) a = RevokeSession env t a \<and>
   run (DeleteUser_steps env u) a = DeleteUser env u a \<and>
   run (RotateKeyPair_steps env u old new) a = RotateKeyPair env u old new a \<and>
   run (RevokeKey_steps env txt u pw reason) a = RevokeKey env txt u pw reason a \<and>
   run (cleanup_steps env) a = ((), cleanup_tick env a)"
  by (intro conjI run_Register run_Login run_CreateChallenge run_ValidateResponse run_WriteChallengeFile
    run_ReadResponseFile run_ValidateSession run_RefreshSession run_RevokeSession run_DeleteUser
    run_RotateKeyPair run_RevokeKey run_cleanup)

section \<open>Calls as threads\<close>

text \<open>A call of any method; what it returns is the session it was granted, as in \<open>exec\<close>.\<close>

definition granted :: "string \<Rightarrow> Session res \<Rightarrow> (string \<times> string) list" where
  "granted u r = (case r of Inr s \<Rightarrow> [(u, Token s)] | Inl _ \<Rightarrow> [])"

fun op_steps :: "('m, 'k, 'p) auth_env \<Rightarrow> auth_op \<Rightarrow> ('m, 'k, (string \<times> string) list) call" where
  "op_steps env (OpRegister name pw) = bind (Register_steps env name pw) (\<lambda>_. Return [])"
| "op_steps env (OpLogin u pw) =
     bind (Login_steps env u pw) (\<lambda>r. Return (case r of Some s \<Rightarrow> granted u s | None \<Rightarrow> []))"
| "op_steps env (OpCreateChallenge u) = bind (CreateChallenge_steps env u) (\<lambda>_. Return [])"
| "op_steps env (OpValidateResponse u sig) =
     bind (ValidateResponse_steps env u sig) (\<lambda>r. Return (granted u r))"
| "op_steps env (OpWriteChallengeFile u path) = bind (WriteChallengeFile_steps env u path) (\<lambda>_. Return [])"
| "op_steps env (OpReadResponseFile u path) =
     bind (ReadResponseFile_steps env u path) (\<lambda>r. Return (granted u r))"
| "op_steps env (OpValidateSession t) = bind (ValidateSession_steps env t) (\<lambda>_. Return [])"
| "op_steps env (OpRefreshSession t) = bind (RefreshSession_steps env t) (\<lambda>_. Return [])"
| "op_steps env (OpRevokeSession t) = bind (RevokeSession_steps env t) (\<lambda>_. Return [])"
| "op_steps env (OpDeleteUser u) = bind (DeleteUser_steps env u) (\<lambda>_. Return [])"
| "op_steps env (OpRotateKeyPair u old new) = bind (RotateKeyPair_steps env u old new) (\<lambda>_. Return [])"
| "op_steps env (OpRevokeKey u pw reason) =
     bind (RevokeKey_steps env (\<lambda>_. '''') u pw reason) (\<lambda>_. Return [])"
| "op_steps env OpCleanup = bind (cleanup_steps env) (\<lambda>_. Return [])"

lemma run_op_steps: "run (op_steps env x) a = exec env x a"
  by (cases x) (auto simp: run_bind run_Register run_Login run_CreateChallenge run_ValidateResponse
    run_WriteChallengeFile run_ReadResponseFile run_ValidateSession run_RefreshSession run_RevokeSession
    run_DeleteUser run_RotateKeyPair run_RevokeKey run_cleanup granted_def
    split: prod.splits option.splits sum.splits)

end
