(* ===== verification/AuthRaces.thy ===== *)
theory AuthRaces
  imports AuthSteps
begin

text \<open>
  What holds of an Authenticator whose methods run at the same time, under every schedule of their
  accesses: where sessions come from, how often a challenge is spent, that a revoked token stays dead
  for later calls; and what does not hold, because a method reads and writes in two accesses.
\<close>

section \<open>Sessions under every schedule\<close>

definition well_kept :: "('m, 'k, 'p) auth_env \<Rightarrow> ('m, 'k) auth \<Rightarrow> bool" where
  "well_kept svc a \<longleftrightarrow> sessions_ok svc a \<and> (\<forall>x. storable svc a x)"

text \<open>The sessions of a state: users with their tokens.\<close>

definition pairs :: "('m, 'k, 'p) auth_env \<Rightarrow> ('m, 'k) auth \<Rightarrow> (string \<times> string) set" where
  "pairs svc a = {(u, t). \<exists>x. session_at svc a t = Some x \<and> UserID x = u}"

lemma keeps_well_kept: "keeps svc a b \<Longrightarrow> well_kept svc a \<Longrightarrow> well_kept svc b"
  by (simp add: keeps_def well_kept_def)

lemma keeps_pairs: "keeps svc a b \<Longrightarrow> pairs svc b \<subseteq> pairs svc a"
  unfolding keeps_def pairs_def by fastforce

text \<open>
  A call is honest if its accesses bring in no session, except that its last one may add one that is
  in \<open>Q\<close>, which the call then returns.  \<open>G\<close> is what has been granted so far; it may grow.
\<close>

inductive honest ::
  "('m, 'k, 'p) auth_env \<Rightarrow> (string \<times> string) set \<Rightarrow> (string \<times> string) set \<Rightarrow>
     ('m, 'k, (string \<times> string) list) call \<Rightarrow> bool" for svc Q where
  honest_Return: "xs = [] \<or> (\<exists>q\<in>Q. xs = [q]) \<Longrightarrow> honest svc Q G (Return xs)"
| honest_Access: "(\<And>H a p b. G \<subseteq> H \<Longrightarrow> well_kept svc a \<Longrightarrow> pairs svc a \<subseteq> H \<Longrightarrow> k a = (p, b) \<Longrightarrow>
      well_kept svc b \<and>
      (pairs svc b \<subseteq> H \<and> honest svc Q H p \<or> (\<exists>q\<in>Q. p = Return [q] \<and> pairs svc b \<subseteq> insert q H)))
    \<Longrightarrow> honest svc Q G (Access k)"

inductive_cases honest_AccessE: "honest svc Q G (Access k)"

named_theorems honest_intros

lemma honest_mono: "honest svc Q G p \<Longrightarrow> G \<subseteq> H \<Longrightarrow> honest svc Q H p"
proof (cases p)
  case (Return xs)
  assume "honest svc Q G p"
  with Return show ?thesis by (auto elim: honest.cases intro: honest_Return)
next
  case (Access k)
  assume h: "honest svc Q G p" and g: "G \<subseteq> H"
  show ?thesis
    unfolding Access
  proof (rule honest_Access)
    fix K a q b
    assume "H \<subseteq> K" and a: "well_kept svc a" "pairs svc a \<subseteq> K" "k a = (q, b)"
    with g have "G \<subseteq> K" by blast
    from h [unfolded Access] show "well_kept svc b \<and>
        (pairs svc b \<subseteq> K \<and> honest svc Q K q \<or> (\<exists>x\<in>Q. q = Return [x] \<and> pairs svc b \<subseteq> insert x K))"
      by (rule honest_AccessE) (use \<open>G \<subseteq> K\<close> a in blast)
  qed
qed

lemma honest_nothing [honest_intros]: "honest svc Q G (Return [])"
  by (simp add: honest_Return)

lemma honest_reading [honest_intros]:
  "(\<And>r. honest svc Q G (k r)) \<Longrightarrow> honest svc Q G (reading f k)"
  unfolding reading_def by (rule honest_Access) (auto intro: honest_mono)

lemma honest_atomic:
  assumes "\<And>a. well_kept svc a \<Longrightarrow> keeps svc a (snd (f a))" and "\<And>r. honest svc Q G (k r)"
  shows "honest svc Q G (atomic f k)"
  unfolding atomic_def
proof (rule honest_Access)
  fix H a p b
  assume h: "G \<subseteq> H" "well_kept svc a" "pairs svc a \<subseteq> H" and "(case f a of (r, s') \<Rightarrow> (k r, s')) = (p, b)"
  then have b: "p = k (fst (f a))" "b = snd (f a)" by (auto simp: split_def)
  note s = assms(1) [OF h(2)]
  show "well_kept svc b \<and> (pairs svc b \<subseteq> H \<and> honest svc Q H p \<or>
      (\<exists>q\<in>Q. p = Return [q] \<and> pairs svc b \<subseteq> insert q H))"
    using keeps_well_kept [OF s h(2)] keeps_pairs [OF s] h(3) honest_mono [OF assms(2) h(1)]
    by (auto simp: b)
qed

lemma keeps_unchanged:
  "well_kept svc a \<Longrightarrow> store b = store a \<Longrightarrow> keeps svc a b"
  by (rule keeps_store [OF keeps_refl]) (simp_all add: well_kept_def)

lemma honest_accesses [honest_intros]:
  "(\<And>r. honest svc Q G (kr r)) \<Longrightarrow> honest svc Q G (get_file env path kr)"
  "(\<And>r. honest svc Q G (kb r)) \<Longrightarrow> honest svc Q G (test_file env path kb)"
  "(\<And>r. honest svc Q G (k r)) \<Longrightarrow> honest svc Q G (put_file env path c k)"
  "(\<And>r. honest svc Q G (k r)) \<Longrightarrow> honest svc Q G (erase_file env path k)"
  "(\<And>r. honest svc Q G (k r)) \<Longrightarrow> honest svc Q G (make_dir env d k)"
  "honest svc Q G p \<Longrightarrow> honest svc Q G (print_error msg e p)"
  "(\<And>r. honest svc Q G (h r)) \<Longrightarrow> honest svc Q G (take_challenge u h)"
  "honest svc Q G p \<Longrightarrow> honest svc Q G (issue_challenge u ch p)"
  unfolding access_defs
  by (auto intro!: honest_reading honest_atomic keeps_unchanged
    simp: file_write_def file_delete_def split: prod.split option.split)

lemma honest_put_files [honest_intros]:
  "(\<And>r. honest svc Q G (k r)) \<Longrightarrow> honest svc Q G (put_files env op ws k)"
  by (induction env op ws k rule: put_files.induct)
    (auto intro!: honest_intros split: option.split)

lemma honest_erase_artifacts [honest_intros]:
  "(\<And>r. honest svc Q G (k r)) \<Longrightarrow> honest svc Q G (erase_artifacts env op u exts k)"
  by (induction env op u exts k rule: erase_artifacts.induct)
    (auto intro!: honest_intros split: option.split)

lemma honest_cases [honest_intros]:
  "(\<And>e. r = Inl e \<Longrightarrow> honest svc Q G (f e)) \<Longrightarrow> (\<And>v. r = Inr v \<Longrightarrow> honest svc Q G (g v)) \<Longrightarrow>
     honest svc Q G (case r of Inl e \<Rightarrow> f e | Inr v \<Rightarrow> g v)"
  "honest svc Q G p \<Longrightarrow> (\<And>v. y = Some v \<Longrightarrow> honest svc Q G (q v)) \<Longrightarrow>
     honest svc Q G (case y of None \<Rightarrow> p | Some v \<Rightarrow> q v)"
  "honest svc Q G p \<Longrightarrow> honest svc Q G p' \<Longrightarrow> honest svc Q G (if b then p else p')"
  by (cases r; cases y; simp)+

text \<open>The accesses to the store.\<close>

lemma honest_drop_session [honest_intros]:
  assumes "same_services svc env" and "\<And>r. honest svc Q G (k r)"
  shows "honest svc Q G (drop_session env t k)"
  unfolding drop_session_def
proof (rule honest_atomic)
  fix a
  assume "well_kept svc a"
  then have "keeps svc a (snd (RevokeSession env t a))"
    using keeps_RevokeSession [OF assms(1)] by (simp add: well_kept_def)
  moreover have "store (snd (case store_Delete (sess env) t (store a) of (e, s) \<Rightarrow> (e, a\<lparr>store := s\<rparr>))) =
      store (snd (RevokeSession env t a))"
    by (simp add: RevokeSession_def split: prod.split option.split)
  ultimately show "keeps svc a (snd (case store_Delete (sess env) t (store a) of (e, s) \<Rightarrow> (e, a\<lparr>store := s\<rparr>)))"
    by (rule keeps_store)
qed fact

lemma honest_drop_sessions_of [honest_intros]:
  assumes "same_services svc env" and "\<And>r. honest svc Q G (k r)"
  shows "honest svc Q G (drop_sessions_of env u k)"
  unfolding drop_sessions_of_def
proof (rule honest_atomic)
  fix a
  assume "well_kept svc a"
  then have r: "keeps svc a a" by (simp add: keeps_unchanged)
  have "keeps svc a (snd (case sessions_drop_user env u a of (e, b) \<Rightarrow> (e, b)))"
    by (rule keeps_drop_user [OF assms(1) r]) simp
  then show "keeps svc a (snd (sessions_drop_user env u a))" by simp
qed fact

text \<open>A session that was read is written back for the same user only.\<close>

lemma honest_look_up:
  assumes "same_services svc env"
    and "\<And>e. honest svc Q G (k (Inl e))"
    and "\<And>x H. G \<subseteq> H \<Longrightarrow> (UserID x, Token x) \<in> H \<Longrightarrow> honest svc Q H (k (Inr x))"
  shows "honest svc Q G (look_up env t k)"
  unfolding look_up_def reading_def
proof (rule honest_Access)
  fix H a p b
  assume h: "G \<subseteq> H" "well_kept svc a" "pairs svc a \<subseteq> H"
    and e: "(k (store_Get (sess env) (store a) t), a) = (p, b)"
  have b: "b = a" "p = k (store_Get (sess env) (store a) t)" using e by (rule Pair_inject, blast)+
  have "honest svc Q H p"
  proof (cases "session_at svc a t")
    case None
    then show ?thesis
      using b(2) get_session [of env a t] h same_services_simps [OF assms(1)] honest_mono [OF assms(2) h(1)]
      by (simp add: well_kept_def)
  next
    case (Some x)
    then have "(UserID x, Token x) \<in> H"
      using h(2,3) store.token_key [of "sess svc" "store a" t x]
      by (auto simp: well_kept_def session_defs pairs_def)
    with assms(3) [OF h(1) this] show ?thesis
      using b(2) Some get_session [of env a t] h(2) same_services_simps [OF assms(1)]
      by (simp add: well_kept_def)
  qed
  with h b show "well_kept svc b \<and> (pairs svc b \<subseteq> H \<and> honest svc Q H p \<or>
      (\<exists>q\<in>Q. p = Return [q] \<and> pairs svc b \<subseteq> insert q H))" by simp
qed

lemma keep_session_effect:
  assumes "same_services svc env" and "well_kept svc a"
  obtains st where "store_Set (sess env) x (store a) = (None, st)" "well_kept svc (a\<lparr>store := st\<rparr>)"
    "pairs svc (a\<lparr>store := st\<rparr>) \<subseteq> insert (UserID x, Token x) (pairs svc a)"
    "session_at svc (a\<lparr>store := st\<rparr>) = (session_at svc a)(Token x \<mapsto> x)"
proof -
  obtain st where st: "store_Set (sess env) x (store a) = (None, st)" "store_inv (sess env) st"
      "store_storable (sess env) st = store_storable (sess env) (store a)"
      "store_contents (sess env) st = (store_contents (sess env) (store a))(Token x \<mapsto> x)"
    using store.put_contents [of "sess env" "store a" x] assms(2) same_services_simps(2) [OF assms(1)]
    by (auto simp: well_kept_def session_defs)
  then have c: "session_at svc (a\<lparr>store := st\<rparr>) = (session_at svc a)(Token x \<mapsto> x)"
    using same_services_simps(2) [OF assms(1)] by (simp add: session_defs fun_eq_iff)
  show thesis
  proof (rule that [OF st(1)])
    show "well_kept svc (a\<lparr>store := st\<rparr>)"
      using st assms(2) same_services_simps(2) [OF assms(1)] by (simp add: well_kept_def session_defs)
    show "pairs svc (a\<lparr>store := st\<rparr>) \<subseteq> insert (UserID x, Token x) (pairs svc a)"
      unfolding pairs_def c by (auto split: if_splits)
  qed (rule c)
qed

lemma honest_keep_session:
  assumes "same_services svc env" and "(UserID x, Token x) \<in> G" and "\<And>r. honest svc Q G (k r)"
  shows "honest svc Q G (keep_session env x k)"
  unfolding keep_session_def atomic_def
proof (rule honest_Access)
  fix H a and p :: "('a, 'b, (string \<times> string) list) call" and b
  assume h: "G \<subseteq> H" "well_kept svc a" "pairs svc a \<subseteq> H"
    and e: "(case case store_Set (sess env) x (store a) of (e, s) \<Rightarrow> (e, a\<lparr>store := s\<rparr>) of (r, s') \<Rightarrow> (k r, s')) = (p, b)"
  obtain st where "store_Set (sess env) x (store a) = (None, st)" "well_kept svc (a\<lparr>store := st\<rparr>)"
    "pairs svc (a\<lparr>store := st\<rparr>) \<subseteq> insert (UserID x, Token x) (pairs svc a)"
    using keep_session_effect [OF assms(1) h(2)] by blast
  with e h assms(2) honest_mono [OF assms(3) h(1)]
  show "well_kept svc b \<and> (pairs svc b \<subseteq> H \<and> honest svc Q H p \<or>
      (\<exists>q\<in>Q. p = Return [q] \<and> pairs svc b \<subseteq> insert q H))" by auto
qed

lemma honest_grant:
  assumes "same_services svc env" and "(UserID x, Token x) \<in> Q"
  shows "honest svc Q G (keep_session env x (\<lambda>r. Return
    (granted (UserID x) (case r of Some e \<Rightarrow> Inl (f e) | None \<Rightarrow> Inr x))))"
  unfolding keep_session_def atomic_def
proof (rule honest_Access)
  fix H a and p :: "('a, 'b, (string \<times> string) list) call" and b
  assume h: "G \<subseteq> H" "well_kept svc a" "pairs svc a \<subseteq> H"
    and e: "(case case store_Set (sess env) x (store a) of (e, s) \<Rightarrow> (e, a\<lparr>store := s\<rparr>) of (r, s') \<Rightarrow>
      (Return (granted (UserID x) (case r of Some e \<Rightarrow> Inl (f e) | None \<Rightarrow> Inr x)), s')) = (p, b)"
  obtain st where "store_Set (sess env) x (store a) = (None, st)" "well_kept svc (a\<lparr>store := st\<rparr>)"
    "pairs svc (a\<lparr>store := st\<rparr>) \<subseteq> insert (UserID x, Token x) (pairs svc a)"
    using keep_session_effect [OF assms(1) h(2)] by blast
  with e h have "p = Return [(UserID x, Token x)]" "well_kept svc b"
      "pairs svc b \<subseteq> insert (UserID x, Token x) H" by (auto simp: granted_def)
  with assms(2) show "well_kept svc b \<and> (pairs svc b \<subseteq> H \<and> honest svc Q H p \<or>
      (\<exists>q\<in>Q. p = Return [q] \<and> pairs svc b \<subseteq> insert q H))" by blast
qed


subsection \<open>Every method is honest\<close>

lemma bind_bind: "bind (bind p f) g = bind p (\<lambda>r. bind (f r) g)"
proof (induction p)
  case (Access k)
  have "bind (bind q f) g = bind q (\<lambda>r. bind (f r) g)" if "k s = (q, s')" for s q s'
    by (rule Access.IH [OF rangeI [of k s]]) (simp add: that)
  then show ?case by (auto simp: fun_eq_iff split: prod.split)
qed simp

lemma bind_accesses [simp]:
  "bind (get_file env path kr) f = get_file env path (\<lambda>r. bind (kr r) f)"
  "bind (test_file env path kb) f = test_file env path (\<lambda>r. bind (kb r) f)"
  "bind (put_file env path c k) f = put_file env path c (\<lambda>r. bind (k r) f)"
  "bind (erase_file env path k) f = erase_file env path (\<lambda>r. bind (k r) f)"
  "bind (make_dir env d k) f = make_dir env d (\<lambda>r. bind (k r) f)"
  "bind (look_up env t g) f = look_up env t (\<lambda>r. bind (g r) f)"
  "bind (keep_session env s k) f = keep_session env s (\<lambda>r. bind (k r) f)"
  "bind (drop_session env t k) f = drop_session env t (\<lambda>r. bind (k r) f)"
  "bind (drop_sessions_of env u k) f = drop_sessions_of env u (\<lambda>r. bind (k r) f)"
  "bind (print_error msg x p) f = print_error msg x (bind p f)"
  "bind (take_challenge u h) f = take_challenge u (\<lambda>r. bind (h r) f)"
  "bind (issue_challenge u ch p) f = issue_challenge u ch (bind p f)"
  by (simp_all add: access_defs)

lemma bind_case [simp]:
  "bind (case r of Inl e \<Rightarrow> p e | Inr v \<Rightarrow> q v) f = (case r of Inl e \<Rightarrow> bind (p e) f | Inr v \<Rightarrow> bind (q v) f)"
  "bind (case y of None \<Rightarrow> p0 | Some v \<Rightarrow> q0 v) f = (case y of None \<Rightarrow> bind p0 f | Some v \<Rightarrow> bind (q0 v) f)"
  "bind (if b then p1 else p2) f = (if b then bind p1 f else bind p2 f)"
  by (simp_all split: sum.split option.split)

lemma bind_put_files [simp]:
  "bind (put_files env op ws k) f = put_files env op ws (\<lambda>r. bind (k r) f)"
  by (induction env op ws k rule: put_files.induct) (simp_all cong: option.case_cong)

lemma bind_erase_artifacts [simp]:
  "bind (erase_artifacts env op u exts k) f = erase_artifacts env op u exts (\<lambda>r. bind (k r) f)"
  by (induction env op u exts k rule: erase_artifacts.induct) (simp_all cong: option.case_cong if_cong)

lemma bind_checks [simp]:
  "bind (IsRevoked_steps env u k) f = IsRevoked_steps env u (\<lambda>r. bind (k r) f)"
  "bind (verifyPassword_steps env u pw g) f = verifyPassword_steps env u pw (\<lambda>r. bind (g r) f)"
  "bind (drop_expired_steps env op t p) f = drop_expired_steps env op t (bind p f)"
  by (simp_all add: IsRevoked_steps_def verifyPassword_steps_def drop_expired_steps_def Let_def
    cong: if_cong option.case_cong)

lemma honest_checks [honest_intros]:
  "(\<And>r. honest svc Q G (k r)) \<Longrightarrow> honest svc Q G (IsRevoked_steps ev u k)"
  "(\<And>r. honest svc Q G (g r)) \<Longrightarrow> honest svc Q G (verifyPassword_steps ev u pw g)"
  "same_services svc env \<Longrightarrow> honest svc Q G p \<Longrightarrow> honest svc Q G (drop_expired_steps env op t p)"
  by (auto simp: IsRevoked_steps_def verifyPassword_steps_def drop_expired_steps_def Let_def
    intro!: honest_intros split: option.split)

text \<open>A new session is the last thing a granting call writes, and what it returns.\<close>

lemma honest_createSession:
  assumes "same_services svc env" and "\<And>tok. rnd env 32 = Inr tok \<Longrightarrow> (u, HexEncode tok) \<in> Q"
    and "\<And>e. f (Inl e) = Return []" and "\<And>s. f (Inr s) = Return [(u, Token s)]"
  shows "honest svc Q G (bind (createSession_steps env i u) f)"
proof (cases "rnd env 32")
  case (Inl e)
  with assms(3) show ?thesis by (simp add: createSession_steps_def honest_nothing)
next
  case (Inr tok)
  let ?s = "\<lambda>ttl. \<lparr>Token = HexEncode tok, UserID = u, ExpiresAt = clock env i + ttl\<rparr>"
  let ?msg = "\<lambda>e. E ''auth.createSession'' ''failed to persist session'' (Some e)"
  have "honest svc Q G (keep_session env (?s ttl) (\<lambda>r. f (case r of Some e \<Rightarrow> Inl (?msg e) | None \<Rightarrow> Inr (?s ttl))))" for ttl
  proof -
    have "f (case r of Some e \<Rightarrow> Inl (?msg e) | None \<Rightarrow> Inr (?s ttl)) =
        Return (granted (UserID (?s ttl)) (case r of Some e \<Rightarrow> Inl (?msg e) | None \<Rightarrow> Inr (?s ttl)))" for r
      by (cases r) (simp_all add: granted_def assms(3,4))
    then show ?thesis using honest_grant [OF assms(1), of "?s ttl"] assms(2) [OF Inr] by simp
  qed
  with Inr show ?thesis by (simp add: createSession_steps_def Let_def honest_reading)
qed


text \<open>The session a call may grant: to whom it is, and the token it draws.\<close>

fun grantee :: "auth_op \<Rightarrow> string option" where
  "grantee (OpLogin u _) = Some u"
| "grantee (OpValidateResponse u _) = Some u"
| "grantee (OpReadResponseFile u _) = Some u"
| "grantee _ = None"

definition may_grant :: "('m, 'k, 'p) auth_env \<Rightarrow> auth_op \<Rightarrow> (string \<times> string) list" where
  "may_grant env x =
     (case (grantee x, rnd env 32) of (Some u, Inr tok) \<Rightarrow> [(u, HexEncode tok)] | _ \<Rightarrow> [])"

lemmas branches = sum.case_cong option.case_cong if_cong

lemma honest_ValidateResponse:
  assumes "same_services svc env" and "\<And>tok. rnd env 32 = Inr tok \<Longrightarrow> (u, HexEncode tok) \<in> Q"
    and "\<And>e. f (Inl e) = Return []" and "\<And>s. f (Inr s) = Return [(u, Token s)]"
  shows "honest svc Q G (bind (ValidateResponse_steps env u sig) f)"
  by (simp add: ValidateResponse_steps_def Let_def assms(3) honest_nothing cong: branches)
    (intro honest_intros honest_createSession [OF assms])

lemma honest_CreateChallenge:
  assumes "\<And>r. honest svc Q G (f r)"
  shows "honest svc Q G (bind (CreateChallenge_steps env u) f)"
  by (simp add: CreateChallenge_steps_def Let_def cong: branches) (intro honest_intros assms)

lemma honest_Login:
  assumes "same_services svc env" and "\<And>tok. rnd env 32 = Inr tok \<Longrightarrow> (u, HexEncode tok) \<in> Q"
  shows "honest svc Q G (op_steps env (OpLogin u pw))"
proof -
  let ?f = "\<lambda>r. Return (case Some r of Some s \<Rightarrow> granted u s | None \<Rightarrow> [])"
  have s: "honest svc Q G (bind (createSession_steps env 0 u) ?f)"
    by (rule honest_createSession [OF assms]) (simp_all add: granted_def)
  show ?thesis
    unfolding op_steps.simps Login_steps_def Let_def
    by (simp add: bind_bind granted_def [of _ "Inl _"] cong: branches) (intro honest_intros s [simplified])
qed

lemma honest_RefreshSession:
  assumes "same_services svc env"
  shows "honest svc Q G (op_steps env (OpRefreshSession t))"
proof -
  have keep: "honest svc Q H (keep_session env (x\<lparr>ExpiresAt := e\<rparr>) (\<lambda>_. Return []))"
    if "(UserID x, Token x) \<in> H" for x e H
    by (rule honest_keep_session [OF assms]) (use that in \<open>simp_all add: honest_nothing\<close>)
  show ?thesis
    unfolding op_steps.simps RefreshSession_steps_def Let_def
    by (simp cong: branches, rule honest_look_up [OF assms]) (auto intro!: honest_intros assms keep)
qed

lemma honest_op_steps:
  assumes "same_services svc env" and "set (may_grant env x) \<subseteq> Q"
  shows "honest svc Q G (op_steps env x)"
proof (cases x)
  case (OpLogin u pw)
  with assms(2) have "(u, HexEncode tok) \<in> Q" if "rnd env 32 = Inr tok" for tok
    using that by (simp add: may_grant_def)
  from honest_Login [OF assms(1) this] show ?thesis unfolding OpLogin by blast
next
  case (OpValidateResponse u sig)
  with assms show ?thesis
    by (auto intro!: honest_ValidateResponse simp: may_grant_def granted_def)
next
  case (OpReadResponseFile u path)
  with assms show ?thesis
    by (auto intro!: honest_intros honest_ValidateResponse
      simp: ReadResponseFile_steps_def Let_def bind_bind may_grant_def granted_def cong: branches)
next
  case (OpWriteChallengeFile u path)
  then show ?thesis
    by (auto intro!: honest_intros honest_CreateChallenge
      simp: WriteChallengeFile_steps_def Let_def bind_bind simp del: put_files.simps cong: branches)
next
  case (OpRefreshSession t)
  then show ?thesis using honest_RefreshSession [OF assms(1)] by simp
next
  case (OpRegister name pw)
  show ?thesis
    unfolding OpRegister op_steps.simps Register_steps_def Let_def
    by (simp del: put_files.simps cong: branches) (intro honest_intros assms(1))
next
  case (OpRotateKeyPair u old new)
  show ?thesis
    unfolding OpRotateKeyPair op_steps.simps RotateKeyPair_steps_def Let_def
    by (simp del: put_files.simps cong: branches) (intro honest_intros assms(1))
next
  case (OpRevokeKey u pw reason)
  show ?thesis
    unfolding OpRevokeKey op_steps.simps RevokeKey_steps_def Let_def
    by (simp del: put_files.simps cong: branches) (intro honest_intros assms(1))
next
  case (OpDeleteUser u)
  show ?thesis
    unfolding OpDeleteUser op_steps.simps DeleteUser_steps_def Let_def
    by (simp del: erase_artifacts.simps split del: if_split cong: branches) (intro honest_intros assms(1))
next
  case (OpValidateSession t)
  have "honest svc Q G (look_up env t k)" if "\<And>r H. honest svc Q H (k r)" for k
    by (rule honest_look_up [OF assms(1)]) (rule that)+
  then show ?thesis
    unfolding OpValidateSession op_steps.simps ValidateSession_steps_def Let_def
    by (simp add: honest_intros assms(1) split: sum.split cong: branches)
next
  case (OpRevokeSession t)
  then show ?thesis by (simp add: RevokeSession_steps_def honest_intros assms(1))
next
  case (OpCreateChallenge u)
  then show ?thesis by (simp add: honest_CreateChallenge honest_nothing)
next
  case OpCleanup
  have "keeps svc a (snd (case store_Cleanup (sess env) (clock env 0) (store a) of
      (n, e, s) \<Rightarrow> ((n, e), a\<lparr>store := s\<rparr>)))" if "well_kept svc a" for a
    by (rule keeps_store [OF keeps_cleanup [OF assms(1), of a]])
      (use that in \<open>auto simp: well_kept_def cleanup_tick_def split: prod.split option.split\<close>)
  then show ?thesis
    unfolding OpCleanup op_steps.simps cleanup_steps_def
    by (auto intro!: honest_atomic honest_intros split: prod.split option.split)
qed


subsection \<open>Any schedule of any calls\<close>

text \<open>What the calls that have returned were granted.\<close>

definition returned :: "('s, ('a list)) proc list \<Rightarrow> 'a set" where
  "returned ps = (\<Union>p\<in>set ps. case p of Return xs \<Rightarrow> set xs | Access _ \<Rightarrow> {})"

lemma returned_iff: "q \<in> returned ps \<longleftrightarrow> (\<exists>i<length ps. \<exists>xs. ps ! i = Return xs \<and> q \<in> set xs)"
  unfolding returned_def in_set_conv_nth [symmetric] set_conv_nth
  by (fastforce split: proc.splits)

lemma returned_step:
  assumes "i < length ps" and "ps ! i = Access k"
  shows "returned (ps[i := p]) = returned ps \<union> (case p of Return xs \<Rightarrow> set xs | Access _ \<Rightarrow> {})"
proof -
  have "returned (ps[i := p]) = returned (take i ps) \<union> (case p of Return xs \<Rightarrow> set xs | Access _ \<Rightarrow> {}) \<union>
      returned (drop (Suc i) ps)"
    using assms(1) by (auto simp: returned_def upd_conv_take_nth_drop)
  moreover have "returned ps = returned (take i ps) \<union> returned (drop (Suc i) ps)"
    using assms by (subst id_take_nth_drop [OF assms(1)]) (simp add: returned_def)
  ultimately show ?thesis by auto
qed

definition all_honest ::
  "('m, 'k, 'p) auth_env \<Rightarrow> (string \<times> string) set \<Rightarrow> (string \<times> string) set list \<Rightarrow> ('m, 'k) auth \<Rightarrow>
     ('m, 'k, (string \<times> string) list) call list \<Rightarrow> bool" where
  "all_honest svc P Qs a ps \<longleftrightarrow> well_kept svc a \<and> pairs svc a \<subseteq> P \<union> returned ps \<and>
     length ps = length Qs \<and> (\<forall>i<length ps. honest svc (Qs ! i) (P \<union> returned ps) (ps ! i))"

lemma all_honest_step:
  assumes "all_honest svc P Qs a ps" and "i < length ps" and "ps ! i = Access k" and "k a = (p, b)"
  shows "all_honest svc P Qs b (ps[i := p])"
proof -
  let ?H = "P \<union> returned ps" and ?H' = "P \<union> returned (ps[i := p])"
  have a: "well_kept svc a" "pairs svc a \<subseteq> ?H" "honest svc (Qs ! i) ?H (Access k)"
    using assms(1-3) by (auto simp: all_honest_def)
  have sub: "?H \<subseteq> ?H'" using returned_step [OF assms(2,3), of p] by auto
  have "well_kept svc b \<and> (pairs svc b \<subseteq> ?H \<and> honest svc (Qs ! i) ?H p \<or>
      (\<exists>q\<in>Qs ! i. p = Return [q] \<and> pairs svc b \<subseteq> insert q ?H))"
    using a(3) by (rule honest_AccessE) (use a(1,2) assms(4) in blast)
  then have "well_kept svc b \<and> pairs svc b \<subseteq> ?H' \<and> honest svc (Qs ! i) ?H' p"
    using sub returned_step [OF assms(2,3), of p] honest_mono [OF _ sub]
    by (auto intro: honest_Return)
  moreover have "honest svc (Qs ! j) ?H' (ps ! j)" if "j < length ps" for j
    using assms(1) that by (auto simp: all_honest_def intro: honest_mono [OF _ sub])
  ultimately show ?thesis
    using assms(1,2) by (auto simp: all_honest_def nth_list_update)
qed

lemma all_honest_interleave:
  assumes "all_honest svc P Qs a ps" and "interleave is (a, ps) = (b, qs)"
  shows "all_honest svc P Qs b qs"
  by (rule interleave_invariant [of "all_honest svc P Qs", OF assms(1) _ assms(2)])
    (rule all_honest_step)

text \<open>Calls of methods, each in its own environment, about to start.\<close>

definition calls ::
  "(('m, 'k, 'p) auth_env \<times> auth_op) list \<Rightarrow> ('m, 'k, (string \<times> string) list) call list" where
  "calls xs = map (\<lambda>(env, x). op_steps env x) xs"

lemma calls_honest:
  assumes "well_kept svc a" and "\<And>env x. (env, x) \<in> set xs \<Longrightarrow> same_services svc env"
  shows "all_honest svc (pairs svc a) (map (\<lambda>(env, x). set (may_grant env x)) xs) a (calls xs)"
proof -
  have "honest svc (map (\<lambda>(env, x). set (may_grant env x)) xs ! i) G (calls xs ! i)" if "i < length xs" for i G
    using that assms(2) [of "fst (xs ! i)" "snd (xs ! i)"]
    by (auto simp: calls_def split_def intro!: honest_op_steps)
  then show ?thesis using assms(1) by (auto simp: all_honest_def calls_def)
qed

lemma interleaved_sessions:
  assumes "well_kept svc a" and "\<forall>(env, x) \<in> set xs. same_services svc env"
    and "interleave is (a, calls xs) = (b, ps)" and "session_at svc b t = Some s"
  shows "(\<exists>s0. session_at svc a t = Some s0 \<and> UserID s0 = UserID s) \<or>
    (\<exists>i<length xs. ps ! i = Return [(UserID s, t)] \<and>
       (case xs ! i of (env, x) \<Rightarrow> (UserID s, t) \<in> set (may_grant env x)))"
proof -
  let ?Qs = "map (\<lambda>(env, x). set (may_grant env x)) xs"
  have h: "all_honest svc (pairs svc a) ?Qs b ps"
    by (rule all_honest_interleave [OF calls_honest [OF assms(1)] assms(3)]) (use assms(2) in auto)
  have "(UserID s, t) \<in> pairs svc b" using assms(4) by (auto simp: pairs_def)
  with h consider "(UserID s, t) \<in> pairs svc a" | "(UserID s, t) \<in> returned ps" by (auto simp: all_honest_def)
  then show ?thesis
  proof cases
    case 2
    then obtain i ys where i: "i < length ps" "ps ! i = Return ys" "(UserID s, t) \<in> set ys"
      by (auto simp: returned_iff)
    moreover have "honest svc (?Qs ! i) (pairs svc a \<union> returned ps) (Return ys)" "length ps = length xs"
      using h i by (auto simp: all_honest_def)
    ultimately show ?thesis by (auto elim!: honest.cases simp: split_def)
  qed (auto simp: pairs_def)
qed


text \<open>
  C3.  Authentication soundness under concurrency.  Whatever methods run at the same time on one
  Authenticator, each call with its own clock, randomness and failing libraries, and however their
  accesses interleave: every session in the store was there before, of the same user, or was returned
  under its token by one of the calls, a password login or an answered challenge of its user that drew
  that token.
\<close>

theorem interleaved_sessions_were_granted:
  assumes "sessions_ok svc a" and "\<And>x. storable svc a x"
    and "\<forall>(env, x) \<in> set xs. same_services svc env"
    and "interleave is (a, calls xs) = (b, ps)" and "session_at svc b t = Some s"
  shows "(\<exists>s0. session_at svc a t = Some s0 \<and> UserID s0 = UserID s) \<or>
    (\<exists>i<length xs. ps ! i = Return [(UserID s, t)] \<and>
       (case xs ! i of (env, x) \<Rightarrow> (UserID s, t) \<in> set (may_grant env x)))"
  by (rule interleaved_sessions [OF _ assms(3-5)]) (use assms(1,2) in \<open>simp add: well_kept_def\<close>)

lemma demo_race:
  assumes "length xs = 1"
  shows "\<exists>is b ps v. interleave is (demo_user, calls ((demo_env 5, OpLogin ''u'' ''pw'') # xs)) = (b, ps) \<and>
    session_at (demo_env 5) b (HexEncode (replicate 32 1)) = Some v"
proof -
  let ?xs = "(demo_env 5, OpLogin ''u'' ''pw'') # xs"
  obtain n where n: "interleave (replicate n 0) (demo_user, calls ?xs) =
      (snd (run (calls ?xs ! 0) demo_user), (calls ?xs)[0 := Return (fst (run (calls ?xs ! 0) demo_user))])"
    using interleave_alone [of 0 "calls ?xs" demo_user] by (auto simp: calls_def)
  have "snd (run (calls ?xs ! 0) demo_user) = snd (run_auth [(demo_env 5, OpLogin ''u'' ''pw'')] demo_user)"
    by (simp add: calls_def run_op_steps split_def del: op_steps.simps exec.simps)
  with n demo_login_session show ?thesis by metis
qed

lemma demo_services: "same_services (demo_env 5) (demo_env t)"
  by (simp add: same_services_def demo_simps) (simp add: demo_env_def)

theorem interleaved_sessions_were_granted_witness:
  "\<exists>is b ps s. interleave is (demo_user,
       calls [(demo_env 5, OpLogin ''u'' ''pw''), (demo_env 6, OpRevokeSession ''x'')]) = (b, ps) \<and>
     session_at (demo_env 5) b (HexEncode (replicate 32 1)) = Some s \<and>
     (\<exists>i. ps ! i = Return [(UserID s, HexEncode (replicate 32 1))])"
proof -
  let ?xs = "[(demo_env 5, OpLogin ''u'' ''pw''), (demo_env 6, OpRevokeSession ''x'')]"
  obtain "is" b ps s where r: "interleave is (demo_user, calls ?xs) = (b, ps)"
      "session_at (demo_env 5) b (HexEncode (replicate 32 1)) = Some s"
    using demo_race [of "[(demo_env 6, OpRevokeSession ''x'')]"] by auto
  have "\<forall>(env, x) \<in> set ?xs. same_services (demo_env 5) env" by (simp add: demo_services)
  from interleaved_sessions_were_granted [OF demo_sessions_ok [OF demo_user_simps(2)]
      demo_storable [OF demo_user_simps(2)] this r] demo_no_session r
  have "\<exists>i. ps ! i = Return [(UserID s, HexEncode (replicate 32 1))]" by auto
  with r show ?thesis by blast
qed

lemma RevokeSession_gone:
  assumes "same_services svc env" and "sessions_ok svc a"
  shows "session_at svc (snd (RevokeSession env t a)) t = None"
proof (cases "session_at svc a t")
  case None
  then show ?thesis
    using store.delete_missing [of "sess svc" "store a" t] assms(2) same_services_simps(2) [OF assms(1)]
    by (simp add: RevokeSession_def session_defs)
next
  case (Some x)
  then show ?thesis
    using store.delete_present [of "sess svc" "store a" t x] assms(2) same_services_simps(2) [OF assms(1)]
    by (auto simp: RevokeSession_def session_defs)
qed

text \<open>
  C11.  Once RevokeSession has returned, the token is dead for every call that starts later: however
  these interleave, unless one of them draws the same 32 random bytes, the store has no session under
  the token and ValidateSession does not find it.
\<close>

theorem revoked_token_stays_dead:
  assumes "sessions_ok svc a" and "\<And>x. storable svc a x" and "same_services svc env"
    and "\<forall>(env', x) \<in> set xs. same_services svc env' \<and> t \<notin> snd ` set (may_grant env' x)"
    and "interleave is (snd (RevokeSession env t a), calls xs) = (b, ps)" and "same_services svc env2"
  shows "session_at svc b t = None \<and>
    ValidateSession env2 t b = (Inl (E ''auth.ValidateSession'' ''session not found'' None), b)"
proof -
  let ?a = "snd (RevokeSession env t a)"
  have wk: "well_kept svc ?a"
    using keeps_RevokeSession [OF assms(3,1)] assms(1,2) by (simp add: well_kept_def keeps_def)
  have gone: "session_at svc ?a t = None"
    by (rule RevokeSession_gone [OF assms(3,1)])
  have sv: "\<forall>(env', x) \<in> set xs. same_services svc env'" using assms(4) by auto
  have drawn: "(u, t) \<notin> set (may_grant env' x)" if "(env', x) \<in> set xs" for env' x u
    using assms(4) that by force
  have none: "session_at svc b t = None"
  proof (rule ccontr)
    assume "session_at svc b t \<noteq> None"
    then obtain s where "session_at svc b t = Some s" by blast
    from interleaved_sessions [OF wk sv assms(5) this] gone obtain i
      where "i < length xs" "case xs ! i of (env', x) \<Rightarrow> (UserID s, t) \<in> set (may_grant env' x)" by auto
    with drawn [of "fst (xs ! i)" "snd (xs ! i)" "UserID s"] show False by (auto simp: split_def)
  qed
  have h: "all_honest svc (pairs svc ?a) (map (\<lambda>(env, x). set (may_grant env x)) xs) b ps"
    by (rule all_honest_interleave [OF calls_honest [OF wk] assms(5)]) (use sv in auto)
  then have "store_Get (sess env2) (store b) t = Inl ErrSessionNotFound"
    using get_session [of env2 b t] none same_services_simps [OF assms(6)]
    by (simp add: all_honest_def well_kept_def)
  with none show ?thesis by (simp add: ValidateSession_def Let_def)
qed

theorem revoked_token_stays_dead_witness:
  "\<exists>b ps. interleave [1, 0, 1, 0] (snd (RevokeSession (demo_env 5) ''t'' demo_user),
       calls [(demo_env 5, OpRefreshSession ''t''), (demo_env 6, OpLogin ''u'' ''pw'')]) = (b, ps) \<and>
     fst (ValidateSession (demo_env 7) ''t'' b) =
       Inl (E ''auth.ValidateSession'' ''session not found'' None)"
proof -
  let ?xs = "[(demo_env 5, OpRefreshSession ''t''), (demo_env 6, OpLogin ''u'' ''pw'')]"
  obtain b ps where r: "interleave [1, 0, 1, 0] (snd (RevokeSession (demo_env 5) ''t'' demo_user), calls ?xs) = (b, ps)"
    by (cases "interleave [1, 0, 1, 0] (snd (RevokeSession (demo_env 5) ''t'' demo_user), calls ?xs)")
  have "HexEncode (replicate 32 1) \<noteq> ''t''" by (simp add: HexEncode_def numeral_eq_Suc)
  then have "\<forall>(env', x) \<in> set ?xs. same_services (demo_env 5) env' \<and> ''t'' \<notin> snd ` set (may_grant env' x)"
    by (simp add: demo_services may_grant_def demo_simps)
  from revoked_token_stays_dead [OF demo_sessions_ok [OF demo_user_simps(2)]
      demo_storable [OF demo_user_simps(2)] demo_services this r demo_services] r
  show ?thesis by auto
qed


section \<open>What reads and writes in two accesses\<close>

lemma store_after_delete:
  assumes "same_services env env'" and "sessions_ok env a" and "\<And>x. storable env a x"
    and "session_at env a t = Some s"
  obtains st1 st2 where "store_Delete (sess env') t (store a) = (None, st1)"
    "session_at env (a\<lparr>store := st1\<rparr>) t = None" "sessions_ok env (a\<lparr>store := st1\<rparr>)"
    "store_Set (sess env) x st1 = (None, st2)" "session_at env (a\<lparr>store := st2\<rparr>) (Token x) = Some x"
proof -
  note se = same_services_simps(2) [OF assms(1)]
  obtain st1 where st1: "store_Delete (sess env) t (store a) = (None, st1)" "store_inv (sess env) st1"
      "store_storable (sess env) st1 = store_storable (sess env) (store a)"
      "store_contents (sess env) st1 = (store_contents (sess env) (store a))(t := None)"
    using store.delete_present [of "sess env" "store a" t s] assms(2,4) by (auto simp: session_defs)
  obtain st2 where "store_Set (sess env) x st1 = (None, st2)"
      "store_contents (sess env) st2 = (store_contents (sess env) st1)(Token x \<mapsto> x)"
    using store.put_contents [of "sess env" st1 x] st1(2,3) assms(3) by (auto simp: session_defs)
  with st1 that [of st1 st2] se show thesis by (simp add: session_defs)
qed

definition refresh_beside_revoke ::
  "('m, 'k, 'p) auth_env \<Rightarrow> ('m, 'k, 'p) auth_env \<Rightarrow> string \<Rightarrow>
     ('m, 'k, Session res + err option) call list" where
  "refresh_beside_revoke env env' t =
     [bind (RefreshSession_steps env t) (\<lambda>r. Return (Inl r)),
      bind (RevokeSession_steps env' t) (\<lambda>r. Return (Inr r))]"

text \<open>
  C12.  RefreshSession looks the session up and writes it back in two accesses, and a RevokeSession
  that runs between them is undone: both calls report success, and the revoked token is live again,
  until the end of a full period.  In either order one after the other they leave the token dead.
\<close>

theorem refresh_undoes_revocation:
  assumes "sessions_ok env a" and "\<And>x. storable env a x" and "same_services env env'"
    and "session_at env a t = Some s" and "clock env 0 \<le> ExpiresAt s"
  shows "(\<exists>b s'. interleave [0, 1, 0, 0] (a, refresh_beside_revoke env env' t) =
        (b, [Return (Inl (Inr s')), Return (Inr None)]) \<and>
      session_at env b t = Some s' \<and> ExpiresAt s' = clock env 1 + sessionTTL a) \<and>
    session_at env (fst (interleave [0, 0, 0, 1] (a, refresh_beside_revoke env env' t))) t = None \<and>
    session_at env (fst (interleave [1, 0] (a, refresh_beside_revoke env env' t))) t = None"
proof -
  let ?s = "s\<lparr>ExpiresAt := clock env 1 + sessionTTL a\<rparr>"
  note se = same_services_simps(2) [OF assms(3)]
  have get: "store_Get (sess env) (store a) t = Inr s" "Token s = t"
    using get_session [OF assms(1), of t] assms(1,4) store.token_key [of "sess env" "store a" t s]
    by (simp_all add: session_defs)
  have live: "\<not> After (clock env 0) (ExpiresAt s)" using assms(5) by (simp add: After_def)
  obtain st1 st2 where d: "store_Delete (sess env) t (store a) = (None, st1)"
      "session_at env (a\<lparr>store := st1\<rparr>) t = None" "sessions_ok env (a\<lparr>store := st1\<rparr>)"
      "store_Set (sess env) ?s st1 = (None, st2)" "session_at env (a\<lparr>store := st2\<rparr>) t = Some ?s"
    using store_after_delete [OF assms(3,1,2,4), of ?s] get(2) se by auto
  have wk: "well_kept env a" using assms(1,2) by (simp add: well_kept_def)
  obtain st3 where w: "store_Set (sess env) ?s (store a) = (None, st3)" "sessions_ok env (a\<lparr>store := st3\<rparr>)"
    using keep_session_effect [OF same_services_refl wk, of ?s] well_kept_def by metis
  have "session_at env (a\<lparr>store := snd (store_Delete (sess env) t st3)\<rparr>) t = None"
    using RevokeSession_gone [OF _ w(2), of env t]
    by (simp add: RevokeSession_def session_at_def split: prod.splits option.splits)
  moreover have "store_Get (sess env) st1 t = Inl ErrSessionNotFound"
    using get_session [OF d(3), of t] d(2) by simp
  ultimately show ?thesis
    using get live d w
    by (simp add: refresh_beside_revoke_def RefreshSession_steps_def RevokeSession_steps_def access_defs Let_def
      reading_def atomic_def se split_def numeral_eq_Suc)
qed

theorem refresh_undoes_revocation_witness:
  "\<exists>b s'. interleave [0, 1, 0, 0] (demo_auth\<lparr>store := Memory \<lparr>sessions = [''t1'' \<mapsto> session_a]\<rparr>\<rparr>,
       refresh_beside_revoke (demo_env 40) (demo_env 40) ''t1'') =
     (b, [Return (Inl (Inr s')), Return (Inr None)]) \<and> session_at (demo_env 40) b ''t1'' = Some s'"
proof -
  let ?a = "demo_auth\<lparr>store := Memory \<lparr>sessions = [''t1'' \<mapsto> session_a]\<rparr>\<rparr>"
  have "sessions_ok (demo_env 40) ?a"
    using list_env_inv(1)
    by (simp add: sessions_ok_def demo_simps list_env_def mem_inv_def keyed_by_token_def session_a_def)
  moreover have "session_at (demo_env 40) ?a ''t1'' = Some session_a"
    by (simp add: session_at_def)
  moreover have "\<And>x. storable (demo_env 40) ?a x" by (rule demo_storable) simp
  moreover have "clock (demo_env 40) 0 \<le> ExpiresAt session_a" by (simp add: demo_simps session_a_def)
  ultimately show ?thesis
    using refresh_undoes_revocation [of "demo_env 40" ?a "demo_env 40" "''t1''" session_a] by auto
qed


definition login_beside_revocation ::
  "('m, 'k, 'p) auth_env \<Rightarrow> ('m, 'k, 'p) auth_env \<Rightarrow> (err \<Rightarrow> string) \<Rightarrow> string \<Rightarrow> string \<Rightarrow> string \<Rightarrow> string \<Rightarrow>
     ('m, 'k, Session res option + err option option) call list" where
  "login_beside_revocation env env' txt u pw pw' reason =
     [bind (Login_steps env u pw) (\<lambda>r. Return (Inl r)),
      bind (RevokeKey_steps env' txt u pw' reason) (\<lambda>r. Return (Inr r))]"

lemma Login_with_hash:
  assumes "Login env u pw a = (Some (Inr s), a')" and "is_file env a (userPath u ''.hash'')"
  obtains h where "\<not> IsRevoked env u a" "file_read env a (userPath u ''.hash'') = Inr h"
    "HasPrefix h ''$argon2id$''" "VerifyPassword (argon env) pw h = Some (Inr True)"
    "createSession env 0 u a = (Inr s, a')"
  using assms
  by (auto simp: Login_def Let_def map_prod_def
    split: if_splits sum.splits option.splits prod.splits)

lemma login_past_its_checks:
  assumes "\<not> IsRevoked env u a" and "is_file env a (userPath u ''.hash'')"
    and "file_read env a (userPath u ''.hash'') = Inr h" and "HasPrefix h ''$argon2id$''"
    and "VerifyPassword (argon env) pw h = Some (Inr True)"
  shows "interleave [0, 0, 0] (a, [bind (Login_steps env u pw) f, p]) =
    (a, [bind (createSession_steps env 0 u) (\<lambda>r. f (Some r)), p])"
proof -
  have "\<not> revoked_in env (file_read env a (userPath u ''.rev''))"
    using assms(1) by (simp add: IsRevoked_def revoked_in_def split: sum.splits)
  with assms(2-5) show ?thesis
    by (simp add: Login_steps_def IsRevoked_steps_def Let_def get_file_def test_file_def reading_def
      numeral_eq_Suc bind_bind)
qed

text \<open>
  C13.  Login checks the revocation before it verifies the password, and stores the session later: a
  login that has passed its checks when RevokeKey runs still succeeds, after it.  Both calls report
  success, the key is revoked, and the user has a session that no revocation will drop.
\<close>

theorem login_outlives_revocation:
  assumes "Login env u pw a = (Some (Inr s), a1)" and "is_file env a (userPath u ''.hash'')"
    and "RevokeKey env' txt u pw' reason a = (Some None, a2)"
    and "medium_sound (med env')" and "sessions_ok env' a" and "revocation_codec env'"
    and "clock env' 0 \<noteq> 0" and "same_services env' env" and "\<And>x. storable env' a x"
  shows "\<exists>n b. interleave ([0, 0, 0] @ replicate n 1 @ [0, 0])
        (a, login_beside_revocation env env' txt u pw pw' reason) =
      (b, [Return (Inl (Some (Inr s))), Return (Inr (Some None))]) \<and>
    IsRevoked env u b \<and> session_at env b (Token s) = Some s \<and> UserID s = u"
proof -
  obtain h where l: "\<not> IsRevoked env u a" "file_read env a (userPath u ''.hash'') = Inr h"
      "HasPrefix h ''$argon2id$''" "VerifyPassword (argon env) pw h = Some (Inr True)"
      "createSession env 0 u a = (Inr s, a1)"
    using Login_with_hash [OF assms(1,2)] by blast
  obtain tok where tok: "rnd env 32 = Inr tok" "s = new_session env 0 u a tok"
    using createSession_Inr [OF l(5)] by blast
  note e = RevokeKey_effect [OF assms(3-7)] and sv = same_services_simps [OF assms(8)]
  let ?L = "bind (createSession_steps env 0 u) (\<lambda>r. Return (Inl (Some r) :: Session res option + err option option))"
  let ?R = "bind (RevokeKey_steps env' txt u pw' reason) (\<lambda>r. Return (Inr r :: Session res option + err option option))"
  have "run ?R a = (Inr (Some None), a2)" using assms(3) by (simp add: run_bind run_RevokeKey)
  then obtain n where n: "interleave (replicate n 1) (a, [?L, ?R]) = (a2, [?L, Return (Inr (Some None))])"
    using interleave_alone [of 1 "[?L, ?R]" a] by auto
  have "well_kept env' a2" using e assms(9) by (simp add: well_kept_def)
  then obtain st where st: "store_Set (sess env) s (store a2) = (None, st)"
      "session_at env' (a2\<lparr>store := st\<rparr>) = (session_at env' a2)(Token s \<mapsto> s)"
    using keep_session_effect [OF assms(8), of a2 s] by metis
  have "sessionTTL a2 = sessionTTL a" using e by simp
  then have "interleave [0, 0] (a2, [?L, Return (Inr (Some None))]) =
      (a2\<lparr>store := st\<rparr>, [Return (Inl (Some (Inr s))), Return (Inr (Some None))])"
    using st(1) tok
    by (simp add: createSession_steps_def new_session_def keep_session_def reading_def atomic_def Let_def
      numeral_eq_Suc)
  then have "interleave ([0, 0, 0] @ replicate n 1 @ [0, 0])
        (a, login_beside_revocation env env' txt u pw pw' reason) =
      (a2\<lparr>store := st\<rparr>, [Return (Inl (Some (Inr s))), Return (Inr (Some None))])"
    unfolding interleave_append login_beside_revocation_def login_past_its_checks [OF l(1) assms(2) l(2-4)] n .
  moreover have "IsRevoked env u (a2\<lparr>store := st\<rparr>)"
    using e sv(11) by (simp add: IsRevoked_def file_read_def)
  moreover have "session_at env (a2\<lparr>store := st\<rparr>) (Token s) = Some s" "UserID s = u"
    using st(2) sv(8) tok(2) by (simp_all add: new_session_def)
  ultimately show ?thesis by blast
qed

lemma demo_hashed:
  obtains h where "HasPrefix h ''$argon2id$''" "VerifyPassword plain_kdf ''pw'' h = Some (Inr True)"
proof -
  obtain h where h: "HashPassword plain_kdf (\<lambda>n. Inr (replicate n 1)) ''pw'' = Some (Inr h)"
    using HashPassword_total [of "\<lambda>n. Inr (replicate n 1)" "replicate argon2SaltLen 1"] plain_key_exists
    by blast
  from HashPassword_verifies [OF plain_kdf_sound h] HashPassword_prefix [OF h] that show thesis by fastforce
qed

theorem login_outlives_revocation_witness:
  "\<exists>a s n b. interleave ([0, 0, 0] @ replicate n 1 @ [0, 0])
       (a, login_beside_revocation (demo_env 5) (demo_env 5) (\<lambda>_. '''') ''u'' ''pw'' ''pw'' ''lost'') =
     (b, [Return (Inl (Some (Inr s))), Return (Inr (Some None))]) \<and>
     IsRevoked (demo_env 5) ''u'' b \<and> session_at (demo_env 5) b (Token s) = Some s"
proof -
  obtain h where h: "HasPrefix h ''$argon2id$''" "VerifyPassword plain_kdf ''pw'' h = Some (Inr True)"
    using demo_hashed by blast
  let ?a = "demo_user\<lparr>medium := (medium demo_user)(''users/u.hash'' \<mapsto> h)\<rparr>"
  let ?b = "?a\<lparr>medium := (medium ?a)(userPath ''u'' ''.rev'' \<mapsto> ''5'')\<rparr>"
  have st: "store ?a = Memory NewMemorySessionStore" "store ?b = Memory NewMemorySessionStore"
    by (simp_all add: demo_user_simps)
  have files: "is_file (demo_env 5) ?a (userPath ''u'' ''.hash'')" "is_file (demo_env 5) ?a (userPath ''u'' ''.pub'')"
      "file_read (demo_env 5) ?a (userPath ''u'' ''.hash'') = Inr h" "\<not> IsRevoked (demo_env 5) ''u'' ?a"
    by (simp_all add: demo_reads demo_user_simps userPath_def IsRevoked_def)
  obtain s a1 where c: "createSession (demo_env 5) 0 ''u'' ?a = (Inr s, a1)"
    using createSession_ok [OF demo_sessions_ok [OF st(1)] _ demo_storable [OF st(1)], of 5 "replicate 32 1" 0 "''u''"]
    by (auto simp: demo_simps)
  have l: "Login (demo_env 5) ''u'' ''pw'' ?a = (Some (Inr s), a1)"
    using c h Login_hash [OF files(4) files(1) files(3) h(1)] by (simp add: demo_simps)
  obtain a2 where "sessions_drop_user (demo_env 5) ''u'' ?b = (None, a2)"
    using demo_drop_user [OF st(2)] by blast
  moreover have "verifyPassword (demo_env 5) ''u'' ''pw'' ?a = Some None"
    using files h by (simp add: verifyPassword_def demo_simps)
  moreover have "marshal_rev (demo_env 5) \<lparr>rev_UserID = ''u'', rev_Reason = ''lost'', RevokedAt = 5\<rparr> = Inr ''5''"
    by (simp add: demo_env_def nat_to_dec.simps)
  ultimately have r: "RevokeKey (demo_env 5) (\<lambda>_. '''') ''u'' ''pw'' ''lost'' ?a = (Some None, a2)"
    using files(2) by (simp add: RevokeKey_def demo_write demo_simps)
  have "medium_sound (med (demo_env 5))" "clock (demo_env 5) 0 \<noteq> 0"
    using map_medium_sound by (simp_all add: demo_simps)
  from login_outlives_revocation [OF l files(1) r this(1) demo_sessions_ok [OF st(1)] demo_codec this(2)
      demo_services demo_storable [OF st(1)]]
  show ?thesis by metis
qed


section \<open>A challenge is spent once\<close>

text \<open>
  A call is calm about a user if each of its accesses leaves the user's challenge or takes it away.
  An answer is empty-handed until it has taken the challenge; a session is returned only afterwards.
\<close>

definition spends :: "string \<Rightarrow> ('m, 'k) auth \<Rightarrow> ('m, 'k) auth \<Rightarrow> bool" where
  "spends u a b \<longleftrightarrow> challenges b u = challenges a u \<or> challenges b u = None"

abbreviation calm :: "string \<Rightarrow> ('m, 'k, 'r) call \<Rightarrow> bool" where
  "calm u \<equiv> within (spends u)"

inductive empty_handed :: "string \<Rightarrow> ('m, 'k, (string \<times> string) list) call \<Rightarrow> bool" for u where
  empty_handed_Return: "empty_handed u (Return [])"
| empty_handed_Access: "(\<And>a p b. k a = (p, b) \<Longrightarrow>
      spends u a b \<and> empty_handed u p \<or> challenges a u \<noteq> None \<and> challenges b u = None \<and> calm u p)
    \<Longrightarrow> empty_handed u (Access k)"

inductive_cases empty_handed_AccessE: "empty_handed u (Access k)"
inductive_cases empty_handed_ReturnE: "empty_handed u (Return r)"

named_theorems calm_intros

lemma challenges_frames [simp]:
  "challenges (snd (file_write env path c a)) = challenges a"
  "challenges (snd (file_delete env path a)) = challenges a"
  "challenges (snd (sessions_drop_user env v a)) = challenges a"
  by (simp_all add: file_write_def file_delete_def sessions_drop_user_def split: prod.split option.split)

lemma calm_accesses [calm_intros]:
  "calm u (Return r0)"
  "(\<And>r. calm u (kf r)) \<Longrightarrow> calm u (reading f kf)"
  "(\<And>r. calm u (kr r)) \<Longrightarrow> calm u (get_file env path kr)"
  "(\<And>r. calm u (kb r)) \<Longrightarrow> calm u (test_file env path kb)"
  "(\<And>r. calm u (k r)) \<Longrightarrow> calm u (put_file env path c k)"
  "(\<And>r. calm u (k r)) \<Longrightarrow> calm u (erase_file env path k)"
  "(\<And>r. calm u (k r)) \<Longrightarrow> calm u (make_dir env d k)"
  "(\<And>r. calm u (g r)) \<Longrightarrow> calm u (look_up env t g)"
  "(\<And>r. calm u (k r)) \<Longrightarrow> calm u (keep_session env s k)"
  "(\<And>r. calm u (k r)) \<Longrightarrow> calm u (drop_session env t k)"
  "(\<And>r. calm u (k r)) \<Longrightarrow> calm u (drop_sessions_of env v k)"
  "calm u p \<Longrightarrow> calm u (print_error msg e p)"
  "(\<And>r. calm u (h r)) \<Longrightarrow> calm u (take_challenge v h)"
  "v \<noteq> u \<Longrightarrow> calm u p \<Longrightarrow> calm u (issue_challenge v ch p)"
  unfolding access_defs
  by (auto intro!: within_Return within_reading within_atomic simp: spends_def
    split: prod.split option.split)

lemma calm_put_files [calm_intros]: "(\<And>r. calm u (k r)) \<Longrightarrow> calm u (put_files env op ws k)"
  by (induction env op ws k rule: put_files.induct) (auto intro!: calm_intros split: option.split)

lemma calm_erase_artifacts [calm_intros]:
  "(\<And>r. calm u (k r)) \<Longrightarrow> calm u (erase_artifacts env op v exts k)"
  by (induction env op v exts k rule: erase_artifacts.induct) (auto intro!: calm_intros split: option.split)

lemma calm_cases [calm_intros]:
  "(\<And>e. r = Inl e \<Longrightarrow> calm u (f e)) \<Longrightarrow> (\<And>v. r = Inr v \<Longrightarrow> calm u (g v)) \<Longrightarrow>
     calm u (case r of Inl e \<Rightarrow> f e | Inr v \<Rightarrow> g v)"
  "calm u p \<Longrightarrow> (\<And>v. y = Some v \<Longrightarrow> calm u (q v)) \<Longrightarrow> calm u (case y of None \<Rightarrow> p | Some v \<Rightarrow> q v)"
  "calm u p \<Longrightarrow> calm u p' \<Longrightarrow> calm u (if b then p else p')"
  by (cases r; cases y; simp)+

lemma calm_methods [calm_intros]:
  "calm u (createSession_steps env i v)"
  "(\<And>r. calm u (k r)) \<Longrightarrow> calm u (IsRevoked_steps env v k)"
  "(\<And>r. calm u (g r)) \<Longrightarrow> calm u (verifyPassword_steps env v pw g)"
  "calm u p \<Longrightarrow> calm u (drop_expired_steps env op t p)"
  unfolding createSession_steps_def IsRevoked_steps_def verifyPassword_steps_def drop_expired_steps_def Let_def
  by (intro calm_intros; blast)+

lemma calm_challenge_methods [calm_intros]:
  "v \<noteq> u \<Longrightarrow> calm u (CreateChallenge_steps env v)"
  "calm u (ValidateResponse_steps env v sig)"
  unfolding CreateChallenge_steps_def ValidateResponse_steps_def Let_def
  by (intro calm_intros; assumption)+

text \<open>The calls that may make a challenge of \<open>u\<close> pending, and those that answer one.\<close>

fun issues :: "string \<Rightarrow> auth_op \<Rightarrow> bool" where
  "issues u (OpCreateChallenge v) = (v = u)"
| "issues u (OpWriteChallengeFile v _) = (v = u)"
| "issues u _ = False"

fun answers :: "string \<Rightarrow> auth_op \<Rightarrow> bool" where
  "answers u (OpValidateResponse v _) = (v = u)"
| "answers u (OpReadResponseFile v _) = (v = u)"
| "answers u _ = False"

lemma calm_cleanup [calm_intros]: "calm u (cleanup_steps env)"
  unfolding cleanup_steps_def
  by (rule within_atomic) (auto intro!: calm_intros simp: spends_def split: prod.split option.split)

lemma calm_other_methods [calm_intros]:
  "calm u (Register_steps env name pw)" "calm u (Login_steps env v pw)"
  "calm u (ReadResponseFile_steps env v path)" "calm u (ValidateSession_steps env t)"
  "calm u (RefreshSession_steps env t)" "calm u (RevokeSession_steps env t)"
  "calm u (DeleteUser_steps env v)" "calm u (RotateKeyPair_steps env v pw new)"
  "calm u (RevokeKey_steps env txt v pw reason)"
  unfolding Register_steps_def Login_steps_def ReadResponseFile_steps_def ValidateSession_steps_def
    RefreshSession_steps_def RevokeSession_steps_def DeleteUser_steps_def RotateKeyPair_steps_def
    RevokeKey_steps_def Let_def
  by (intro within_bind calm_intros)+

lemma calm_WriteChallengeFile [calm_intros]: "v \<noteq> u \<Longrightarrow> calm u (WriteChallengeFile_steps env v path)"
  unfolding WriteChallengeFile_steps_def Let_def by (intro within_bind calm_intros)

lemma calm_op_steps: "\<not> issues u x \<Longrightarrow> calm u (op_steps env x)"
  by (cases x) (auto intro!: within_bind calm_intros)


lemma empty_handed_take:
  assumes "empty_handed u (h None)" and "\<And>c. calm u (h (Some c))"
  shows "empty_handed u (take_challenge u h)"
  unfolding take_challenge_def atomic_def
  by (rule empty_handed_Access) (use assms in \<open>auto simp: spends_def split: option.splits\<close>)

lemma empty_handed_reading: "(\<And>r. empty_handed u (k r)) \<Longrightarrow> empty_handed u (reading f k)"
  unfolding reading_def by (rule empty_handed_Access) (auto simp: spends_def)

lemma empty_handed_answers:
  assumes "answers u x"
  shows "empty_handed u (op_steps env x)"
proof -
  have v: "empty_handed u (bind (ValidateResponse_steps env u sig) f)"
    if "\<And>e. f (Inl e) = Return []" and "\<And>r. calm u (f r)" for sig f
    unfolding ValidateResponse_steps_def Let_def bind_accesses
    by (rule empty_handed_take) (simp add: that(1) empty_handed_Return,
      simp, intro conjI impI within_bind calm_intros that(2))
  show ?thesis
  proof (cases x)
    case (OpValidateResponse w sig)
    with assms show ?thesis by (auto intro!: v calm_intros simp: granted_def)
  next
    case (OpReadResponseFile w path)
    have "empty_handed u (case r of
          Inl e \<Rightarrow> Return []
        | Inr content \<Rightarrow> bind (ValidateResponse_steps env u (bytes_of_string content)) (\<lambda>r. Return
            (granted u (case r of Inl e \<Rightarrow> Inl (E op ''failed to validate response'' (Some e)) | Inr s \<Rightarrow> Inr s))))"
      for r op
      by (cases r) (auto intro!: v calm_intros empty_handed_Return simp: granted_def)
    with OpReadResponseFile assms show ?thesis
      by (auto intro!: empty_handed_reading
        simp: ReadResponseFile_steps_def Let_def bind_bind get_file_def granted_def [of _ "Inl _"]
        cong: branches)
  qed (use assms in simp_all)
qed

text \<open>Who has taken a challenge, and one that is still there, are never more than there were.\<close>

definition spent_by ::
  "string \<Rightarrow> nat set \<Rightarrow> ('m, 'k, (string \<times> string) list) call list \<Rightarrow> nat set" where
  "spent_by u A ps = {i \<in> A. \<not> empty_handed u (ps ! i)}"

definition at_most ::
  "nat \<Rightarrow> string \<Rightarrow> nat set \<Rightarrow> ('m, 'k) auth \<Rightarrow> ('m, 'k, (string \<times> string) list) call list \<Rightarrow> bool" where
  "at_most N u A a ps \<longleftrightarrow> finite A \<and> A \<subseteq> {..<length ps} \<and> (\<forall>p\<in>set ps. calm u p) \<and>
     card (spent_by u A ps) + (if challenges a u = None then 0 else 1) \<le> N"

lemma at_most_step:
  assumes "at_most N u A a ps" and "i < length ps" and "ps ! i = Access k" and "k a = (p, b)"
  shows "at_most N u A b (ps[i := p])"
proof -
  have calm: "calm u (Access k)" using assms(1-3) by (metis at_most_def nth_mem)
  then have "spends u a b \<and> calm u p" by (rule within_AccessE) (use assms(4) in blast)
  then have p: "spends u a b" "calm u p" by blast+
  have fin: "finite (spent_by u A ps)" using assms(1) by (simp add: at_most_def spent_by_def)
  have others: "spent_by u A (ps[i := p]) - {i} = spent_by u A ps - {i}"
    by (auto simp: spent_by_def nth_list_update)
  have "card (spent_by u A (ps[i := p])) + (if challenges b u = None then 0 else 1) \<le> N"
  proof (cases "i \<in> spent_by u A (ps[i := p]) \<and> i \<notin> spent_by u A ps")
    case True
    then have e: "empty_handed u (Access k)" "\<not> empty_handed u p"
      using assms(2,3) by (auto simp: spent_by_def)
    from e(1) have "challenges a u \<noteq> None \<and> challenges b u = None"
      by (rule empty_handed_AccessE) (use assms(4) e(2) in blast)
    then have "challenges a u \<noteq> None" "challenges b u = None" by blast+
    moreover have "spent_by u A (ps[i := p]) = insert i (spent_by u A ps)" using True others by blast
    ultimately show ?thesis using assms(1) True fin by (auto simp: at_most_def)
  next
    case False
    then have "spent_by u A (ps[i := p]) \<subseteq> spent_by u A ps" using others by blast
    with fin have "card (spent_by u A (ps[i := p])) \<le> card (spent_by u A ps)" by (rule card_mono)
    moreover have "challenges a u = None \<Longrightarrow> challenges b u = None" using p(1) by (auto simp: spends_def)
    ultimately show ?thesis using assms(1) by (auto simp: at_most_def split: if_splits)
  qed
  with assms(1) p(2) show ?thesis by (auto simp: at_most_def dest: set_update_subset_insert [THEN subsetD])
qed

text \<open>
  C4.  A challenge is spent once, under concurrency too.  While no call issues the user a new
  challenge, at most one of any number of concurrent ValidateResponse and ReadResponseFile calls for
  the user returns a session, however their accesses interleave, with whatever else runs; and none
  does if no challenge is pending at the start.
\<close>

theorem challenge_spent_once:
  assumes "\<forall>(env, x) \<in> set xs. \<not> issues u x"
    and "interleave is (a, calls xs) = (b, ps)"
  shows "card {i. i < length xs \<and> answers u (snd (xs ! i)) \<and> (\<exists>q. ps ! i = Return [q])} \<le>
    (if challenges a u = None then 0 else 1)"
proof -
  let ?A = "{i. i < length xs \<and> answers u (snd (xs ! i))}" and ?N = "if challenges a u = None then 0 else 1"
  have "spent_by u ?A (calls xs) = {}"
    by (auto simp: spent_by_def calls_def split_def intro!: empty_handed_answers)
  then have "at_most ?N u ?A a (calls xs)"
    using assms(1) by (auto simp: at_most_def calls_def intro!: calm_op_steps)
  then have m: "at_most ?N u ?A b ps"
    by (rule interleave_invariant [of "at_most ?N u ?A", OF _ _ assms(2)]) (rule at_most_step)
  have "{i. i < length xs \<and> answers u (snd (xs ! i)) \<and> (\<exists>q. ps ! i = Return [q])} \<subseteq> spent_by u ?A ps"
    by (auto simp: spent_by_def elim!: empty_handed_ReturnE)
  then have "card {i. i < length xs \<and> answers u (snd (xs ! i)) \<and> (\<exists>q. ps ! i = Return [q])} \<le>
      card (spent_by u ?A ps)"
    by (rule card_mono [rotated]) (simp add: spent_by_def)
  with m show ?thesis by (simp add: at_most_def)
qed

theorem challenge_spent_once_witness:
  "\<exists>b ps. interleave [0, 1, 0, 1, 1, 0, 0, 1] (demo_user, calls
       [(demo_env 5, OpValidateResponse ''u'' [4, 2]), (demo_env 6, OpValidateResponse ''u'' [4, 2])]) = (b, ps) \<and>
     card {i. i < 2 \<and> (\<exists>q. ps ! i = Return [q])} \<le> 1"
proof -
  let ?xs = "[(demo_env 5, OpValidateResponse ''u'' [4, 2]), (demo_env 6, OpValidateResponse ''u'' [4, 2])]"
  obtain b ps where r: "interleave [0, 1, 0, 1, 1, 0, 0, 1] (demo_user, calls ?xs) = (b, ps)"
    by (cases "interleave [0, 1, 0, 1, 1, 0, 0, 1] (demo_user, calls ?xs)")
  have "answers ''u'' (snd (?xs ! i))" if "i < 2" for i :: nat
    using that by (auto simp: less_2_cases_iff)
  then have "{i. i < length ?xs \<and> answers ''u'' (snd (?xs ! i)) \<and> (\<exists>q. ps ! i = Return [q])} =
      {i. i < 2 \<and> (\<exists>q. ps ! i = Return [q])}" by auto
  with challenge_spent_once [of ?xs "''u''", OF _ r] r show ?thesis by (simp add: demo_user_simps)
qed

end
