(* ===== verification/TrustService.thy ===== *)
theory TrustService
  imports AuthFlows AuditLog Approval Symmetric
begin

text \<open>
  \<^verbatim>\<open>go/trust/service.go\<close>: the Service that puts the Authenticator, the agent registry, the policy
  engine, the approval queue, the audit log and the stateless crypt functions behind the actions of
  the framework.  One definition per handler, over the operations of the other theories;
  \<open>handle\<close> dispatches on the name of a handler, \<open>action_table\<close> is what \<^verbatim>\<open>OnStartup\<close> registers, and
  \<open>serve\<close> runs a sequence of calls.

  The objects behind the Service are the fields of its state.  The engine holds a pointer to the
  registry of the Service and the Authenticator holds its session store: there is one registry and
  one store.  \<open>handles\<close> is the set of the pointers that are not nil, the receiver \<open>s\<close> among them.
  A result \<open>None\<close> is a panic, as in the operations of the Authenticator.  The framework's container is
  the list of what was registered on it; its option bag, the file system and the ciphers are
  arguments.

  The lemmas show how the components act together: what reaches the audit log, where sessions come
  from, which component an action touches, and what repository scopes are worth here.
\<close>

section \<open>State\<close>

datatype pointer = HReceiver | HAuthenticator | HSessionStore | HRegistry | HPolicy | HQueue | HAudit

datatype action =
    AuthRegister | AuthLogin | AuthChallengeCreate | AuthSessionValidate | AuthSessionRefresh
  | AuthSessionRevoke | AuthUserDelete | AuthUserIsRevoked
  | TrustRegister | TrustRemove | TrustEvaluate
  | TrustApprovalSubmit | TrustApprovalApprove | TrustApprovalDeny | TrustApprovalPending
  | CryptEncrypt | CryptDecrypt | CryptSha256 | CryptSha512 | CryptPasswordHash | CryptPasswordVerify

record AuthOptions =
  MediumRoot :: string
  SessionDBPath :: string
  ChallengeTTL :: int
  SessionTTL :: int

record CryptConfig =
  AuthConfig :: AuthOptions

record ('m, 'k, 'w) CryptService =
  handles :: "pointer set"
  authenticator :: "('m, 'k) auth"
  registry :: Registry
  policy :: PolicyEngine
  queue :: ApprovalQueue
  audit_log :: "'w AuditLog"
  attached :: bool
  registrations :: bool
  actions :: "(string \<times> action) list"

text \<open>What an action returns in the result's value.\<close>

datatype action_value =
    VNil | VUser User | VSession Session | VChallenge Challenge | VBool bool | VText string
  | VBytes bytes | VEval EvalResult | VRequests "ApprovalRequest list"

text \<open>
  What a call is given: the surroundings of the components, and the framework's option bag.
\<close>

record ('m, 'k, 'p, 'r, 'w, 'o) service_env =
  auth_part :: "('m, 'k, 'p) auth_env"
  audit_part :: "'w audit_env"
  now :: gotime
  pending_order :: "string list"
  chacha :: "'r chacha_lib"
  nonce_rand :: 'r
  sha_sigil :: "stdhash \<Rightarrow> bytes \<Rightarrow> bytes res"
  opts_lib :: "'o options_lib"

type_synonym ('m, 'k, 'w) svc = "('m, 'k, 'w) CryptService"

type_synonym ('m, 'k, 'w) reply = "action_value res option \<times> ('m, 'k, 'w) CryptService"

section \<open>Construction and life cycle\<close>

definition all_handles :: "pointer set" where
  "all_handles = {HReceiver, HAuthenticator, HSessionStore, HRegistry, HPolicy, HQueue, HAudit}"

definition NewService ::
  "'m \<Rightarrow> (string \<Rightarrow> 'm res) \<Rightarrow> 'k kv_lib \<Rightarrow> CryptConfig \<Rightarrow> bool \<Rightarrow> ('m, 'k, 'w) svc res" where
  "NewService local sandboxed kv config c =
     (case (if MediumRoot (AuthConfig config) \<noteq> []
            then (case sandboxed (MediumRoot (AuthConfig config)) of
                    Inl e \<Rightarrow> Inl (E ''crypt.NewService'' ''create sandboxed medium'' (Some e))
                  | Inr m \<Rightarrow> Inr m)
            else Inr local) of
        Inl e \<Rightarrow> Inl e
      | Inr root \<Rightarrow>
     (case (if SessionDBPath (AuthConfig config) \<noteq> []
            then (case NewSQLiteSessionStore kv (SessionDBPath (AuthConfig config)) of
                    Inl e \<Rightarrow> Inl (E ''crypt.NewService'' ''open sqlite session store'' (Some e))
                  | Inr db \<Rightarrow> Inr (SQLite db))
            else Inr (Memory NewMemorySessionStore)) of
        Inl e \<Rightarrow> Inl e
      | Inr sessionStore \<Rightarrow>
          let opts = [WithSessionStore (Some sessionStore)] @
                (if ChallengeTTL (AuthConfig config) > 0
                 then [WithChallengeTTL (ChallengeTTL (AuthConfig config))] else []) @
                (if SessionTTL (AuthConfig config) > 0
                 then [WithSessionTTL (SessionTTL (AuthConfig config))] else [])
          in Inr \<lparr>handles = all_handles, authenticator = New root opts, registry = NewRegistry,
                   policy = NewPolicyEngine, queue = NewApprovalQueue, audit_log = NewAuditLog None,
                   attached = c, registrations = False, actions = []\<rparr>))"

definition RegisterService ::
  "'m \<Rightarrow> (string \<Rightarrow> 'm res) \<Rightarrow> 'k kv_lib \<Rightarrow> bool \<Rightarrow> ('m, 'k, 'w) svc res" where
  "RegisterService local sandboxed kv c =
     NewService local sandboxed kv
       \<lparr>AuthConfig = \<lparr>MediumRoot = [], SessionDBPath = [], ChallengeTTL = 0, SessionTTL = 0\<rparr>\<rparr> c"

definition action_table :: "(string \<times> action) list" where
  "action_table =
    [(''auth.register'', AuthRegister), (''auth.login'', AuthLogin),
     (''auth.challenge.create'', AuthChallengeCreate),
     (''auth.session.validate'', AuthSessionValidate),
     (''auth.session.refresh'', AuthSessionRefresh),
     (''auth.session.revoke'', AuthSessionRevoke), (''auth.user.delete'', AuthUserDelete),
     (''auth.user.is_revoked'', AuthUserIsRevoked), (''trust.register'', TrustRegister),
     (''trust.remove'', TrustRemove), (''trust.evaluate'', TrustEvaluate),
     (''trust.approval.submit'', TrustApprovalSubmit),
     (''trust.approval.approve'', TrustApprovalApprove),
     (''trust.approval.deny'', TrustApprovalDeny),
     (''trust.approval.pending'', TrustApprovalPending), (''crypt.encrypt'', CryptEncrypt),
     (''crypt.decrypt'', CryptDecrypt), (''crypt.hash.sha256'', CryptSha256),
     (''crypt.hash.sha512'', CryptSha512), (''crypt.password.hash'', CryptPasswordHash),
     (''crypt.password.verify'', CryptPasswordVerify)]"

definition OnStartup :: "('m, 'k, 'w) svc \<Rightarrow> unit res \<times> ('m, 'k, 'w) svc" where
  "OnStartup s =
     (if HReceiver \<notin> handles s \<or> registrations s then (Inr (), s)
      else if \<not> attached s then (Inr (), s\<lparr>registrations := True\<rparr>)
      else (Inr (), s\<lparr>registrations := True, actions := actions s @ action_table\<rparr>))"

definition OnShutdown :: "'k kv_lib \<Rightarrow> ('m, 'k, 'w) svc \<Rightarrow> unit res" where
  "OnShutdown kv s =
     (if HReceiver \<notin> handles s \<or> HSessionStore \<notin> handles s then Inr ()
      else (case store (authenticator s) of
              Memory _ \<Rightarrow> Inr ()
            | SQLite db \<Rightarrow>
                (case sql_Close kv db of
                   Some e \<Rightarrow> Inl (E ''crypt.OnShutdown'' ''close session store'' (Some e))
                 | None \<Rightarrow> Inr ())))"

section \<open>Handlers\<close>

text \<open>The test on the receiver and on the handle, at the head of a handler.\<close>

definition guarded ::
  "pointer \<Rightarrow> string \<Rightarrow> ('m, 'k, 'w) svc \<Rightarrow> ('m, 'k, 'w) reply \<Rightarrow> ('m, 'k, 'w) reply" where
  "guarded h op s r =
     (if HReceiver \<notin> handles s \<or> h \<notin> handles s
      then (Some (Inl (E op ''service not initialised'' None)), s) else r)"

text \<open>Returning the error of an operation, or its value; with the Authenticator it leaves.\<close>

definition of_err :: "err option \<Rightarrow> action_value res" where
  "of_err e = (case e of Some e \<Rightarrow> Inl e | None \<Rightarrow> Inr VNil)"

definition auth_reply ::
  "action_value res option \<times> ('m, 'k) auth \<Rightarrow> ('m, 'k, 'w) svc \<Rightarrow> ('m, 'k, 'w) reply" where
  "auth_reply x s = (fst x, s\<lparr>authenticator := snd x\<rparr>)"

definition getBytes :: "'o options_lib \<Rightarrow> 'o \<Rightarrow> string \<Rightarrow> bytes" where
  "getBytes lib opts key =
     (case Get_opt lib opts key of
        None \<Rightarrow> []
      | Some (AnyBytes b) \<Rightarrow> b
      | Some AnyOther \<Rightarrow> [])"

definition handleAuthRegister ::
  "('m, 'k, 'p, 'r, 'w, 'o) service_env \<Rightarrow> 'o \<Rightarrow> ('m, 'k, 'w) svc \<Rightarrow> ('m, 'k, 'w) reply" where
  "handleAuthRegister env opts s =
     guarded HAuthenticator ''auth.register'' s
       (case Register (auth_part env) (String_opt (opts_lib env) opts ''username'')
               (String_opt (opts_lib env) opts ''password'') (authenticator s) of
          (r, a) \<Rightarrow> auth_reply (map_option (map_sum id VUser) r, a) s)"

definition handleAuthLogin ::
  "('m, 'k, 'p, 'r, 'w, 'o) service_env \<Rightarrow> 'o \<Rightarrow> ('m, 'k, 'w) svc \<Rightarrow> ('m, 'k, 'w) reply" where
  "handleAuthLogin env opts s =
     guarded HAuthenticator ''auth.login'' s
       (case Login (auth_part env) (String_opt (opts_lib env) opts ''user_id'')
               (String_opt (opts_lib env) opts ''password'') (authenticator s) of
          (r, a) \<Rightarrow> auth_reply (map_option (map_sum id VSession) r, a) s)"

definition handleAuthChallengeCreate ::
  "('m, 'k, 'p, 'r, 'w, 'o) service_env \<Rightarrow> 'o \<Rightarrow> ('m, 'k, 'w) svc \<Rightarrow> ('m, 'k, 'w) reply" where
  "handleAuthChallengeCreate env opts s =
     guarded HAuthenticator ''auth.challenge.create'' s
       (case CreateChallenge (auth_part env) (String_opt (opts_lib env) opts ''user_id'') (authenticator s) of
          (r, a) \<Rightarrow> auth_reply (Some (map_sum id VChallenge r), a) s)"

definition handleAuthSessionValidate ::
  "('m, 'k, 'p, 'r, 'w, 'o) service_env \<Rightarrow> 'o \<Rightarrow> ('m, 'k, 'w) svc \<Rightarrow> ('m, 'k, 'w) reply" where
  "handleAuthSessionValidate env opts s =
     guarded HAuthenticator ''auth.session.validate'' s
       (case ValidateSession (auth_part env) (String_opt (opts_lib env) opts ''token'') (authenticator s) of
          (r, a) \<Rightarrow> auth_reply (Some (map_sum id VSession r), a) s)"

definition handleAuthSessionRefresh ::
  "('m, 'k, 'p, 'r, 'w, 'o) service_env \<Rightarrow> 'o \<Rightarrow> ('m, 'k, 'w) svc \<Rightarrow> ('m, 'k, 'w) reply" where
  "handleAuthSessionRefresh env opts s =
     guarded HAuthenticator ''auth.session.refresh'' s
       (case RefreshSession (auth_part env) (String_opt (opts_lib env) opts ''token'') (authenticator s) of
          (r, a) \<Rightarrow> auth_reply (Some (map_sum id VSession r), a) s)"

definition handleAuthSessionRevoke ::
  "('m, 'k, 'p, 'r, 'w, 'o) service_env \<Rightarrow> 'o \<Rightarrow> ('m, 'k, 'w) svc \<Rightarrow> ('m, 'k, 'w) reply" where
  "handleAuthSessionRevoke env opts s =
     guarded HAuthenticator ''auth.session.revoke'' s
       (case RevokeSession (auth_part env) (String_opt (opts_lib env) opts ''token'') (authenticator s) of
          (e, a) \<Rightarrow> auth_reply (Some (of_err e), a) s)"

definition handleAuthUserDelete ::
  "('m, 'k, 'p, 'r, 'w, 'o) service_env \<Rightarrow> 'o \<Rightarrow> ('m, 'k, 'w) svc \<Rightarrow> ('m, 'k, 'w) reply" where
  "handleAuthUserDelete env opts s =
     guarded HAuthenticator ''auth.user.delete'' s
       (case DeleteUser (auth_part env) (String_opt (opts_lib env) opts ''user_id'') (authenticator s) of
          (e, a) \<Rightarrow> auth_reply (Some (of_err e), a) s)"

definition handleAuthUserIsRevoked ::
  "('m, 'k, 'p, 'r, 'w, 'o) service_env \<Rightarrow> 'o \<Rightarrow> ('m, 'k, 'w) svc \<Rightarrow> ('m, 'k, 'w) reply" where
  "handleAuthUserIsRevoked env opts s =
     guarded HAuthenticator ''auth.user.is_revoked'' s
       (Some (Inr (VBool (IsRevoked (auth_part env) (String_opt (opts_lib env) opts ''user_id'') (authenticator s)))), s)"

definition handleTrustRegister ::
  "('m, 'k, 'p, 'r, 'w, 'o) service_env \<Rightarrow> 'o \<Rightarrow> ('m, 'k, 'w) svc \<Rightarrow> ('m, 'k, 'w) reply" where
  "handleTrustRegister env opts s =
     guarded HRegistry ''trust.register'' s
       (let agent = \<lparr>Agent_Name = String_opt (opts_lib env) opts ''name'',
                      Agent_Tier = Int_opt (opts_lib env) opts ''tier'', Agent_ScopedRepos = [],
                      Agent_RateLimit = 0, Agent_TokenExpiresAt = 0, Agent_CreatedAt = 0\<rparr>
        in case Registry_Register (now env) agent (registry s) of
             Inl e \<Rightarrow> (Some (Inl e), s)
           | Inr reg \<Rightarrow> (Some (Inr VNil), s\<lparr>registry := reg\<rparr>))"

definition handleTrustRemove ::
  "('m, 'k, 'p, 'r, 'w, 'o) service_env \<Rightarrow> 'o \<Rightarrow> ('m, 'k, 'w) svc \<Rightarrow> ('m, 'k, 'w) reply" where
  "handleTrustRemove env opts s =
     guarded HRegistry ''trust.remove'' s
       (case Registry_Remove (String_opt (opts_lib env) opts ''name'') (registry s) of
          (removed, reg) \<Rightarrow> (Some (Inr (VBool removed)), s\<lparr>registry := reg\<rparr>))"

definition handleTrustEvaluate ::
  "('m, 'k, 'p, 'r, 'w, 'o) service_env \<Rightarrow> 'o \<Rightarrow> ('m, 'k, 'w) svc \<Rightarrow> ('m, 'k, 'w) reply" where
  "handleTrustEvaluate env opts s =
     guarded HPolicy ''trust.evaluate'' s
       (let result = Evaluate (registry s) (policy s) (String_opt (opts_lib env) opts ''agent'')
              (String_opt (opts_lib env) opts ''capability'') (String_opt (opts_lib env) opts ''repo'')
        in if HAudit \<in> handles s
           then (case AuditLog_Record (audit_part env) (now env) result
                        (String_opt (opts_lib env) opts ''repo'') (audit_log s) of
                   (_, l) \<Rightarrow> (Some (Inr (VEval result)), s\<lparr>audit_log := l\<rparr>))
           else (Some (Inr (VEval result)), s))"

definition handleTrustApprovalSubmit ::
  "('m, 'k, 'p, 'r, 'w, 'o) service_env \<Rightarrow> 'o \<Rightarrow> ('m, 'k, 'w) svc \<Rightarrow> ('m, 'k, 'w) reply" where
  "handleTrustApprovalSubmit env opts s =
     guarded HQueue ''trust.approval.submit'' s
       (case Queue_Submit (now env) (String_opt (opts_lib env) opts ''agent'')
               (String_opt (opts_lib env) opts ''capability'') (String_opt (opts_lib env) opts ''repo'') (queue s) of
          Inl e \<Rightarrow> (Some (Inl e), s)
        | Inr (rid, q) \<Rightarrow> (Some (Inr (VText rid)), s\<lparr>queue := q\<rparr>))"

definition handleTrustApprovalApprove ::
  "('m, 'k, 'p, 'r, 'w, 'o) service_env \<Rightarrow> 'o \<Rightarrow> ('m, 'k, 'w) svc \<Rightarrow> ('m, 'k, 'w) reply" where
  "handleTrustApprovalApprove env opts s =
     guarded HQueue ''trust.approval.approve'' s
       (case Queue_Approve (now env) (String_opt (opts_lib env) opts ''id'')
               (String_opt (opts_lib env) opts ''reviewed_by'')
               (String_opt (opts_lib env) opts ''reason'') (queue s) of
          Inl e \<Rightarrow> (Some (Inl e), s)
        | Inr q \<Rightarrow> (Some (Inr VNil), s\<lparr>queue := q\<rparr>))"

definition handleTrustApprovalDeny ::
  "('m, 'k, 'p, 'r, 'w, 'o) service_env \<Rightarrow> 'o \<Rightarrow> ('m, 'k, 'w) svc \<Rightarrow> ('m, 'k, 'w) reply" where
  "handleTrustApprovalDeny env opts s =
     guarded HQueue ''trust.approval.deny'' s
       (case Queue_Deny (now env) (String_opt (opts_lib env) opts ''id'')
               (String_opt (opts_lib env) opts ''reviewed_by'')
               (String_opt (opts_lib env) opts ''reason'') (queue s) of
          Inl e \<Rightarrow> (Some (Inl e), s)
        | Inr q \<Rightarrow> (Some (Inr VNil), s\<lparr>queue := q\<rparr>))"

definition handleTrustApprovalPending ::
  "('m, 'k, 'p, 'r, 'w, 'o) service_env \<Rightarrow> 'o \<Rightarrow> ('m, 'k, 'w) svc \<Rightarrow> ('m, 'k, 'w) reply" where
  "handleTrustApprovalPending env opts s =
     guarded HQueue ''trust.approval.pending'' s
       (Some (Inr (VRequests (Queue_Pending (pending_order env) (queue s)))), s)"

definition handleCryptEncrypt ::
  "('m, 'k, 'p, 'r, 'w, 'o) service_env \<Rightarrow> 'o \<Rightarrow> ('m, 'k, 'w) svc \<Rightarrow> ('m, 'k, 'w) reply" where
  "handleCryptEncrypt env opts s =
     (case Encrypt (argon (auth_part env)) (chacha env) (rnd (auth_part env)) (nonce_rand env)
             (getBytes (opts_lib env) opts ''plaintext'') (getBytes (opts_lib env) opts ''passphrase'') of
        None \<Rightarrow> (None, s)
      | Some (Inl e) \<Rightarrow> (Some (Inl (E ''crypt.encrypt'' ''encrypt'' (Some e))), s)
      | Some (Inr ciphertext) \<Rightarrow> (Some (Inr (VBytes ciphertext)), s))"

definition handleCryptDecrypt ::
  "('m, 'k, 'p, 'r, 'w, 'o) service_env \<Rightarrow> 'o \<Rightarrow> ('m, 'k, 'w) svc \<Rightarrow> ('m, 'k, 'w) reply" where
  "handleCryptDecrypt env opts s =
     (case Decrypt (argon (auth_part env)) (chacha env)
             (getBytes (opts_lib env) opts ''ciphertext'') (getBytes (opts_lib env) opts ''passphrase'') of
        None \<Rightarrow> (None, s)
      | Some (Inl e) \<Rightarrow> (Some (Inl (E ''crypt.decrypt'' ''decrypt'' (Some e))), s)
      | Some (Inr plaintext) \<Rightarrow> (Some (Inr (VBytes plaintext)), s))"

definition handleCryptSha256 ::
  "('m, 'k, 'p, 'r, 'w, 'o) service_env \<Rightarrow> 'o \<Rightarrow> ('m, 'k, 'w) svc \<Rightarrow> ('m, 'k, 'w) reply" where
  "handleCryptSha256 env opts s =
     (Some (Inr (VText (SHA256Sum (sha_sigil env) (getBytes (opts_lib env) opts ''data'')))), s)"

definition handleCryptSha512 ::
  "('m, 'k, 'p, 'r, 'w, 'o) service_env \<Rightarrow> 'o \<Rightarrow> ('m, 'k, 'w) svc \<Rightarrow> ('m, 'k, 'w) reply" where
  "handleCryptSha512 env opts s =
     (Some (Inr (VText (SHA512Sum (sha_sigil env) (getBytes (opts_lib env) opts ''data'')))), s)"

definition handleCryptPasswordHash ::
  "('m, 'k, 'p, 'r, 'w, 'o) service_env \<Rightarrow> 'o \<Rightarrow> ('m, 'k, 'w) svc \<Rightarrow> ('m, 'k, 'w) reply" where
  "handleCryptPasswordHash env opts s =
     (case HashPassword (argon (auth_part env)) (rnd (auth_part env))
             (String_opt (opts_lib env) opts ''password'') of
        None \<Rightarrow> (None, s)
      | Some (Inl e) \<Rightarrow> (Some (Inl (E ''crypt.password.hash'' ''hash password'' (Some e))), s)
      | Some (Inr hashed) \<Rightarrow> (Some (Inr (VText hashed)), s))"

definition handleCryptPasswordVerify ::
  "('m, 'k, 'p, 'r, 'w, 'o) service_env \<Rightarrow> 'o \<Rightarrow> ('m, 'k, 'w) svc \<Rightarrow> ('m, 'k, 'w) reply" where
  "handleCryptPasswordVerify env opts s =
     (case VerifyPassword (argon (auth_part env)) (String_opt (opts_lib env) opts ''password'')
             (String_opt (opts_lib env) opts ''hash'') of
        None \<Rightarrow> (None, s)
      | Some (Inl e) \<Rightarrow> (Some (Inl (E ''crypt.password.verify'' ''verify password'' (Some e))), s)
      | Some (Inr valid) \<Rightarrow> (Some (Inr (VBool valid)), s))"

text \<open>The handler of an action.\<close>

fun handle ::
  "('m, 'k, 'p, 'r, 'w, 'o) service_env \<Rightarrow> action \<Rightarrow> 'o \<Rightarrow> ('m, 'k, 'w) svc \<Rightarrow> ('m, 'k, 'w) reply" where
  "handle env AuthRegister opts s = handleAuthRegister env opts s"
| "handle env AuthLogin opts s = handleAuthLogin env opts s"
| "handle env AuthChallengeCreate opts s = handleAuthChallengeCreate env opts s"
| "handle env AuthSessionValidate opts s = handleAuthSessionValidate env opts s"
| "handle env AuthSessionRefresh opts s = handleAuthSessionRefresh env opts s"
| "handle env AuthSessionRevoke opts s = handleAuthSessionRevoke env opts s"
| "handle env AuthUserDelete opts s = handleAuthUserDelete env opts s"
| "handle env AuthUserIsRevoked opts s = handleAuthUserIsRevoked env opts s"
| "handle env TrustRegister opts s = handleTrustRegister env opts s"
| "handle env TrustRemove opts s = handleTrustRemove env opts s"
| "handle env TrustEvaluate opts s = handleTrustEvaluate env opts s"
| "handle env TrustApprovalSubmit opts s = handleTrustApprovalSubmit env opts s"
| "handle env TrustApprovalApprove opts s = handleTrustApprovalApprove env opts s"
| "handle env TrustApprovalDeny opts s = handleTrustApprovalDeny env opts s"
| "handle env TrustApprovalPending opts s = handleTrustApprovalPending env opts s"
| "handle env CryptEncrypt opts s = handleCryptEncrypt env opts s"
| "handle env CryptDecrypt opts s = handleCryptDecrypt env opts s"
| "handle env CryptSha256 opts s = handleCryptSha256 env opts s"
| "handle env CryptSha512 opts s = handleCryptSha512 env opts s"
| "handle env CryptPasswordHash opts s = handleCryptPasswordHash env opts s"
| "handle env CryptPasswordVerify opts s = handleCryptPasswordVerify env opts s"

text \<open>
  A call by name, and a sequence of calls, each with its own surroundings.  \<open>None\<close> is a name nothing
  is registered under; after a panic the framework is taken to go on with the next call.
\<close>

definition call ::
  "('m, 'k, 'p, 'r, 'w, 'o) service_env \<Rightarrow> string \<Rightarrow> 'o \<Rightarrow> ('m, 'k, 'w) svc \<Rightarrow>
     ('m, 'k, 'w) reply option" where
  "call env name opts s = map_option (\<lambda>h. handle env h opts s) (map_of (actions s) name)"

fun serve ::
  "(('m, 'k, 'p, 'r, 'w, 'o) service_env \<times> action \<times> 'o) list \<Rightarrow> ('m, 'k, 'w) svc \<Rightarrow>
     action_value res option list \<times> ('m, 'k, 'w) svc" where
  "serve [] s = ([], s)"
| "serve ((env, act, opts) # xs) s =
     (case handle env act opts s of (r, s1) \<Rightarrow> case serve xs s1 of (rs, s2) \<Rightarrow> (r # rs, s2))"

lemmas auth_handler_defs = handleAuthRegister_def handleAuthLogin_def handleAuthChallengeCreate_def
  handleAuthSessionValidate_def handleAuthSessionRefresh_def handleAuthSessionRevoke_def
  handleAuthUserDelete_def handleAuthUserIsRevoked_def

lemmas trust_handler_defs = handleTrustRegister_def handleTrustRemove_def handleTrustEvaluate_def
  handleTrustApprovalSubmit_def handleTrustApprovalApprove_def handleTrustApprovalDeny_def
  handleTrustApprovalPending_def

lemmas crypt_handler_defs = handleCryptEncrypt_def handleCryptDecrypt_def handleCryptSha256_def
  handleCryptSha512_def handleCryptPasswordHash_def handleCryptPasswordVerify_def

lemmas handler_defs = auth_handler_defs trust_handler_defs crypt_handler_defs

section \<open>Which component an action touches\<close>

lemma fst_auth_reply [simp]: "fst (auth_reply x s) = fst x"
  and snd_auth_reply [simp]: "snd (auth_reply x s) = s\<lparr>authenticator := snd x\<rparr>"
  by (simp_all add: auth_reply_def)

lemma guarded_simps:
  "HReceiver \<in> handles s \<Longrightarrow> h \<in> handles s \<Longrightarrow> guarded h op s r = r"
  "\<not> (HReceiver \<in> handles s \<and> h \<in> handles s) \<Longrightarrow>
     guarded h op s r = (Some (Inl (E op ''service not initialised'' None)), s)"
  by (auto simp: guarded_def)

text \<open>A relation to the state at the start that every reply of a handler satisfies.\<close>

lemma guarded_rel:
  "R s s \<Longrightarrow> R s (snd r) \<Longrightarrow> R s (snd (guarded h op s r))"
  by (simp add: guarded_def)

definition is_auth :: "action \<Rightarrow> bool" where
  "is_auth act \<longleftrightarrow> act \<in> {AuthRegister, AuthLogin, AuthChallengeCreate, AuthSessionValidate,
     AuthSessionRefresh, AuthSessionRevoke, AuthUserDelete}"

definition only_own :: "action \<Rightarrow> ('m, 'k, 'w) svc \<Rightarrow> ('m, 'k, 'w) svc \<Rightarrow> bool" where
  "only_own act s s' \<longleftrightarrow> handles s' = handles s \<and> actions s' = actions s \<and> policy s' = policy s \<and>
     (is_auth act \<or> authenticator s' = authenticator s) \<and>
     (act \<in> {TrustRegister, TrustRemove} \<or> registry s' = registry s) \<and>
     (act \<in> {TrustApprovalSubmit, TrustApprovalApprove, TrustApprovalDeny} \<or> queue s' = queue s) \<and>
     (act = TrustEvaluate \<or> audit_log s' = audit_log s)"

lemma handle_only_own: "only_own act s (snd (handle env act opts s))"
  by (cases act)
    (simp_all add: handler_defs only_own_def is_auth_def guarded_def Let_def
      split: prod.split sum.split option.split)

lemma handle_same [simp]:
  "handles (snd (handle env act opts s)) = handles s"
  "policy (snd (handle env act opts s)) = policy s"
  using handle_only_own [of act s env opts] by (simp_all add: only_own_def)

lemma fst_serve_Cons:
  "fst (serve ((env, act, opts) # xs) s) =
     fst (handle env act opts s) # fst (serve xs (snd (handle env act opts s)))"
  and snd_serve_Cons:
  "snd (serve ((env, act, opts) # xs) s) = snd (serve xs (snd (handle env act opts s)))"
  by (simp_all add: split_def)

lemmas serve_Cons = fst_serve_Cons snd_serve_Cons

declare serve.simps(2) [simp del]
declare serve_Cons [simp]

section \<open>The audit log\<close>

text \<open>The decision a call returned, and the entry it asks for.\<close>

fun decided :: "action_value res option \<Rightarrow> EvalResult list" where
  "decided (Some (Inr (VEval e))) = [e]"
| "decided _ = []"

definition audit_of ::
  "('m, 'k, 'p, 'r, 'w, 'o) service_env \<times> action \<times> 'o \<Rightarrow> action_value res option \<Rightarrow> AuditEntry list" where
  "audit_of x r = (case x of (env, act, opts) \<Rightarrow>
     map (\<lambda>e. entry_of (now env) e (String_opt (opts_lib env) opts ''repo'')) (decided r))"

lemma decided_other: "(\<And>e. v \<noteq> VEval e) \<Longrightarrow> decided (Some (Inr v)) = []"
  by (cases v) auto

lemma decided_map_sum [simp]:
  "(\<And>v e. f v \<noteq> VEval e) \<Longrightarrow> decided (Some (map_sum id f x)) = []"
  by (cases x) (simp_all add: decided_other)

lemma decided_map_option [simp]:
  "(\<And>v e. f v \<noteq> VEval e) \<Longrightarrow> decided (map_option (map_sum id f) r) = []"
  by (cases r) simp_all

lemma decided_of_err [simp]: "decided (Some (of_err y)) = []"
  by (simp add: of_err_def split: option.split)

lemma handle_audit:
  assumes "HAudit \<in> handles s"
  shows "entries (audit_log (snd (handle env act opts s))) =
    entries (audit_log s) @ audit_of (env, act, opts) (fst (handle env act opts s))"
  using assms
  by (cases act)
    (simp_all add: handler_defs guarded_def audit_of_def Let_def split_def Record_entries
      split: sum.split option.split)

text \<open>
  C7.  The audit log is complete and exact: over any sequence of calls it grows by one entry for every
  decision that was returned, in their order, with the moment and the repository of the call, and by
  nothing else.  The log of a Service has no writer, which loses no entry.
\<close>

theorem every_decision_is_audited:
  assumes "HAudit \<in> handles s"
  shows "entries (audit_log (snd (serve xs s))) =
    entries (audit_log s) @ concat (map2 audit_of xs (fst (serve xs s)))"
  using assms
proof (induction xs arbitrary: s)
  case (Cons x xs)
  obtain env act opts where x: "x = (env, act, opts)" by (cases x)
  with Cons.IH [of "snd (handle env act opts s)"] Cons.prems handle_audit [OF Cons.prems]
  show ?case by simp
qed simp

section \<open>Where sessions come from\<close>

text \<open>The Authenticator's operation behind a call, and the grant a login returned.\<close>

definition auth_calls ::
  "('m, 'k, 'w) svc \<Rightarrow> ('m, 'k, 'p, 'r, 'w, 'o) service_env \<times> action \<times> 'o \<Rightarrow>
     (('m, 'k, 'p) auth_env \<times> auth_op) list" where
  "auth_calls s x = (case x of (env, act, opts) \<Rightarrow>
     let str = String_opt (opts_lib env) opts in
     if \<not> (HReceiver \<in> handles s \<and> HAuthenticator \<in> handles s) then []
     else map (Pair (auth_part env))
       (case act of
          AuthRegister \<Rightarrow> [OpRegister (str ''username'') (str ''password'')]
        | AuthLogin \<Rightarrow> [OpLogin (str ''user_id'') (str ''password'')]
        | AuthChallengeCreate \<Rightarrow> [OpCreateChallenge (str ''user_id'')]
        | AuthSessionValidate \<Rightarrow> [OpValidateSession (str ''token'')]
        | AuthSessionRefresh \<Rightarrow> [OpRefreshSession (str ''token'')]
        | AuthSessionRevoke \<Rightarrow> [OpRevokeSession (str ''token'')]
        | AuthUserDelete \<Rightarrow> [OpDeleteUser (str ''user_id'')]
        | _ \<Rightarrow> []))"

definition login_of ::
  "('m, 'k, 'p, 'r, 'w, 'o) service_env \<times> action \<times> 'o \<Rightarrow> action_value res option \<Rightarrow> (string \<times> string) list" where
  "login_of x r = (case (x, r) of
     ((env, AuthLogin, opts), Some (Inr (VSession v))) \<Rightarrow>
        [(String_opt (opts_lib env) opts ''user_id'', Token v)]
   | _ \<Rightarrow> [])"

lemma login_of_other: "act \<noteq> AuthLogin \<Longrightarrow> login_of (env, act, opts) r = []"
  by (cases act) (simp_all add: login_of_def)

lemma login_of_reply:
  "login_of (env, AuthLogin, opts) (map_option (map_sum id VSession) r) =
     (case r of Some (Inr v) \<Rightarrow> [(String_opt (opts_lib env) opts ''user_id'', Token v)] | _ \<Rightarrow> [])"
  "login_of (env, AuthLogin, opts) (Some (Inl e)) = []"
  by (simp_all add: login_of_def split: option.split sum.split)

lemma handle_other_auth:
  assumes "\<not> is_auth act"
  shows "authenticator (snd (handle env act opts s)) = authenticator s"
    and "auth_calls s (env, act, opts) = []" and "login_of (env, act, opts) r = []"
proof -
  show "authenticator (snd (handle env act opts s)) = authenticator s"
    using handle_only_own [of act s env opts] assms by (simp add: only_own_def)
  show "auth_calls s (env, act, opts) = []"
    using assms by (cases act) (simp_all add: auth_calls_def is_auth_def Let_def)
  show "login_of (env, act, opts) r = []"
    using assms by (auto intro: login_of_other simp: is_auth_def)
qed

text \<open>Each call runs the Authenticator's operation, if its handler does, and grants what it grants.\<close>

lemma handle_runs_auth:
  "run_auth (auth_calls s (env, act, opts)) (authenticator s) =
     (login_of (env, act, opts) (fst (handle env act opts s)), authenticator (snd (handle env act opts s)))"
proof (cases "is_auth act")
  case False
  then show ?thesis by (simp add: handle_other_auth)
next
  case True
  show ?thesis
  proof (cases "HReceiver \<in> handles s \<and> HAuthenticator \<in> handles s")
    case True
    with \<open>is_auth act\<close> show ?thesis
      by (cases act)
        (simp_all add: is_auth_def auth_calls_def auth_handler_defs guarded_simps login_of_other
          login_of_reply split_def Let_def prod_eq_iff split: option.split sum.split)
  next
    case False
    with \<open>is_auth act\<close> show ?thesis
      by (cases act)
        (simp_all add: is_auth_def auth_calls_def auth_handler_defs guarded_simps login_of_other
          login_of_reply Let_def)
  qed
qed

lemma run_auth_append:
  "run_auth (xs @ ys) a = (case run_auth xs a of (g, b) \<Rightarrow> case run_auth ys b of (h, c) \<Rightarrow> (g @ h, c))"
proof (induction xs arbitrary: a)
  case (Cons x xs)
  then show ?case by (cases x) (simp add: split_def)
qed simp

lemma auth_calls_handle: "auth_calls (snd (handle env act opts s)) = auth_calls s"
  by (rule ext) (simp add: auth_calls_def)

lemma serve_runs_auth:
  "run_auth (concat (map (auth_calls s) xs)) (authenticator s) =
     (concat (map2 login_of xs (fst (serve xs s))), authenticator (snd (serve xs s)))"
proof (induction xs arbitrary: s)
  case (Cons x xs)
  obtain env act opts where x: "x = (env, act, opts)" by (cases x)
  let ?s = "snd (handle env act opts s)"
  have "run_auth (concat (map (auth_calls s) xs)) (authenticator ?s) =
      (concat (map2 login_of xs (fst (serve xs ?s))), authenticator (snd (serve xs ?s)))"
    using Cons.IH [of ?s] by (simp only: auth_calls_handle)
  then show ?case
    unfolding x list.map concat.simps run_auth_append handle_runs_auth prod.case
    by (simp only: prod.case serve_Cons zip_Cons_Cons list.map concat.simps)
qed simp

text \<open>
  C8.  Only a password login makes a session: whatever calls are made on a Service whose store is empty,
  every session the store then holds was returned, under its token, by a successful
  \<^verbatim>\<open>auth.login\<close> of its user.  No action answers a challenge, so the challenges of
  \<^verbatim>\<open>auth.challenge.create\<close> give none.
\<close>

theorem service_sessions_come_from_logins:
  assumes "\<forall>(env, act, opts) \<in> set xs. same_services svc (auth_part env)"
    and "sessions_ok svc (authenticator s)" and "\<And>x. storable svc (authenticator s) x"
    and "session_at svc (authenticator s) = Map.empty"
    and "session_at svc (authenticator (snd (serve xs s))) t = Some v"
  shows "(UserID v, t) \<in> set (concat (map2 login_of xs (fst (serve xs s)))) \<and> Token v = t"
proof -
  let ?ops = "concat (map (auth_calls s) xs)"
  have "\<forall>(env, x) \<in> set ?ops. same_services svc env"
    using assms(1) by (auto simp: auth_calls_def Let_def split: if_splits)
  from run_grants [OF this assms(2,3)]
  have "grants svc (authenticator s) (concat (map2 login_of xs (fst (serve xs s))))
      (authenticator (snd (serve xs s)))"
    by (simp add: serve_runs_auth)
  with assms(4,5) store.token_key [of "sess svc"] show ?thesis
    by (auto simp: grants_def session_defs)
qed

section \<open>Repository scopes\<close>

text \<open>
  \<^verbatim>\<open>trust.register\<close> takes a name and a tier.  An agent registered through it has no scopes, and a
  repository then does not matter to any decision.
\<close>

definition unscoped :: "Registry \<Rightarrow> bool" where
  "unscoped reg \<longleftrightarrow> (\<forall>name agent. agents reg name = Some agent \<longrightarrow> Agent_ScopedRepos agent = [])"

lemma Registry_Register_unscoped:
  "Registry_Register t agent reg = Inr reg' \<Longrightarrow> Agent_ScopedRepos agent = [] \<Longrightarrow> unscoped reg \<Longrightarrow>
     unscoped reg'"
  by (auto simp: Registry_Register_def Let_def unscoped_def split: if_splits)

lemma new_agent_unscoped:
  "Registry_Register t \<lparr>Agent_Name = n, Agent_Tier = k, Agent_ScopedRepos = [], Agent_RateLimit = 0,
       Agent_TokenExpiresAt = 0, Agent_CreatedAt = 0\<rparr> reg = Inr reg' \<Longrightarrow>
     unscoped reg \<Longrightarrow> unscoped reg'"
  by (erule Registry_Register_unscoped) simp

lemma Registry_Remove_unscoped: "unscoped reg \<Longrightarrow> unscoped (snd (Registry_Remove name reg))"
  by (auto simp: Registry_Remove_def unscoped_def split: option.splits)

lemma handle_unscoped:
  assumes "unscoped (registry s)"
  shows "unscoped (registry (snd (handle env act opts s)))"
proof (cases "act \<in> {TrustRegister, TrustRemove}")
  case True
  with assms show ?thesis
    by (auto simp: handleTrustRegister_def handleTrustRemove_def guarded_def Let_def split_def
      Registry_Remove_unscoped split: sum.split intro: new_agent_unscoped)
next
  case False
  then show ?thesis using handle_only_own [of act s env opts] assms by (simp add: only_own_def)
qed

lemma serve_unscoped: "unscoped (registry s) \<Longrightarrow> unscoped (registry (snd (serve xs s)))"
proof (induction xs arbitrary: s)
  case (Cons x xs)
  then show ?case by (cases x) (simp add: handle_unscoped)
qed simp

lemma serve_handles [simp]: "handles (snd (serve xs s)) = handles s"
proof (induction xs arbitrary: s)
  case (Cons x xs)
  then show ?case by (cases x) simp
qed simp

lemma unscoped_Evaluate:
  assumes "unscoped reg"
  shows "Evaluate reg pe name cap repo = Evaluate reg pe name cap repo'"
proof (cases "agents reg name")
  case (Some agent)
  with assms have "Agent_ScopedRepos agent = []" by (simp add: unscoped_def)
  with Some show ?thesis by (simp add: Evaluate_def Let_def Registry_Get_def split: option.split)
qed (simp add: Evaluate_def Registry_Get_def)

lemma evaluate_answer:
  "handles s = all_handles \<Longrightarrow> fst (handle env TrustEvaluate opts s) =
     Some (Inr (VEval (Evaluate (registry s) (policy s) (String_opt (opts_lib env) opts ''agent'')
       (String_opt (opts_lib env) opts ''capability'') (String_opt (opts_lib env) opts ''repo''))))"
  by (simp add: handleTrustEvaluate_def guarded_def all_handles_def Let_def split_def)

lemma NewService_fields:
  assumes "NewService local sandboxed kv config c = Inr s"
  shows "handles s = all_handles" "registry s = NewRegistry" "policy s = NewPolicyEngine"
    "queue s = NewApprovalQueue" "audit_log s = NewAuditLog None" "actions s = []"
    "attached s = c" "\<not> registrations s"
  using assms by (auto simp: NewService_def Let_def split: sum.splits if_splits)

text \<open>
  C28.  Through its actions a Service knows no repository scopes: whatever calls were made since its
  construction, \<^verbatim>\<open>trust.evaluate\<close> answers alike for every repository, the empty name included, so a
  verified agent that may push may push everywhere; and the entry it adds to the audit log is the same
  up to the name of the repository it was called with.
\<close>

theorem service_ignores_repositories:
  assumes "NewService local sandboxed kv config c = Inr s0"
    and "s = snd (serve xs s0)"
    and "String_opt (opts_lib env) opts ''agent'' = String_opt (opts_lib env) opts' ''agent''"
    and "String_opt (opts_lib env) opts ''capability'' = String_opt (opts_lib env) opts' ''capability''"
  shows "fst (handle env TrustEvaluate opts s) = fst (handle env TrustEvaluate opts' s) \<and>
    (\<exists>e. entries (audit_log (snd (handle env TrustEvaluate opts s))) =
        entries (audit_log s) @ [e\<lparr>Entry_Repo := String_opt (opts_lib env) opts ''repo''\<rparr>] \<and>
      entries (audit_log (snd (handle env TrustEvaluate opts' s))) =
        entries (audit_log s) @ [e\<lparr>Entry_Repo := String_opt (opts_lib env) opts' ''repo''\<rparr>])"
proof -
  have h: "handles s = all_handles" by (simp add: assms(2) NewService_fields [OF assms(1)])
  have "unscoped (registry s0)"
    by (simp add: NewService_fields [OF assms(1)] NewRegistry_def unscoped_def)
  then have u: "unscoped (registry s)" using assms(2) serve_unscoped by blast
  let ?r = "Evaluate (registry s) (policy s) (String_opt (opts_lib env) opts' ''agent'')
    (String_opt (opts_lib env) opts' ''capability'') []"
  have f: "fst (handle env TrustEvaluate opts s) = Some (Inr (VEval ?r))"
    "fst (handle env TrustEvaluate opts' s) = Some (Inr (VEval ?r))"
    using evaluate_answer [OF h] assms(3,4) unscoped_Evaluate [OF u] by metis+
  have "HAudit \<in> handles s" by (simp add: h all_handles_def)
  note a = handle_audit [OF this, of env TrustEvaluate]
  have e: "entry_of (now env) ?r repo = (entry_of (now env) ?r [])\<lparr>Entry_Repo := repo\<rparr>" for repo
    by (simp add: entry_of_def)
  have "entries (audit_log (snd (handle env TrustEvaluate opts s))) =
      entries (audit_log s) @ [entry_of (now env) ?r (String_opt (opts_lib env) opts ''repo'')]"
    "entries (audit_log (snd (handle env TrustEvaluate opts' s))) =
      entries (audit_log s) @ [entry_of (now env) ?r (String_opt (opts_lib env) opts' ''repo'')]"
    unfolding a f by (simp_all add: audit_of_def)
  with f e show ?thesis by metis
qed

section \<open>Handlers that are not initialised\<close>

text \<open>The handle a handler needs, besides the receiver.\<close>

fun needs :: "action \<Rightarrow> pointer option" where
  "needs TrustRegister = Some HRegistry"
| "needs TrustRemove = Some HRegistry"
| "needs TrustEvaluate = Some HPolicy"
| "needs TrustApprovalSubmit = Some HQueue"
| "needs TrustApprovalApprove = Some HQueue"
| "needs TrustApprovalDeny = Some HQueue"
| "needs TrustApprovalPending = Some HQueue"
| "needs CryptEncrypt = None"
| "needs CryptDecrypt = None"
| "needs CryptSha256 = None"
| "needs CryptSha512 = None"
| "needs CryptPasswordHash = None"
| "needs CryptPasswordVerify = None"
| "needs _ = Some HAuthenticator"

text \<open>
  A handler whose component is missing answers with an error under the name of its action and
  changes nothing, whatever the call; the receiver counts as missing too when it is nil.
\<close>

theorem missing_component_is_an_error:
  assumes "(name, act) \<in> set action_table" and "needs act = Some h"
    and "HReceiver \<notin> handles s \<or> h \<notin> handles s"
  shows "handle env act opts s = (Some (Inl (E name ''service not initialised'' None)), s)"
proof -
  have "handle env act opts s = guarded h name s (handle env act opts (s\<lparr>handles := all_handles\<rparr>))"
    using assms(1-3) by (auto simp: action_table_def handler_defs guarded_def)
  with assms(3) show ?thesis by (auto simp: guarded_def)
qed

section \<open>Startup\<close>

lemma action_table_distinct: "distinct (map fst action_table)"
  by (simp add: action_table_def)

lemma action_table_all: "snd ` set action_table = UNIV"
proof (rule set_eqI)
  show "act \<in> snd ` set action_table \<longleftrightarrow> act \<in> UNIV" for act
    by (cases act) (simp_all add: action_table_def)
qed

text \<open>
  Startup puts every handler of the Service under one name each, so that a call of a name runs the
  handler the table gives for it and a call of any other name runs nothing; a second startup
  registers nothing more.
\<close>

theorem startup_registers_each_action_once:
  assumes "HReceiver \<in> handles s" and "attached s" and "\<not> registrations s" and "actions s = []"
  shows "snd ` set (actions (snd (OnStartup s))) = UNIV \<and>
    distinct (map fst (actions (snd (OnStartup s)))) \<and>
    OnStartup (snd (OnStartup s)) = (Inr (), snd (OnStartup s)) \<and>
    (\<forall>name act. call env name opts (snd (OnStartup s)) =
       Some (handle env act opts (snd (OnStartup s))) \<or> (name, act) \<notin> set action_table) \<and>
    (\<forall>name. call env name opts (snd (OnStartup s)) = None \<longleftrightarrow> name \<notin> fst ` set action_table)"
  using assms action_table_distinct action_table_all
  by (auto simp: OnStartup_def call_def map_of_eq_None_iff dest: map_of_is_SomeI [OF action_table_distinct])

section \<open>Examples\<close>

text \<open>A Service with the example Authenticator.\<close>

definition demo_senv ::
  "(files, rows, string, bytes, string, (string \<times> string) list) service_env" where
  "demo_senv = \<lparr>auth_part = demo_env 5, audit_part = example_audit_env, now = 5, pending_order = [],
     chacha = plain_chacha, nonce_rand = [], sha_sigil = (\<lambda>_ d. Inr d), opts_lib = text_options\<rparr>"

definition demo_svc :: "(files, rows, string) svc" where
  "demo_svc = \<lparr>handles = all_handles, authenticator = demo_user, registry = NewRegistry,
     policy = NewPolicyEngine, queue = NewApprovalQueue, audit_log = NewAuditLog None,
     attached = True, registrations = False, actions = []\<rparr>"

lemmas demo_svc_defs = demo_svc_def demo_senv_def text_options_def all_handles_def

theorem every_decision_is_audited_witness:
  "map Entry_Agent (entries (audit_log (snd (serve
     [(demo_senv, TrustRemove, [(''name'', ''eve'')]), (demo_senv, TrustEvaluate, [(''agent'', ''eve'')])]
     demo_svc)))) = [''eve'']"
  by (subst every_decision_is_audited)
    (simp_all add: demo_svc_defs handler_defs guarded_def Registry_Remove_def NewRegistry_def Let_def
      split_def NewAuditLog_def audit_of_def entry_of_def Evaluate_def Registry_Get_def)

theorem service_sessions_come_from_logins_witness:
  "\<exists>v. session_at (demo_env 5) (authenticator (snd (serve
       [(demo_senv, AuthLogin, [(''user_id'', ''u''), (''password'', ''pw'')])] demo_svc)))
       (HexEncode (replicate 32 1)) = Some v \<and> Token v = HexEncode (replicate 32 1)"
proof -
  let ?xs = "[(demo_senv, AuthLogin, [(''user_id'', ''u''), (''password'', ''pw'')])]"
  have "concat (map (auth_calls demo_svc) ?xs) = [(demo_env 5, OpLogin ''u'' ''pw'')]"
    by (simp add: auth_calls_def demo_svc_defs)
  moreover have a: "authenticator demo_svc = demo_user" by (simp add: demo_svc_def)
  ultimately have "authenticator (snd (serve ?xs demo_svc)) =
      snd (run_auth [(demo_env 5, OpLogin ''u'' ''pw'')] demo_user)"
    using serve_runs_auth [of demo_svc ?xs] by (simp only: snd_conv)
  then obtain v where v: "session_at (demo_env 5) (authenticator (snd (serve ?xs demo_svc)))
      (HexEncode (replicate 32 1)) = Some v"
    using demo_login_session by auto
  have "sessions_ok (demo_env 5) (authenticator demo_svc)"
    "\<And>x. storable (demo_env 5) (authenticator demo_svc) x"
    "session_at (demo_env 5) (authenticator demo_svc) = Map.empty"
    using demo_sessions_ok demo_storable demo_user_simps(2) demo_no_session by (simp_all add: a)
  from service_sessions_come_from_logins [OF _ this v] v show ?thesis
    by (auto simp: demo_senv_def)
qed

theorem service_ignores_repositories_witness:
  "\<exists>s0. RegisterService Map.empty (\<lambda>_. Inr Map.empty) (kvlib list_env) True = Inr s0 \<and>
     fst (handle demo_senv TrustEvaluate [(''agent'', ''bot''), (''capability'', ''repo.push''), (''repo'', ''a/b'')]
       (snd (serve [(demo_senv, TrustRegister, [(''name'', ''bot''), (''tier'', ''xx'')])] s0))) =
     fst (handle demo_senv TrustEvaluate [(''agent'', ''bot''), (''capability'', ''repo.push'')]
       (snd (serve [(demo_senv, TrustRegister, [(''name'', ''bot''), (''tier'', ''xx'')])] s0)))"
proof -
  obtain s0 :: "(files, rows, string) svc" where
    s0: "RegisterService Map.empty (\<lambda>_. Inr Map.empty) (kvlib list_env) True = Inr s0"
    by (simp add: RegisterService_def NewService_def Let_def)
  have o: "String_opt (opts_lib demo_senv) [(''agent'', ''bot''), (''capability'', ''repo.push''), (''repo'', ''a/b'')] k =
      String_opt (opts_lib demo_senv) [(''agent'', ''bot''), (''capability'', ''repo.push'')] k"
    if "k \<in> {''agent'', ''capability''}" for k
    using that by (auto simp: demo_senv_def text_options_def)
  show ?thesis
    using service_ignores_repositories [OF s0 [unfolded RegisterService_def] refl o o] s0 by blast
qed

theorem missing_component_is_an_error_witness:
  "handle demo_senv AuthLogin [] (demo_svc\<lparr>handles := {HReceiver}\<rparr>) =
     (Some (Inl (E ''auth.login'' ''service not initialised'' None)), demo_svc\<lparr>handles := {HReceiver}\<rparr>)"
  by (rule missing_component_is_an_error [of _ _ HAuthenticator]) (simp_all add: action_table_def)

theorem startup_registers_each_action_once_witness:
  "call demo_senv ''crypt.hash.sha256'' [(''data'', ''ab'')] (snd (OnStartup demo_svc)) \<noteq> None \<and>
   call demo_senv ''crypt.hash.md5'' [] (snd (OnStartup demo_svc)) = None"
proof -
  have "HReceiver \<in> handles demo_svc" "attached demo_svc" "\<not> registrations demo_svc" "actions demo_svc = []"
    by (simp_all add: demo_svc_defs)
  note r = startup_registers_each_action_once [OF this]
  show ?thesis using r [of demo_senv] by (simp add: action_table_def)
qed

end
