(* ===== verification/Keys.thy ===== *)
theory Keys
  imports Prelude
begin

text \<open>
  \<^verbatim>\<open>go/keys\<close>: the encrypted keys directory.  Two tiers of blobs, each sealed under a master key of its
  own, which is itself on disk only sealed under a key-encryption key the host provides.  This theory
  has the data, the directory, the masters and their loading; \<open>KeysApi\<close> the operations on blobs and
  \<open>KeysMigration\<close> the migration of a directory from before the tiers.

  An operation takes the operating system \<open>os\<close> and the Service and returns its result with the
  Service after it.  The Service carries the state \<open>world\<close> of the system, which file operations,
  random draws and sealing advance, and \<open>outputs\<close>: the audit rows, broadcasts and log lines it has
  emitted, in order (of a log line the message, its dashes written \<^verbatim>\<open>-\<close>).  The mutexes make every
  operation atomic.
\<close>

section \<open>Sequencing of fallible calls\<close>

text \<open>
  \<^verbatim>\<open>r := f(); if !r.OK { return r }\<close>, and the wrapping of an error by \<^verbatim>\<open>core.E(op, msg, err)\<close>.
\<close>

definition andThen :: "'a res \<times> 's \<Rightarrow> ('a \<Rightarrow> 's \<Rightarrow> 'b res \<times> 's) \<Rightarrow> 'b res \<times> 's" where
  "andThen x f = (case x of (Inl e, s) \<Rightarrow> (Inl e, s) | (Inr a, s) \<Rightarrow> f a s)"

definition failAs :: "string \<Rightarrow> string \<Rightarrow> 'a res \<times> 's \<Rightarrow> 'a res \<times> 's" where
  "failAs op msg x = (case x of (Inl e, s) \<Rightarrow> (Inl (E op msg (Some e)), s) | (Inr a, s) \<Rightarrow> (Inr a, s))"

definition NewError :: "string \<Rightarrow> err" where
  "NewError msg = Ext msg"

definition of_error :: "err option \<Rightarrow> unit res" where
  "of_error e = (case e of None \<Rightarrow> Inr () | Some e \<Rightarrow> Inl e)"

lemma andThen_simps [simp]:
  "andThen (Inl e, s) f = (Inl e, s)" "andThen (Inr a, s) f = f a s"
  by (simp_all add: andThen_def)

lemma failAs_simps [simp]:
  "failAs op msg (Inl e, s) = (Inl (E op msg (Some e)), s)" "failAs op msg (Inr a, s) = (Inr a, s)"
  by (simp_all add: failAs_def)

lemma of_error_simps [simp]:
  "of_error None = Inr ()" "of_error (Some e) = Inl e" "of_error x = Inr u \<longleftrightarrow> x = None"
  by (simp_all add: of_error_def split: option.splits)

lemma andThen_Inr [simp]:
  "andThen x f = (Inr b, s') \<longleftrightarrow> (\<exists>a s. x = (Inr a, s) \<and> f a s = (Inr b, s'))"
  by (cases x; cases "fst x") (auto simp: andThen_def)

lemma failAs_Inr [simp]: "failAs op msg x = (Inr b, s') \<longleftrightarrow> x = (Inr b, s')"
  by (cases x; cases "fst x") (auto simp: failAs_def)

lemma snd_failAs [simp]: "snd (failAs op msg x) = snd x"
  by (cases x; cases "fst x") (auto simp: failAs_def)

lemma fst_failAs_Inr [simp]: "fst (failAs op msg x) = Inr b \<longleftrightarrow> fst x = Inr b"
  by (cases x; cases "fst x") (auto simp: failAs_def)

text \<open>A reflexive and transitive relation between states is kept by calls in sequence.\<close>

lemma andThen_rel:
  assumes "R s (snd x)" and "\<And>a s1. x = (Inr a, s1) \<Longrightarrow> R s s1 \<Longrightarrow> R s (snd (f a s1))"
  shows "R s (snd (andThen x f))"
  using assms by (cases x; cases "fst x") auto

section \<open>Data\<close>

definition legacyMasterFileName :: string where "legacyMasterFileName = ''.master''"
definition masterTier0FileName :: string where "masterTier0FileName = ''.master-tier0''"
definition masterTier1FileName :: string where "masterTier1FileName = ''.master-tier1''"
definition legacyBlobSuffix :: string where "legacyBlobSuffix = ''.aead''"
definition tier0BlobSuffix :: string where "tier0BlobSuffix = ''.t0.aead''"
definition tier1BlobSuffix :: string where "tier1BlobSuffix = ''.t1.aead''"
definition masterKeySize :: nat where "masterKeySize = 32"
definition dirMode :: nat where "dirMode = 448"
definition fileMode :: nat where "fileMode = 384"
definition kekWrappedMasterLen :: nat where "kekWrappedMasterLen = 24 + masterKeySize + 16"
definition singleInstanceRef :: string where "singleInstanceRef = ''single-instance''"

lemmas keys_consts = legacyMasterFileName_def masterTier0FileName_def masterTier1FileName_def
  legacyBlobSuffix_def tier0BlobSuffix_def tier1BlobSuffix_def masterKeySize_def
  kekWrappedMasterLen_def singleInstanceRef_def

datatype tier = tier0 | tier1

text \<open>The tiers are ordered as the integers \<^verbatim>\<open>tier0 = 0\<close>, \<^verbatim>\<open>tier1 = 1\<close> of the code.\<close>

primrec tier_int :: "tier \<Rightarrow> int" where
  "tier_int tier0 = 0"
| "tier_int tier1 = 1"

instantiation tier :: linorder
begin

definition less_eq_tier :: "tier \<Rightarrow> tier \<Rightarrow> bool" where
  "less_eq_tier t u \<longleftrightarrow> tier_int t \<le> tier_int u"

definition less_tier :: "tier \<Rightarrow> tier \<Rightarrow> bool" where
  "less_tier t u \<longleftrightarrow> tier_int t < tier_int u"

instance
proof
  fix t u v :: tier
  show "(t < u) = (t \<le> u \<and> \<not> u \<le> t)" by (auto simp: less_eq_tier_def less_tier_def)
  show "t \<le> t" by (simp add: less_eq_tier_def)
  show "t \<le> u \<Longrightarrow> u \<le> v \<Longrightarrow> t \<le> v" by (simp add: less_eq_tier_def)
  show "t \<le> u \<Longrightarrow> u \<le> t \<Longrightarrow> t = u" by (cases t; cases u) (simp_all add: less_eq_tier_def)
  show "t \<le> u \<or> u \<le> t" by (auto simp: less_eq_tier_def)
qed

end

text \<open>
  What the Service calls of the system and of the framework, over the state \<open>'w\<close> of the world.
  \<^verbatim>\<open>Unix\<close> is \<^verbatim>\<open>core.Now().Unix()\<close>; the last three are \<^verbatim>\<open>sigil.NewChaChaPolySigil\<close> (its error for a
  key) and the \<^verbatim>\<open>In\<close> and \<^verbatim>\<open>Out\<close> of the sigil for a key.
\<close>

record FileInfo =
  Perm :: nat
  IsDir :: bool

record 'w os_lib =
  PathJoin :: "string \<Rightarrow> string \<Rightarrow> string"
  Stat :: "'w \<Rightarrow> string \<Rightarrow> FileInfo option"
  ReadFile :: "'w \<Rightarrow> string \<Rightarrow> bytes res"
  WriteFile :: "string \<Rightarrow> bytes \<Rightarrow> nat \<Rightarrow> 'w \<Rightarrow> err option \<times> 'w"
  Remove :: "string \<Rightarrow> 'w \<Rightarrow> err option \<times> 'w"
  ReadDir :: "'w \<Rightarrow> string \<Rightarrow> (string \<times> bool) list res"
  MkdirAll :: "string \<Rightarrow> nat \<Rightarrow> 'w \<Rightarrow> err option \<times> 'w"
  UserHomeDir :: "'w \<Rightarrow> string res"
  RandomBytes :: "nat \<Rightarrow> 'w \<Rightarrow> bytes res \<times> 'w"
  Unix :: "'w \<Rightarrow> int"
  NewChaChaPolySigil :: "bytes \<Rightarrow> err option"
  sigil_In :: "bytes \<Rightarrow> bytes \<Rightarrow> 'w \<Rightarrow> bytes res \<times> 'w"
  sigil_Out :: "bytes \<Rightarrow> bytes \<Rightarrow> bytes res"

type_synonym 'w KEKProvider = "'w \<Rightarrow> bytes \<times> bool"

record AuditEvent =
  Event :: string
  TS :: int
  Scope :: string
  Outcome :: string
  Meta :: "string \<rightharpoonup> string"

record AuditRecorder =
  ErrorCode :: "err \<Rightarrow> string"

record Tier1KeyChanged =
  Kind :: string
  Ref :: string

datatype emission =
  Audited AuditEvent | Broadcast Tier1KeyChanged | Warned string | Informed string

record 'w Service =
  dirResolver :: "('w \<Rightarrow> string res \<times> 'w) option"
  audit :: "AuditRecorder option"
  core :: bool
  tier0Master :: bytes
  tier1Master :: bytes
  tier0KEKProvider :: "'w KEKProvider option"
  tier1KEKProvider :: "'w KEKProvider option"
  migrationComplete :: bool
  world :: 'w
  outputs :: "emission list"

definition Warn :: "string \<Rightarrow> 'w Service \<Rightarrow> 'w Service" where
  "Warn msg s = s\<lparr>outputs := outputs s @ [Warned msg]\<rparr>"

definition Info :: "string \<Rightarrow> 'w Service \<Rightarrow> 'w Service" where
  "Info msg s = s\<lparr>outputs := outputs s @ [Informed msg]\<rparr>"

text \<open>A call whose failure is logged and otherwise ignored.\<close>

definition orWarn :: "string \<Rightarrow> unit res \<times> 'w Service \<Rightarrow> unit res \<times> 'w Service" where
  "orWarn msg x = (case x of (Inl e, s) \<Rightarrow> (Inr (), Warn msg s) | (Inr _, s) \<Rightarrow> (Inr (), s))"

section \<open>File operations on the Service\<close>

definition stat :: "'w os_lib \<Rightarrow> 'w Service \<Rightarrow> string \<Rightarrow> FileInfo option" where
  "stat os s path = Stat os (world s) path"

definition read_file :: "'w os_lib \<Rightarrow> string \<Rightarrow> 'w Service \<Rightarrow> bytes res \<times> 'w Service" where
  "read_file os path s = (ReadFile os (world s) path, s)"

definition write_file ::
  "'w os_lib \<Rightarrow> string \<Rightarrow> bytes \<Rightarrow> 'w Service \<Rightarrow> unit res \<times> 'w Service" where
  "write_file os path content s =
     (case WriteFile os path content fileMode (world s) of (e, w) \<Rightarrow> (of_error e, s\<lparr>world := w\<rparr>))"

definition remove_file :: "'w os_lib \<Rightarrow> string \<Rightarrow> 'w Service \<Rightarrow> unit res \<times> 'w Service" where
  "remove_file os path s =
     (case Remove os path (world s) of (e, w) \<Rightarrow> (of_error e, s\<lparr>world := w\<rparr>))"

definition random_bytes :: "'w os_lib \<Rightarrow> nat \<Rightarrow> 'w Service \<Rightarrow> bytes res \<times> 'w Service" where
  "random_bytes os n s = (case RandomBytes os n (world s) of (r, w) \<Rightarrow> (r, s\<lparr>world := w\<rparr>))"

text \<open>The sigil of a key: \<open>new_sigil\<close> is its construction, \<open>seal\<close> and \<open>unseal\<close> its two directions.\<close>

definition new_sigil :: "'w os_lib \<Rightarrow> bytes \<Rightarrow> 'w Service \<Rightarrow> unit res \<times> 'w Service" where
  "new_sigil os key s = (of_error (NewChaChaPolySigil os key), s)"

definition seal :: "'w os_lib \<Rightarrow> bytes \<Rightarrow> bytes \<Rightarrow> 'w Service \<Rightarrow> bytes res \<times> 'w Service" where
  "seal os key plain s = (case sigil_In os key plain (world s) of (r, w) \<Rightarrow> (r, s\<lparr>world := w\<rparr>))"

definition unseal :: "'w os_lib \<Rightarrow> bytes \<Rightarrow> bytes \<Rightarrow> 'w Service \<Rightarrow> bytes res \<times> 'w Service" where
  "unseal os key blob s = (sigil_Out os key blob, s)"

section \<open>The directory\<close>

definition defaultKeysDir :: "'w os_lib \<Rightarrow> 'w \<Rightarrow> string res \<times> 'w" where
  "defaultKeysDir os w =
     (case UserHomeDir os w of
        Inl e \<Rightarrow> (Inl e, w)
      | Inr home \<Rightarrow>
          let root = PathJoin os home ''Lethean'' in
          case MkdirAll os root 493 w of
            (Some e, w) \<Rightarrow> (Inl e, w)
          | (None, w) \<Rightarrow>
              let data = PathJoin os root ''data'' in
              case MkdirAll os data 493 w of
                (Some e, w) \<Rightarrow> (Inl e, w)
              | (None, w) \<Rightarrow>
                  let dir = PathJoin os data ''keys'' in
                  case MkdirAll os dir dirMode w of
                    (Some e, w) \<Rightarrow> (Inl e, w)
                  | (None, w) \<Rightarrow> (Inr dir, w))"

definition keysDir :: "'w os_lib \<Rightarrow> 'w Service \<Rightarrow> string res \<times> 'w Service" where
  "keysDir os s =
     (case (case dirResolver s of
              Some resolve \<Rightarrow> resolve (world s)
            | None \<Rightarrow> defaultKeysDir os (world s)) of
        (r, w) \<Rightarrow> (r, s\<lparr>world := w\<rparr>))"

text \<open>Options at construction; \<^verbatim>\<open>nil\<close> arguments are \<open>None\<close>.\<close>

definition WithDirResolver ::
  "('w \<Rightarrow> string res \<times> 'w) option \<Rightarrow> 'w Service \<Rightarrow> 'w Service" where
  "WithDirResolver r s = (if r \<noteq> None then s\<lparr>dirResolver := r\<rparr> else s)"

definition WithDir :: "'w os_lib \<Rightarrow> string \<Rightarrow> 'w Service \<Rightarrow> 'w Service" where
  "WithDir os dir = WithDirResolver (Some (\<lambda>w.
     if dir = [] then (Inl (NewError ''keys.WithDir: directory must not be empty''), w)
     else case MkdirAll os dir dirMode w of
            (Some e, w) \<Rightarrow> (Inl e, w)
          | (None, w) \<Rightarrow> (Inr dir, w)))"

definition WithAuditRecorder :: "AuditRecorder option \<Rightarrow> 'w Service \<Rightarrow> 'w Service" where
  "WithAuditRecorder rec s = (if rec \<noteq> None then s\<lparr>audit := rec\<rparr> else s)"

text \<open>The mode check at startup: a line for the directory and for each master file that is too open.\<close>

definition assertKeysDirMode :: "'w os_lib \<Rightarrow> string \<Rightarrow> 'w Service \<Rightarrow> 'w Service" where
  "assertKeysDirMode os dir s =
     (case stat os s dir of
        None \<Rightarrow> s
      | Some info \<Rightarrow>
          fold (\<lambda>name s.
              case stat os s (PathJoin os dir name) of
                None \<Rightarrow> s
              | Some mInfo \<Rightarrow>
                  if Perm mInfo \<noteq> fileMode
                  then Warn (''keys: master file mode wider than 0o600 - `chmod 600 ~/Lethean/data/keys/''
                         @ name @ ''` to restore (Mantis #1441)'') s
                  else s)
            [legacyMasterFileName, masterTier0FileName, masterTier1FileName]
            (if Perm info \<noteq> dirMode
             then Warn ''keys: directory mode wider than 0o700 - someone (or full-disk tooling) loosened it; `chmod 700 ~/Lethean/data/keys` to restore (Mantis #1441)'' s
             else s))"

definition empty_service :: "'w \<Rightarrow> 'w Service" where
  "empty_service w = \<lparr>dirResolver = None, audit = None, core = False, tier0Master = [],
     tier1Master = [], tier0KEKProvider = None, tier1KEKProvider = None,
     migrationComplete = False, world = w, outputs = []\<rparr>"

definition NewKeys ::
  "'w os_lib \<Rightarrow> ('w Service \<Rightarrow> 'w Service) list \<Rightarrow> 'w \<Rightarrow> unit res \<times> 'w Service" where
  "NewKeys os opts w =
     andThen (keysDir os (fold (\<lambda>opt. opt) opts (empty_service w)))
       (\<lambda>dir s. (Inr (), assertKeysDirMode os dir s))"

text \<open>
  Registration with the framework: a line in the log, then the construction; the container itself is
  not looked at.
\<close>

definition RegisterKeys ::
  "'w os_lib \<Rightarrow> ('w Service \<Rightarrow> 'w Service) list \<Rightarrow> 'w \<Rightarrow> unit res \<times> 'w Service" where
  "RegisterKeys os opts w =
     (case NewKeys os opts w of (r, s) \<Rightarrow>
        (r, s\<lparr>outputs := Warned ''keys: tier-partition substrate active (Mantis #1625) - tier-0 from .seed; tier-1 from unlocked account PGP key'' # outputs s\<rparr>))"

definition Registrar ::
  "('w Service \<Rightarrow> 'w Service) list \<Rightarrow> 'w os_lib \<Rightarrow> 'w \<Rightarrow> unit res \<times> 'w Service" where
  "Registrar opts = (\<lambda>os. RegisterKeys os opts)"

definition SetCore :: "bool \<Rightarrow> 'w Service \<Rightarrow> 'w Service" where
  "SetCore c s = s\<lparr>core := c\<rparr>"

section \<open>Masters\<close>

definition provider_for :: "tier \<Rightarrow> 'w Service \<Rightarrow> 'w KEKProvider option" where
  "provider_for t s = (case t of tier0 \<Rightarrow> tier0KEKProvider s | tier1 \<Rightarrow> tier1KEKProvider s)"

definition currentKEKFor :: "tier \<Rightarrow> 'w Service \<Rightarrow> bytes option \<times> 'w Service" where
  "currentKEKFor t s =
     (case provider_for t s of
        None \<Rightarrow> (None, s)
      | Some provider \<Rightarrow>
          case provider (world s) of (kek, avail) \<Rightarrow>
            if \<not> avail then (None, s)
            else if length kek \<noteq> masterKeySize
            then (None, Warn ''keys: KEK provider returned wrong-length key'' s)
            else (Some kek, s))"

text \<open>The \<^verbatim>\<open>if !ok\<close> of its callers, with the error each returns.\<close>

definition need_kek :: "tier \<Rightarrow> string \<Rightarrow> 'w Service \<Rightarrow> bytes res \<times> 'w Service" where
  "need_kek t msg s =
     (case currentKEKFor t s of
        (None, s) \<Rightarrow> (Inl (NewError msg), s)
      | (Some kek, s) \<Rightarrow> (Inr kek, s))"

definition masterFileNameFor :: "tier \<Rightarrow> string" where
  "masterFileNameFor t = (if t = tier0 then masterTier0FileName else masterTier1FileName)"

definition blobSuffixFor :: "tier \<Rightarrow> string" where
  "blobSuffixFor t = (if t = tier0 then tier0BlobSuffix else tier1BlobSuffix)"

definition cached :: "tier \<Rightarrow> 'w Service \<Rightarrow> bytes" where
  "cached t s = (if t = tier0 then tier0Master s else tier1Master s)"

definition set_cached :: "tier \<Rightarrow> bytes \<Rightarrow> 'w Service \<Rightarrow> 'w Service" where
  "set_cached t m s = (if t = tier0 then s\<lparr>tier0Master := m\<rparr> else s\<lparr>tier1Master := m\<rparr>)"

definition writeMasterLocked ::
  "'w os_lib \<Rightarrow> string \<Rightarrow> bytes \<Rightarrow> bytes \<Rightarrow> 'w Service \<Rightarrow> unit res \<times> 'w Service" where
  "writeMasterLocked os masterPath master kek s =
     andThen (failAs ''keys.writeMasterLocked'' ''init KEK sigil'' (new_sigil os kek s)) (\<lambda>_ s.
     andThen (failAs ''keys.writeMasterLocked'' ''wrap master under KEK'' (seal os kek master s)) (\<lambda>wrapped s.
     failAs ''keys.writeMasterLocked'' ''write wrapped master'' (write_file os masterPath wrapped s)))"

definition generateTier0Locked :: "'w os_lib \<Rightarrow> string \<Rightarrow> 'w Service \<Rightarrow> bytes res \<times> 'w Service" where
  "generateTier0Locked os dir s =
     andThen (need_kek tier0 ''keys.no_tier0_provider: cannot generate tier-0 master without KEK provider (wire .seed substrate first)'' s) (\<lambda>kek s.
     andThen (failAs ''keys.ensureMaster'' ''generate tier-0 master'' (random_bytes os masterKeySize s)) (\<lambda>master s.
     andThen (writeMasterLocked os (PathJoin os dir masterTier0FileName) master kek s) (\<lambda>_ s.
     (Inr master, set_cached tier0 master s))))"

text \<open>Step 0b.iv: the legacy single-instance blob, opened under the legacy master and resealed.\<close>

definition reseal_single_instance ::
  "'w os_lib \<Rightarrow> string \<Rightarrow> bytes \<Rightarrow> bytes \<Rightarrow> 'w Service \<Rightarrow> unit res \<times> 'w Service" where
  "reseal_single_instance os dir legacy t0master s =
     (let legacySIPath = PathJoin os dir (singleInstanceRef @ legacyBlobSuffix) in
      if stat os s legacySIPath = None then (Inr (), s)
      else
        andThen (failAs ''keys.migrate'' ''read legacy single-instance'' (read_file os legacySIPath s)) (\<lambda>blob s.
        andThen (failAs ''keys.migrate'' ''init legacy sigil'' (new_sigil os legacy s)) (\<lambda>_ s.
        andThen (failAs ''keys.migrate'' ''decrypt legacy single-instance'' (unseal os legacy blob s)) (\<lambda>plaintext s.
        andThen (failAs ''keys.migrate'' ''init tier-0 sigil'' (new_sigil os t0master s)) (\<lambda>_ s.
        andThen (failAs ''keys.migrate'' ''re-seal single-instance under tier-0'' (seal os t0master plaintext s)) (\<lambda>newBlob s.
        andThen (failAs ''keys.migrate'' ''write tier-0 single-instance''
                   (write_file os (PathJoin os dir (singleInstanceRef @ tier0BlobSuffix)) newBlob s)) (\<lambda>_ s.
        orWarn ''keys: failed to remove legacy single-instance.aead after re-seal''
          (remove_file os legacySIPath s))))))))"

definition migrateTier0FromRawLegacyLocked ::
  "'w os_lib \<Rightarrow> string \<Rightarrow> bytes \<Rightarrow> 'w Service \<Rightarrow> bytes res \<times> 'w Service" where
  "migrateTier0FromRawLegacyLocked os dir legacy s =
     (if length legacy \<noteq> masterKeySize
      then (Inl (NewError ''keys.migrate: legacy raw master has wrong length''), s)
      else
        andThen (need_kek tier0 ''keys.no_tier0_provider: cannot complete tier-0 sub-migration without KEK'' s) (\<lambda>kek s.
        andThen (failAs ''keys.migrate'' ''generate tier-0 master'' (random_bytes os masterKeySize s)) (\<lambda>t0master s.
        andThen (writeMasterLocked os (PathJoin os dir masterTier0FileName) t0master kek s) (\<lambda>_ s.
        andThen (reseal_single_instance os dir legacy t0master s) (\<lambda>_ s.
        (Inr t0master,
         set_cached tier0 t0master
           (Info ''keys: tier-0 sub-migration complete at boot (legacy install)'' s)))))))"

text \<open>Loading a master from its file, the same for both tiers up to the texts.\<close>

definition load_master ::
  "'w os_lib \<Rightarrow> tier \<Rightarrow> string \<Rightarrow> string \<Rightarrow> string \<Rightarrow> 'w Service \<Rightarrow> bytes res \<times> 'w Service" where
  "load_master os t name no_provider path s =
     andThen (failAs ''keys.ensureMaster'' (''read '' @ name @ '' master'') (read_file os path s)) (\<lambda>blob s.
     if length blob \<noteq> kekWrappedMasterLen
     then (Inl (NewError (''keys.ensureMaster: '' @ name @ '' master has wrong length; refusing to use'')), s)
     else
       andThen (need_kek t no_provider s) (\<lambda>kek s.
       andThen (failAs ''keys.ensureMaster'' (''init '' @ name @ '' KEK sigil'') (new_sigil os kek s)) (\<lambda>_ s.
       andThen (failAs ''keys.ensureMaster'' (''unwrap '' @ name @ '' KEK envelope'') (unseal os kek blob s)) (\<lambda>unwrapped s.
       if length unwrapped \<noteq> masterKeySize
       then (Inl (NewError (''keys.ensureMaster: '' @ name @ '' KEK-unwrapped master has wrong length'')), s)
       else (Inr unwrapped, set_cached t unwrapped s)))))"

definition ensureTier0Locked :: "'w os_lib \<Rightarrow> string \<Rightarrow> 'w Service \<Rightarrow> bytes res \<times> 'w Service" where
  "ensureTier0Locked os dir s =
     (let tier0Path = PathJoin os dir masterTier0FileName;
          legacyPath = PathJoin os dir legacyMasterFileName
      in if stat os s tier0Path \<noteq> None
         then load_master os tier0 ''tier-0'' ''keys.no_tier0_provider: tier-0 KEK provider unavailable; .seed substrate must be wired before tier-0 ops'' tier0Path s
         else if stat os s legacyPath \<noteq> None
         then andThen (failAs ''keys.ensureMaster'' ''read legacy master for tier-0 migration'' (read_file os legacyPath s)) (\<lambda>legacy s.
              if length legacy = masterKeySize then migrateTier0FromRawLegacyLocked os dir legacy s
              else if length legacy = kekWrappedMasterLen
              then (Inl (NewError ''keys.no_legacy_unlock: tier-0 sub-migration cannot run pre-unlock for post-#1624 legacy install; first interactive unlock completes the migration''), s)
              else (Inl (NewError ''keys.ensureMaster: legacy master file has wrong length; refusing to use''), s))
         else generateTier0Locked os dir s)"

definition ensureTier1Locked :: "'w os_lib \<Rightarrow> string \<Rightarrow> 'w Service \<Rightarrow> bytes res \<times> 'w Service" where
  "ensureTier1Locked os dir s =
     (let tier1Path = PathJoin os dir masterTier1FileName
      in if stat os s tier1Path \<noteq> None
         then load_master os tier1 ''tier-1'' ''keys.no_tier1_provider: tier-1 KEK provider unavailable; unlock the account first'' tier1Path s
         else
           andThen (need_kek tier1 ''keys.no_tier1_provider: cannot generate tier-1 master without KEK provider (unlock the account first)'' s) (\<lambda>kek s.
           andThen (failAs ''keys.ensureMaster'' ''generate tier-1 master'' (random_bytes os masterKeySize s)) (\<lambda>master s.
           andThen (writeMasterLocked os tier1Path master kek s) (\<lambda>_ s.
           (Inr master, set_cached tier1 master s)))))"

definition ensureMaster :: "'w os_lib \<Rightarrow> tier \<Rightarrow> 'w Service \<Rightarrow> bytes res \<times> 'w Service" where
  "ensureMaster os t s =
     (if length (cached t s) = masterKeySize then (Inr (cached t s), s)
      else andThen (keysDir os s) (\<lambda>dir s.
        if t = tier0 then ensureTier0Locked os dir s else ensureTier1Locked os dir s))"

definition SetKEKProviderTier0 :: "'w KEKProvider option \<Rightarrow> 'w Service \<Rightarrow> 'w Service" where
  "SetKEKProviderTier0 provider s = set_cached tier0 [] (s\<lparr>tier0KEKProvider := provider\<rparr>)"

definition ServiceName :: string where
  "ServiceName = ''Keys''"

definition ServiceStartup :: "'w Service \<Rightarrow> unit res \<times> 'w Service" where
  "ServiceStartup s = (Inr (), s)"

definition ServiceShutdown :: "'w Service \<Rightarrow> unit res \<times> 'w Service" where
  "ServiceShutdown s = (Inr (), set_cached tier1 [] (set_cached tier0 [] s))"

section \<open>Refs and paths\<close>

definition hasTierSuffix :: "string \<Rightarrow> bool" where
  "hasTierSuffix ref =
     (let suffix = ''.aead'' in
      if \<not> HasSuffix ref suffix then False
      else let rem = take (length ref - length suffix) ref in
        if length rem < 3 then False
        else if rem ! (length rem - 3) \<noteq> CHR ''.'' \<or> rem ! (length rem - 2) \<noteq> CHR ''t'' then False
        else let d = rem ! (length rem - 1) in 48 \<le> (of_char d :: nat) \<and> (of_char d :: nat) \<le> 57)"

definition keyPath :: "'w os_lib \<Rightarrow> string \<Rightarrow> tier \<Rightarrow> 'w Service \<Rightarrow> string res \<times> 'w Service" where
  "keyPath os ref t s =
     (if ref = [] then (Inl (NewError ''keys: ref must not be empty''), s)
      else if Contains ref ''/'' \<or> Contains ref [CHR 0x5C] \<or> HasPrefix ref ''.''
      then (Inl (NewError (''keys: ref must not contain path separators or start with '' @ [CHR 0x27, CHR ''.'', CHR 0x27])), s)
      else if Contains ref [CHR 0x00]
      then (Inl (NewError ''keys.id_invalid: ref must not contain NUL byte''), s)
      else if hasTierSuffix ref
      then (Inl (NewError ''keys.invalid_ref_suffix: ref must not end in .tN.aead (reserved for on-disk tier scheme)''), s)
      else andThen (keysDir os s) (\<lambda>dir s. (Inr (PathJoin os dir (ref @ blobSuffixFor t)), s)))"


section \<open>The documented behaviour of the system\<close>

text \<open>
  A plain name is an entry of a directory.  \<open>same_entry\<close>: two worlds hold the same under a name of
  the directory \<open>d\<close>.
\<close>

definition plain :: "string \<Rightarrow> bool" where
  "plain n \<longleftrightarrow> n \<noteq> [] \<and> n \<noteq> ''.'' \<and> n \<noteq> ''..'' \<and> CHR ''/'' \<notin> set n"

definition same_entry :: "'w os_lib \<Rightarrow> string \<Rightarrow> string \<Rightarrow> 'w \<Rightarrow> 'w \<Rightarrow> bool" where
  "same_entry os d n w w' \<longleftrightarrow>
     Stat os w' (PathJoin os d n) = Stat os w (PathJoin os d n) \<and>
     ReadFile os w' (PathJoin os d n) = ReadFile os w (PathJoin os d n)"

text \<open>
  Different names are different paths; a write or a removal touches its own name only, whether or
  not it succeeds, and does what it says if it succeeds; what can be read is a file; drawing random
  bytes and sealing leave the directory alone; a listing has exactly the entries of the directory.
\<close>

definition paths_sound :: "'w os_lib \<Rightarrow> string \<Rightarrow> bool" where
  "paths_sound os d \<longleftrightarrow>
     (\<forall>m n. plain m \<longrightarrow> plain n \<longrightarrow> PathJoin os d m = PathJoin os d n \<longrightarrow> m = n)"

definition write_sound :: "'w os_lib \<Rightarrow> string \<Rightarrow> bool" where
  "write_sound os d \<longleftrightarrow>
     (\<forall>n c mode w. plain n \<longrightarrow>
        (let (e, w') = WriteFile os (PathJoin os d n) c mode w in
           (\<forall>k. plain k \<longrightarrow> k \<noteq> n \<longrightarrow> same_entry os d k w w') \<and>
           (e = None \<longrightarrow> ReadFile os w' (PathJoin os d n) = Inr c)))"

definition remove_sound :: "'w os_lib \<Rightarrow> string \<Rightarrow> bool" where
  "remove_sound os d \<longleftrightarrow>
     (\<forall>n w. plain n \<longrightarrow>
        (let (e, w') = Remove os (PathJoin os d n) w in
           (\<forall>k. plain k \<longrightarrow> k \<noteq> n \<longrightarrow> same_entry os d k w w') \<and>
           (e = None \<longrightarrow> Stat os w' (PathJoin os d n) = None)))"

definition read_sound :: "'w os_lib \<Rightarrow> string \<Rightarrow> bool" where
  "read_sound os d \<longleftrightarrow>
     (\<forall>n w b. plain n \<longrightarrow> ReadFile os w (PathJoin os d n) = Inr b \<longrightarrow>
        (\<exists>fi. Stat os w (PathJoin os d n) = Some fi \<and> \<not> IsDir fi)) \<and>
     (\<forall>w es. ReadDir os w d = Inr es \<longrightarrow> distinct (map fst es) \<and>
        (\<forall>n b. (n, b) \<in> set es \<longleftrightarrow>
           plain n \<and> (\<exists>fi. Stat os w (PathJoin os d n) = Some fi \<and> IsDir fi = b)))"

definition entropy_sound :: "'w os_lib \<Rightarrow> string \<Rightarrow> bool" where
  "entropy_sound os d \<longleftrightarrow>
     (\<forall>n w k. plain k \<longrightarrow> same_entry os d k w (snd (RandomBytes os n w))) \<and>
     (\<forall>n w b. fst (RandomBytes os n w) = Inr b \<longrightarrow> length b = n) \<and>
     (\<forall>key p w k. plain k \<longrightarrow> same_entry os d k w (snd (sigil_In os key p w)))"

definition os_sound :: "'w os_lib \<Rightarrow> string \<Rightarrow> bool" where
  "os_sound os d \<longleftrightarrow> paths_sound os d \<and> write_sound os d \<and> remove_sound os d \<and> read_sound os d \<and>
     entropy_sound os d"

text \<open>
  XChaCha20-Poly1305 sealing: a 32-byte key makes a sigil, and what it seals it opens, 40 bytes
  longer (nonce and tag).  Nothing is assumed about sealing no bytes at all.
\<close>

definition sigil_sound :: "'w os_lib \<Rightarrow> bool" where
  "sigil_sound os \<longleftrightarrow>
     (\<forall>key. length key = masterKeySize \<longrightarrow> NewChaChaPolySigil os key = None) \<and>
     (\<forall>key p w c. p \<noteq> [] \<longrightarrow> fst (sigil_In os key p w) = Inr c \<longrightarrow>
        sigil_Out os key c = Inr p \<and> length c = 24 + length p + 16)"

lemmas os_sound_defs = os_sound_def paths_sound_def write_sound_def remove_sound_def
  read_sound_def entropy_sound_def

lemma same_entry_refl [simp]: "same_entry os d n w w"
  by (simp add: same_entry_def)

lemma same_entry_trans:
  "same_entry os d n u v \<Longrightarrow> same_entry os d n v w \<Longrightarrow> same_entry os d n u w"
  by (simp add: same_entry_def)

lemma path_eq:
  "os_sound os d \<Longrightarrow> plain m \<Longrightarrow> plain n \<Longrightarrow> PathJoin os d m = PathJoin os d n \<longleftrightarrow> m = n"
  by (auto simp: os_sound_def paths_sound_def)

section \<open>States, frames\<close>

text \<open>
  Two states of the Service with the same configuration; the part of the outputs that leaves the
  process (rows and broadcasts); and a frame: same configuration, nothing emitted, and the directory
  unchanged but for the names \<open>N\<close>.
\<close>

definition same_config :: "'w Service \<Rightarrow> 'w Service \<Rightarrow> bool" where
  "same_config s s' \<longleftrightarrow> dirResolver s' = dirResolver s \<and> audit s' = audit s \<and> core s' = core s \<and>
     tier0KEKProvider s' = tier0KEKProvider s \<and> tier1KEKProvider s' = tier1KEKProvider s"

fun emitted :: "emission \<Rightarrow> bool" where
  "emitted (Audited ev) = True"
| "emitted (Broadcast m) = True"
| "emitted _ = False"

definition trail :: "'w Service \<Rightarrow> emission list" where
  "trail s = filter emitted (outputs s)"

definition touches :: "'w os_lib \<Rightarrow> string \<Rightarrow> string set \<Rightarrow> 'w Service \<Rightarrow> 'w Service \<Rightarrow> bool" where
  "touches os d N s s' \<longleftrightarrow> same_config s s' \<and>
     (\<forall>n. plain n \<longrightarrow> n \<notin> N \<longrightarrow> same_entry os d n (world s) (world s'))"

definition frame :: "'w os_lib \<Rightarrow> string \<Rightarrow> string set \<Rightarrow> 'w Service \<Rightarrow> 'w Service \<Rightarrow> bool" where
  "frame os d N s s' \<longleftrightarrow> touches os d N s s' \<and> trail s' = trail s"

definition same_caches :: "'w Service \<Rightarrow> 'w Service \<Rightarrow> bool" where
  "same_caches s s' \<longleftrightarrow> tier0Master s' = tier0Master s \<and> tier1Master s' = tier1Master s \<and>
     migrationComplete s' = migrationComplete s"

text \<open>The world and the log may change, the entries of the directory under \<open>N\<close> too.\<close>

definition quiet :: "'w os_lib \<Rightarrow> string \<Rightarrow> string set \<Rightarrow> 'w Service \<Rightarrow> 'w Service \<Rightarrow> bool" where
  "quiet os d N s s' \<longleftrightarrow> frame os d N s s' \<and> same_caches s s'"

lemmas frame_defs = same_config_def touches_def frame_def same_caches_def quiet_def

lemma touches_refl [simp]: "touches os d N s s"
  and frame_refl [simp]: "frame os d N s s"
  and quiet_refl [simp]: "quiet os d N s s"
  by (simp_all add: frame_defs)

lemma touches_trans: "touches os d N s s1 \<Longrightarrow> touches os d N s1 s2 \<Longrightarrow> touches os d N s s2"
  by (auto simp: touches_def same_config_def intro: same_entry_trans)

lemma frame_trans: "frame os d N s s1 \<Longrightarrow> frame os d N s1 s2 \<Longrightarrow> frame os d N s s2"
  by (auto simp: frame_def intro: touches_trans)

lemma quiet_trans: "quiet os d N s s1 \<Longrightarrow> quiet os d N s1 s2 \<Longrightarrow> quiet os d N s s2"
  by (auto simp: quiet_def same_caches_def intro: frame_trans)

lemma touches_mono: "touches os d N s s' \<Longrightarrow> N \<subseteq> M \<Longrightarrow> touches os d M s s'"
  by (auto simp: touches_def)

lemma frame_mono: "frame os d N s s' \<Longrightarrow> N \<subseteq> M \<Longrightarrow> frame os d M s s'"
  by (auto simp: frame_def intro: touches_mono)

lemma quiet_mono: "quiet os d N s s' \<Longrightarrow> N \<subseteq> M \<Longrightarrow> quiet os d M s s'"
  by (auto simp: quiet_def intro: frame_mono)

lemma quiet_frame: "quiet os d N s s' \<Longrightarrow> frame os d N s s'"
  and frame_touches: "frame os d N s s' \<Longrightarrow> touches os d N s s'"
  by (simp_all add: quiet_def frame_def)

text \<open>The content under a name of the directory.\<close>

definition file_at :: "'w os_lib \<Rightarrow> string \<Rightarrow> string \<Rightarrow> 'w Service \<Rightarrow> bytes option" where
  "file_at os d n s = (case ReadFile os (world s) (PathJoin os d n) of Inr b \<Rightarrow> Some b | Inl e \<Rightarrow> None)"

definition present :: "'w os_lib \<Rightarrow> string \<Rightarrow> string \<Rightarrow> 'w Service \<Rightarrow> bool" where
  "present os d n s \<longleftrightarrow> stat os s (PathJoin os d n) \<noteq> None"

lemma file_at_Some [simp]:
  "file_at os d n s = Some b \<longleftrightarrow> ReadFile os (world s) (PathJoin os d n) = Inr b"
  by (simp add: file_at_def split: sum.splits)

lemma touches_file_at:
  "touches os d N s s' \<Longrightarrow> plain n \<Longrightarrow> n \<notin> N \<Longrightarrow> file_at os d n s' = file_at os d n s"
  "touches os d N s s' \<Longrightarrow> plain n \<Longrightarrow> n \<notin> N \<Longrightarrow> present os d n s' = present os d n s"
  by (simp_all add: touches_def same_entry_def file_at_def present_def stat_def)

lemma file_at_present:
  "os_sound os d \<Longrightarrow> plain n \<Longrightarrow> file_at os d n s = Some b \<Longrightarrow> present os d n s"
  unfolding file_at_Some present_def stat_def os_sound_def read_sound_def by fastforce

text \<open>The calls on files and entropy.\<close>

lemma write_file_quiet:
  "os_sound os d \<Longrightarrow> plain n \<Longrightarrow> quiet os d {n} s (snd (write_file os (PathJoin os d n) c s))"
  by (auto simp: frame_defs trail_def write_file_def os_sound_def write_sound_def Let_def split_def)

lemma write_file_Inr:
  "os_sound os d \<Longrightarrow> plain n \<Longrightarrow> write_file os (PathJoin os d n) c s = (Inr u, s') \<Longrightarrow>
     file_at os d n s' = Some c"
  by (auto simp: write_file_def os_sound_def write_sound_def Let_def split_def)

lemma remove_file_quiet:
  "os_sound os d \<Longrightarrow> plain n \<Longrightarrow> quiet os d {n} s (snd (remove_file os (PathJoin os d n) s))"
  by (auto simp: frame_defs trail_def remove_file_def os_sound_def remove_sound_def Let_def split_def)

lemma remove_file_Inr:
  "os_sound os d \<Longrightarrow> plain n \<Longrightarrow> remove_file os (PathJoin os d n) s = (Inr u, s') \<Longrightarrow>
     \<not> present os d n s'"
  by (auto simp: remove_file_def present_def stat_def os_sound_def remove_sound_def Let_def split_def)

lemma random_bytes_quiet: "os_sound os d \<Longrightarrow> quiet os d N s (snd (random_bytes os k s))"
  by (auto simp: frame_defs trail_def random_bytes_def os_sound_def entropy_sound_def split_def)

lemma random_bytes_length:
  "os_sound os d \<Longrightarrow> random_bytes os k s = (Inr b, s') \<Longrightarrow> length b = k"
  by (auto simp: random_bytes_def os_sound_def entropy_sound_def split_def)

lemma seal_quiet: "os_sound os d \<Longrightarrow> quiet os d N s (snd (seal os key p s))"
  by (auto simp: frame_defs trail_def seal_def os_sound_def entropy_sound_def split_def)

lemma seal_unseal:
  "sigil_sound os \<Longrightarrow> seal os key p s = (Inr c, s') \<Longrightarrow> p \<noteq> [] \<Longrightarrow>
     sigil_Out os key c = Inr p \<and> length c = 24 + length p + 16"
  unfolding sigil_sound_def seal_def
  by (cases "sigil_In os key p (world s)") (metis fst_conv old.prod.case prod.inject)

lemma Warn_quiet [simp]: "quiet os d N s (Warn msg s)"
  and Info_quiet [simp]: "quiet os d N s (Info msg s)"
  by (simp_all add: frame_defs trail_def Warn_def Info_def)

lemma set_cached_frame [simp]: "frame os d N s (set_cached t m s)"
  by (simp add: frame_defs trail_def set_cached_def)

lemma currentKEKFor_quiet: "quiet os d N s (snd (currentKEKFor t s))"
  by (auto simp: currentKEKFor_def split: option.splits prod.splits)

lemma orWarn_quiet: "quiet os d N s (snd x) \<Longrightarrow> quiet os d N s (snd (orWarn msg x))"
  by (cases x; cases "fst x") (auto simp: orWarn_def intro: quiet_trans)

lemma need_kek_quiet: "quiet os d N s (snd (need_kek t msg s))"
  using currentKEKFor_quiet [of os d N s t]
  by (cases "currentKEKFor t s") (auto simp: need_kek_def split: option.splits)

lemma read_file_Inr [simp]:
  "read_file os p s = (Inr b, s') \<longleftrightarrow> ReadFile os (world s) p = Inr b \<and> s' = s"
  by (auto simp: read_file_def)

lemma unseal_Inr [simp]: "unseal os k c s = (Inr p, s') \<longleftrightarrow> sigil_Out os k c = Inr p \<and> s' = s"
  by (auto simp: unseal_def)

lemma new_sigil_Inr [simp]:
  "new_sigil os k s = (Inr u, s') \<longleftrightarrow> NewChaChaPolySigil os k = None \<and> s' = s"
  by (auto simp: new_sigil_def)

lemma snd_pure_calls [simp]:
  "snd (read_file os p s) = s" "snd (unseal os k c s) = s" "snd (new_sigil os k s) = s"
  by (simp_all add: read_file_def unseal_def new_sigil_def)


text \<open>Frames of calls in sequence.\<close>

named_theorems frame_rules

lemma andThen_quiet [frame_rules]:
  assumes "quiet os d N s (snd x)" and "\<And>a s1. x = (Inr a, s1) \<Longrightarrow> quiet os d N s1 (snd (f a s1))"
  shows "quiet os d N s (snd (andThen x f))"
  using assms by (cases x; cases "fst x") (auto intro: quiet_trans)

lemma andThen_frame [frame_rules]:
  assumes "frame os d N s (snd x)" and "\<And>a s1. x = (Inr a, s1) \<Longrightarrow> frame os d N s1 (snd (f a s1))"
  shows "frame os d N s (snd (andThen x f))"
  using assms by (cases x; cases "fst x") (auto intro: frame_trans)

lemma andThen_touches:
  assumes "touches os d N s (snd x)" and "\<And>a s1. x = (Inr a, s1) \<Longrightarrow> touches os d N s1 (snd (f a s1))"
  shows "touches os d N s (snd (andThen x f))"
  using assms by (cases x; cases "fst x") (auto intro: touches_trans)

lemma write_file_in:
  "os_sound os d \<Longrightarrow> plain n \<Longrightarrow> n \<in> N \<Longrightarrow> quiet os d N s (snd (write_file os (PathJoin os d n) c s))"
  using quiet_mono [OF write_file_quiet] by blast

lemma remove_file_in:
  "os_sound os d \<Longrightarrow> plain n \<Longrightarrow> n \<in> N \<Longrightarrow> quiet os d N s (snd (remove_file os (PathJoin os d n) s))"
  using quiet_mono [OF remove_file_quiet] by blast

lemmas quiet_rules = write_file_in remove_file_in random_bytes_quiet seal_quiet need_kek_quiet
  orWarn_quiet

lemmas frame_of_quiet = quiet_rules [THEN quiet_frame]

declare quiet_rules [frame_rules] and frame_of_quiet [frame_rules]

text \<open>The names the Service owns.\<close>

lemma plain_append:
  "plain n \<Longrightarrow> CHR ''/'' \<notin> set m \<Longrightarrow> 2 \<le> length m \<Longrightarrow> plain (n @ m)"
proof -
  assume n: "plain n" and m: "CHR ''/'' \<notin> set m" "2 \<le> length m"
  then have "3 \<le> length (n @ m)" by (cases n) (simp_all add: plain_def)
  then have "n @ m \<noteq> x" if "length x < 3" for x using that by (metis not_le)
  then have "n @ m \<noteq> ''.''" "n @ m \<noteq> ''..''" by simp_all
  with n m show ?thesis by (simp add: plain_def)
qed

lemma plain_names [simp]:
  "plain masterTier0FileName" "plain masterTier1FileName" "plain legacyMasterFileName"
  "plain (masterFileNameFor t)" "plain (singleInstanceRef @ legacyBlobSuffix)"
  "plain (singleInstanceRef @ tier0BlobSuffix)"
  by (simp_all add: plain_def masterFileNameFor_def keys_consts)

text \<open>The directory resolver answers \<open>d\<close>, whose entries it leaves alone.\<close>

definition pinned :: "'w os_lib \<Rightarrow> string \<Rightarrow> 'w Service \<Rightarrow> bool" where
  "pinned os d s \<longleftrightarrow>
     (\<forall>w. \<exists>w'. (case dirResolver s of Some resolve \<Rightarrow> resolve w | None \<Rightarrow> defaultKeysDir os w) = (Inr d, w') \<and>
        (\<forall>n. plain n \<longrightarrow> same_entry os d n w w'))"

lemma pinned_config: "same_config s s' \<Longrightarrow> pinned os d s' = pinned os d s"
  by (simp add: pinned_def same_config_def)

lemma pinned_touches: "touches os d N s s' \<Longrightarrow> pinned os d s' = pinned os d s"
  by (rule pinned_config) (simp add: touches_def)

lemma keysDir_pinned:
  assumes "pinned os d s"
  obtains s' where "keysDir os s = (Inr d, s')" and "quiet os d N s s'"
proof -
  obtain w where w: "(case dirResolver s of Some resolve \<Rightarrow> resolve (world s)
        | None \<Rightarrow> defaultKeysDir os (world s)) = (Inr d, w)"
      "\<And>n. plain n \<Longrightarrow> same_entry os d n (world s) w"
    using assms unfolding pinned_def by blast
  show thesis
  proof (rule that)
    show "keysDir os s = (Inr d, s\<lparr>world := w\<rparr>)" using w(1) by (simp add: keysDir_def)
    show "quiet os d N s (s\<lparr>world := w\<rparr>)" using w(2) by (simp add: frame_defs trail_def)
  qed
qed

section \<open>Loading, generating and caching a master\<close>

text \<open>
  \<open>provides\<close>: the host answers the key \<open>kek\<close> for the tier; \<open>backed\<close>: the master \<open>m\<close> is on disk,
  wrapped under \<open>kek\<close>.  A tier is \<open>unlocked\<close> with \<open>m\<close> if both hold and no other master is cached;
  it is \<open>coherent\<close> if a cached master is the one on disk.
\<close>

definition provides :: "'w Service \<Rightarrow> tier \<Rightarrow> bytes \<Rightarrow> bool" where
  "provides s t kek \<longleftrightarrow> length kek = masterKeySize \<and>
     (\<exists>provider. provider_for t s = Some provider \<and> (\<forall>w. provider w = (kek, True)))"

definition backed :: "'w os_lib \<Rightarrow> string \<Rightarrow> bytes \<Rightarrow> tier \<Rightarrow> bytes \<Rightarrow> 'w Service \<Rightarrow> bool" where
  "backed os d kek t m s \<longleftrightarrow>
     (\<exists>blob. file_at os d (masterFileNameFor t) s = Some blob \<and> length blob = kekWrappedMasterLen \<and>
        sigil_Out os kek blob = Inr m \<and> length m = masterKeySize)"

definition coherent :: "'w os_lib \<Rightarrow> string \<Rightarrow> bytes \<Rightarrow> tier \<Rightarrow> 'w Service \<Rightarrow> bool" where
  "coherent os d kek t s \<longleftrightarrow> pinned os d s \<and> provides s t kek \<and>
     (length (cached t s) = masterKeySize \<longrightarrow> backed os d kek t (cached t s) s)"

definition unlocked :: "'w os_lib \<Rightarrow> string \<Rightarrow> bytes \<Rightarrow> tier \<Rightarrow> bytes \<Rightarrow> 'w Service \<Rightarrow> bool" where
  "unlocked os d kek t m s \<longleftrightarrow> pinned os d s \<and> provides s t kek \<and> backed os d kek t m s \<and>
     (length (cached t s) = masterKeySize \<longrightarrow> cached t s = m)"

lemma cached_set_cached [simp]:
  "cached t (set_cached u m s) = (if t = u then m else cached t s)"
  by (cases t; cases u) (simp_all add: cached_def set_cached_def)

lemma same_caches_cached: "same_caches s s' \<Longrightarrow> cached t s' = cached t s"
  by (simp add: same_caches_def cached_def)

lemma quiet_cached: "quiet os d N s s' \<Longrightarrow> cached t s' = cached t s"
  by (simp add: quiet_def same_caches_cached)

lemma set_cached_fields [simp]:
  "world (set_cached t m s) = world s" "provider_for u (set_cached t m s) = provider_for u s"
  "outputs (set_cached t m s) = outputs s" "audit (set_cached t m s) = audit s"
  "migrationComplete (set_cached t m s) = migrationComplete s"
  by (simp_all add: set_cached_def provider_for_def split: tier.splits)

lemma set_cached_world [simp]:
  "file_at os d n (set_cached t m s) = file_at os d n s"
  "present os d n (set_cached t m s) = present os d n s"
  "backed os d kek u m' (set_cached t m s) = backed os d kek u m' s"
  "pinned os d (set_cached t m s) = pinned os d s"
  "provides (set_cached t m s) u kek = provides s u kek"
  by (simp_all add: file_at_def present_def stat_def backed_def pinned_def provides_def)
    (simp_all add: set_cached_def)

lemma provides_config: "same_config s s' \<Longrightarrow> provides s' t kek = provides s t kek"
  by (simp add: provides_def same_config_def provider_for_def split: tier.splits)

lemma provides_touches: "touches os d N s s' \<Longrightarrow> provides s' t kek = provides s t kek"
  by (rule provides_config) (simp add: touches_def)

lemma backed_touches:
  "touches os d N s s' \<Longrightarrow> masterFileNameFor t \<notin> N \<Longrightarrow> backed os d kek t m s' = backed os d kek t m s"
  using touches_file_at(1) [of os d N s s' "masterFileNameFor t"]
  unfolding backed_def by simp

lemma unlocked_quiet:
  "quiet os d N s s' \<Longrightarrow> masterFileNameFor t \<notin> N \<Longrightarrow> unlocked os d kek t m s \<Longrightarrow> unlocked os d kek t m s'"
  unfolding unlocked_def quiet_def frame_def
  using pinned_touches provides_touches backed_touches same_caches_cached by metis

lemma coherent_quiet:
  "quiet os d N s s' \<Longrightarrow> masterFileNameFor t \<notin> N \<Longrightarrow> coherent os d kek t s \<Longrightarrow> coherent os d kek t s'"
  unfolding coherent_def quiet_def frame_def
  using pinned_touches provides_touches backed_touches same_caches_cached by metis

lemma unlocked_coherent: "unlocked os d kek t m s \<Longrightarrow> coherent os d kek t s"
  by (auto simp: unlocked_def coherent_def)

lemma need_kek_provides: "provides s t kek \<Longrightarrow> need_kek t msg s = (Inr kek, s)"
  by (auto simp: provides_def need_kek_def currentKEKFor_def)

lemma need_kek_Inr:
  "need_kek t msg s = (Inr kek, s') \<Longrightarrow> s' = s \<and> length kek = masterKeySize \<and> provider_for t s \<noteq> None"
  by (auto simp: need_kek_def currentKEKFor_def split: option.splits prod.splits if_splits)

definition ensure_names :: "tier \<Rightarrow> string set" where
  "ensure_names t =
     (if t = tier0 then {masterTier0FileName, singleInstanceRef @ legacyBlobSuffix,
                         singleInstanceRef @ tier0BlobSuffix}
      else {masterTier1FileName})"

lemma writeMasterLocked_quiet [frame_rules]:
  "os_sound os d \<Longrightarrow> plain n \<Longrightarrow> n \<in> N \<Longrightarrow>
     quiet os d N s (snd (writeMasterLocked os (PathJoin os d n) m kek s))"
  unfolding writeMasterLocked_def by (intro frame_rules) (auto intro!: frame_rules)

text \<open>A frame in which the master of the tier \<open>t\<close> may get cached as well.\<close>

definition settles ::
  "'w os_lib \<Rightarrow> string \<Rightarrow> string set \<Rightarrow> tier \<Rightarrow> 'w Service \<Rightarrow> 'w Service \<Rightarrow> bool" where
  "settles os d N t s s' \<longleftrightarrow> frame os d N s s' \<and> (\<forall>u. u \<noteq> t \<longrightarrow> cached u s' = cached u s) \<and>
     migrationComplete s' = migrationComplete s"

lemma settles_refl [simp]: "settles os d N t s s"
  by (simp add: settles_def)

lemma settles_trans: "settles os d N t s s1 \<Longrightarrow> settles os d N t s1 s2 \<Longrightarrow> settles os d N t s s2"
  by (auto simp: settles_def intro: frame_trans)

lemma settles_mono: "settles os d N t s s' \<Longrightarrow> N \<subseteq> M \<Longrightarrow> settles os d M t s s'"
  by (auto simp: settles_def intro: frame_mono)

lemma quiet_settles: "quiet os d N s s' \<Longrightarrow> settles os d N t s s'"
  by (simp add: settles_def quiet_def same_caches_def cached_def)

lemma settles_touches: "settles os d N t s s' \<Longrightarrow> touches os d N s s'"
  by (simp add: settles_def frame_def)

lemma settles_set_cached [simp]: "settles os d N t s (set_cached t m s)"
  by (simp add: settles_def)

lemma settles_set_cached_after: "settles os d N t s s' \<Longrightarrow> settles os d N t s (set_cached t m s')"
  using settles_trans settles_set_cached by blast

lemma andThen_settles [frame_rules]:
  assumes "settles os d N t s (snd x)" and "\<And>a s1. x = (Inr a, s1) \<Longrightarrow> settles os d N t s1 (snd (f a s1))"
  shows "settles os d N t s (snd (andThen x f))"
  using assms by (cases x; cases "fst x") (auto intro: settles_trans)

lemma unlocked_settles:
  "settles os d N t s s' \<Longrightarrow> u \<noteq> t \<Longrightarrow> masterFileNameFor u \<notin> N \<Longrightarrow> unlocked os d kek u m s \<Longrightarrow>
     unlocked os d kek u m s'"
  unfolding unlocked_def settles_def frame_def
  using pinned_touches provides_touches backed_touches by metis

lemmas settles_of_quiet = quiet_rules [THEN quiet_settles] writeMasterLocked_quiet [THEN quiet_settles]

declare settles_of_quiet [frame_rules]

lemma load_master_settles [frame_rules]:
  "settles os d N t s (snd (load_master os t name msg path s))"
  unfolding load_master_def by (intro frame_rules) (auto intro!: frame_rules intro: quiet_settles)

lemma reseal_frame:
  assumes "os_sound os d"
  shows "quiet os d {singleInstanceRef @ legacyBlobSuffix, singleInstanceRef @ tier0BlobSuffix} s
    (snd (reseal_single_instance os d legacy m s))"
  unfolding reseal_single_instance_def Let_def
  by (auto intro!: frame_rules assms)


lemma ensureMaster_settles:
  assumes "os_sound os d" and "pinned os d s"
  shows "settles os d (ensure_names t) t s (snd (ensureMaster os t s))"
proof -
  note reseal = quiet_settles [OF quiet_mono [OF reseal_frame [OF assms(1)]]]
  have gen: "settles os d (ensure_names tier0) tier0 s (snd (generateTier0Locked os d s))" for s
    unfolding generateTier0Locked_def
    by (auto intro!: frame_rules assms(1) simp: ensure_names_def)
  have mig: "settles os d (ensure_names tier0) tier0 s (snd (migrateTier0FromRawLegacyLocked os d l s))"
    for l s unfolding migrateTier0FromRawLegacyLocked_def
    by (auto intro!: frame_rules assms(1) reseal settles_set_cached_after [OF quiet_settles [OF Info_quiet]]
      simp: ensure_names_def)
  have t0: "settles os d (ensure_names tier0) tier0 s (snd (ensureTier0Locked os d s))" for s
    unfolding ensureTier0Locked_def Let_def by (auto intro!: frame_rules gen mig)
  have t1: "settles os d (ensure_names tier1) tier1 s (snd (ensureTier1Locked os d s))" for s
    unfolding ensureTier1Locked_def Let_def
    by (auto intro!: frame_rules assms(1) simp: ensure_names_def)
  obtain s1 where "keysDir os s = (Inr d, s1)" "settles os d (ensure_names t) t s s1"
    using keysDir_pinned [OF assms(2)] quiet_settles by metis
  then show ?thesis using t0 [of s1] t1 [of s1]
    by (cases t) (auto simp: ensureMaster_def intro: settles_trans)
qed

text \<open>An unlocked tier answers its master, touching nothing.\<close>

lemma load_master_backed:
  assumes "sigil_sound os" and "provides s t kek" and "backed os d kek t m s"
  shows "load_master os t name msg (PathJoin os d (masterFileNameFor t)) s = (Inr m, set_cached t m s)"
proof -
  have "NewChaChaPolySigil os kek = None"
    using assms(1,2) by (simp add: sigil_sound_def provides_def)
  with assms(2,3) show ?thesis
    by (auto simp: load_master_def backed_def read_file_def need_kek_provides new_sigil_def unseal_def)
qed

lemma backed_present: "os_sound os d \<Longrightarrow> backed os d kek t m s \<Longrightarrow> present os d (masterFileNameFor t) s"
  unfolding backed_def by (auto intro: file_at_present simp del: file_at_Some)

lemma ensureMaster_unlocked:
  assumes "os_sound os d" and "sigil_sound os" and "unlocked os d kek t m s"
  obtains s' where "ensureMaster os t s = (Inr m, s')" and "settles os d {} t s s'"
    and "unlocked os d kek t m s'" and "cached t s' = m"
proof (cases "length (cached t s) = masterKeySize")
  case True
  with assms(3) show thesis by (intro that [of s]) (auto simp: ensureMaster_def unlocked_def)
next
  case False
  obtain s1 where s1: "keysDir os s = (Inr d, s1)" "quiet os d {} s s1"
    using keysDir_pinned assms(3) unfolding unlocked_def by metis
  then have u1: "unlocked os d kek t m s1" using unlocked_quiet assms(3) by blast
  then have b: "present os d (masterFileNameFor t) s1" "backed os d kek t m s1" "provides s1 t kek"
    using backed_present [OF assms(1)] by (auto simp: unlocked_def)
  have "ensureMaster os t s = (Inr m, set_cached t m s1)"
    using False s1(1) b(1) load_master_backed [OF assms(2) b(3,2)]
    by (cases t) (simp_all add: ensureMaster_def ensureTier0Locked_def ensureTier1Locked_def
        Let_def present_def masterFileNameFor_def)
  moreover have "settles os d {} t s (set_cached t m s1)"
    using s1(2) quiet_settles settles_set_cached_after by blast
  moreover have "unlocked os d kek t m (set_cached t m s1)"
    using u1 by (auto simp: unlocked_def)
  ultimately show thesis by (rule that) simp
qed

text \<open>A master that was just written is backed.\<close>

lemma writeMasterLocked_backed:
  assumes "os_sound os d" and "sigil_sound os" and "length m = masterKeySize"
    and "writeMasterLocked os (PathJoin os d (masterFileNameFor t)) m kek s = (Inr u, s')"
  shows "backed os d kek t m s'"
proof -
  obtain blob s1 where w: "seal os kek m s = (Inr blob, s1)"
      "write_file os (PathJoin os d (masterFileNameFor t)) blob s1 = (Inr u, s')"
    using assms(4) by (auto simp: writeMasterLocked_def)
  have "m \<noteq> []" using assms(3) by (auto simp: masterKeySize_def)
  with seal_unseal [OF assms(2) w(1)] write_file_Inr [OF assms(1) _ w(2)] assms(3)
  show ?thesis by (simp add: backed_def kekWrappedMasterLen_def)
qed

lemma ensureTier1_Inr:
  assumes "os_sound os d" and "sigil_sound os" and "provides s tier1 kek"
    and "ensureTier1Locked os d s = (Inr m, s')"
  shows "backed os d kek tier1 m s' \<and> cached tier1 s' = m"
proof (cases "present os d masterTier1FileName s")
  case True
  then have "load_master os tier1 ''tier-1'' ''keys.no_tier1_provider: tier-1 KEK provider unavailable; unlock the account first'' (PathJoin os d masterTier1FileName) s = (Inr m, s')"
    using assms(4) by (simp add: ensureTier1Locked_def Let_def present_def)
  then show ?thesis
    using assms(3) by (auto simp: load_master_def need_kek_provides backed_def masterFileNameFor_def split: if_splits)
next
  case False
  then obtain s2 s3 u where r: "random_bytes os masterKeySize s = (Inr m, s2)"
      "writeMasterLocked os (PathJoin os d (masterFileNameFor tier1)) m kek s2 = (Inr u, s3)"
      "s' = set_cached tier1 m s3"
    using assms(3,4) by (auto simp: ensureTier1Locked_def Let_def present_def need_kek_provides masterFileNameFor_def)
  with writeMasterLocked_backed [OF assms(1,2) random_bytes_length [OF assms(1) r(1)] r(2)]
  show ?thesis by simp
qed


lemma load_master_Inr:
  assumes "provides s t kek"
    and "load_master os t name msg (PathJoin os d (masterFileNameFor t)) s = (Inr m, s')"
  shows "s' = set_cached t m s" and "backed os d kek t m s"
  using assms by (auto simp: load_master_def need_kek_provides backed_def split: if_splits)

text \<open>What the boot-time migration of a raw legacy master leaves: the tier-0 master on disk.\<close>

lemma migrateTier0_Inr:
  assumes "os_sound os d" and "sigil_sound os" and "provides s tier0 kek"
    and "migrateTier0FromRawLegacyLocked os d legacy s = (Inr m, s')"
  shows "backed os d kek tier0 m s' \<and> cached tier0 s' = m"
proof -
  obtain s1 s2 s3 where r: "random_bytes os masterKeySize s = (Inr m, s1)"
      "writeMasterLocked os (PathJoin os d (masterFileNameFor tier0)) m kek s1 = (Inr (), s2)"
      "reseal_single_instance os d legacy m s2 = (Inr (), s3)"
      "s' = set_cached tier0 m (Info ''keys: tier-0 sub-migration complete at boot (legacy install)'' s3)"
    using assms(3,4)
    by (auto simp: migrateTier0FromRawLegacyLocked_def need_kek_provides masterFileNameFor_def split: if_splits)
  have "touches os d {singleInstanceRef @ legacyBlobSuffix, singleInstanceRef @ tier0BlobSuffix} s2 s3"
    using reseal_frame [OF assms(1), of s2 legacy m] r(3) by (auto simp: quiet_def frame_def)
  then have "backed os d kek tier0 m s3"
    using backed_touches [of os d _ s2 s3 tier0 kek m]
      writeMasterLocked_backed [OF assms(1,2) random_bytes_length [OF assms(1) r(1)] r(2)]
    by (simp add: masterFileNameFor_def keys_consts)
  then show ?thesis using r(4) by (simp add: Info_def backed_def)
qed

lemma ensureTier0_Inr:
  assumes "os_sound os d" and "sigil_sound os" and "provides s tier0 kek"
    and "ensureTier0Locked os d s = (Inr m, s')"
  shows "backed os d kek tier0 m s' \<and> cached tier0 s' = m"
proof -
  consider (present) "present os d masterTier0FileName s"
    | (legacy) legacy where "migrateTier0FromRawLegacyLocked os d legacy s = (Inr m, s')"
    | (fresh) "generateTier0Locked os d s = (Inr m, s')"
    using assms(4) by (auto simp: ensureTier0Locked_def Let_def present_def split: if_splits)
  then show ?thesis
  proof cases
    case present
    then have "load_master os tier0 ''tier-0'' ''keys.no_tier0_provider: tier-0 KEK provider unavailable; .seed substrate must be wired before tier-0 ops'' (PathJoin os d (masterFileNameFor tier0)) s = (Inr m, s')"
      using assms(4) by (simp add: ensureTier0Locked_def Let_def present_def masterFileNameFor_def)
    from load_master_Inr [OF assms(3) this] show ?thesis by simp
  next
    case legacy
    from migrateTier0_Inr [OF assms(1-3) this] show ?thesis .
  next
    case fresh
    then obtain s2 s3 u where r: "random_bytes os masterKeySize s = (Inr m, s2)"
        "writeMasterLocked os (PathJoin os d (masterFileNameFor tier0)) m kek s2 = (Inr u, s3)"
        "s' = set_cached tier0 m s3"
      using assms(3) by (auto simp: generateTier0Locked_def need_kek_provides masterFileNameFor_def)
    with writeMasterLocked_backed [OF assms(1,2) random_bytes_length [OF assms(1) r(1)] r(2)]
    show ?thesis by simp
  qed
qed

lemma ensureMaster_Inr:
  assumes "os_sound os d" and "sigil_sound os" and "coherent os d kek t s"
    and "ensureMaster os t s = (Inr m, s')"
  shows "unlocked os d kek t m s'" and "cached t s' = m"
proof -
  have "settles os d (ensure_names t) t s s'"
    using ensureMaster_settles [OF assms(1), of s t] assms(3,4) by (simp add: coherent_def)
  note t = settles_touches [OF this]
  have p: "pinned os d s'" "provides s' t kek"
    using assms(3) by (simp_all add: coherent_def pinned_touches [OF t] provides_touches [OF t])
  have "backed os d kek t m s' \<and> cached t s' = m"
  proof (cases "length (cached t s) = masterKeySize")
    case True
    with assms(3,4) show ?thesis by (auto simp: ensureMaster_def coherent_def)
  next
    case False
    obtain s1 where s1: "keysDir os s = (Inr d, s1)" "quiet os d {} s s1"
      using keysDir_pinned assms(3) unfolding coherent_def by metis
    then have pr: "provides s1 t kek"
      using assms(3) provides_touches [OF settles_touches [OF quiet_settles [OF s1(2)]]]
      by (simp add: coherent_def)
    show ?thesis
    proof (cases t)
      case tier0
      with False s1(1) assms(4) have "ensureTier0Locked os d s1 = (Inr m, s')"
        by (simp add: ensureMaster_def)
      with ensureTier0_Inr [OF assms(1,2)] pr tier0 show ?thesis by simp
    next
      case tier1
      with False s1(1) assms(4) have "ensureTier1Locked os d s1 = (Inr m, s')"
        by (simp add: ensureMaster_def)
      with ensureTier1_Inr [OF assms(1,2)] pr tier1 show ?thesis by simp
    qed
  qed
  with p show "unlocked os d kek t m s'" and "cached t s' = m" by (auto simp: unlocked_def)
qed

text \<open>Restarting: a shutdown forgets the masters and no more.\<close>

lemma shutdown_unlocked:
  "unlocked os d kek t m s \<Longrightarrow> unlocked os d kek t m (snd (ServiceShutdown s))"
  by (auto simp: unlocked_def ServiceShutdown_def masterKeySize_def)

text \<open>The caches hold nothing or a master.\<close>

definition typed :: "'w Service \<Rightarrow> bool" where
  "typed s \<longleftrightarrow> (\<forall>t. cached t s = [] \<or> length (cached t s) = masterKeySize)"

lemma typed_quiet: "quiet os d N s s' \<Longrightarrow> typed s \<Longrightarrow> typed s'"
  using same_caches_cached [of s s'] by (simp add: typed_def quiet_def)

section \<open>Refs\<close>

definition valid_ref :: "string \<Rightarrow> bool" where
  "valid_ref ref \<longleftrightarrow> ref \<noteq> [] \<and> CHR ''/'' \<notin> set ref \<and> CHR 0x5C \<notin> set ref \<and> hd ref \<noteq> CHR ''.'' \<and>
     CHR 0x00 \<notin> set ref \<and> \<not> hasTierSuffix ref"

lemma HasPrefix_dot: "HasPrefix ref ''.'' \<longleftrightarrow> ref \<noteq> [] \<and> hd ref = CHR ''.''"
  by (cases ref) auto

lemma keyPath_valid:
  "valid_ref ref \<Longrightarrow> keyPath os ref t s =
     andThen (keysDir os s) (\<lambda>dir s. (Inr (PathJoin os dir (ref @ blobSuffixFor t)), s))"
  by (simp add: keyPath_def valid_ref_def HasPrefix_dot)

lemma keyPath_invalid: "\<not> valid_ref ref \<Longrightarrow> \<exists>e. keyPath os ref t s = (Inl e, s)"
  by (auto simp: keyPath_def valid_ref_def HasPrefix_dot)

text \<open>A tier suffix is a dot, a \<^verbatim>\<open>t\<close>, a digit and \<^verbatim>\<open>.aead\<close>; the names of blobs have one.\<close>

lemma hasTierSuffix_append:
  "hasTierSuffix (rem @ ''.aead'') \<longleftrightarrow> 3 \<le> length rem \<and> rem ! (length rem - 3) = CHR ''.'' \<and>
     rem ! (length rem - 2) = CHR ''t'' \<and> digit_val (rem ! (length rem - 1)) \<noteq> None"
  by (auto simp: hasTierSuffix_def Let_def digit_val_def)

lemma last_three:
  "3 \<le> length xs \<Longrightarrow>
     xs = take (length xs - 3) xs @ [xs ! (length xs - 3), xs ! (length xs - 2), xs ! (length xs - 1)]"
  by (rule nth_equalityI) (auto simp: nth_append nth_Cons' not_less intro!: arg_cong [of _ _ "(!) xs"])

lemma hasTierSuffix_iff:
  "hasTierSuffix ref \<longleftrightarrow> (\<exists>p c. ref = p @ ''.t'' @ [c] @ ''.aead'' \<and> digit_val c \<noteq> None)"
proof
  assume h: "hasTierSuffix ref"
  then have "HasSuffix ref ''.aead''" by (simp add: hasTierSuffix_def Let_def split: if_splits)
  then obtain rem where ref: "ref = rem @ ''.aead''" by (auto simp: HasSuffix_iff)
  with h last_three [of rem]
  have "rem = take (length rem - 3) rem @ ''.t'' @ [rem ! (length rem - 1)]"
    "digit_val (rem ! (length rem - 1)) \<noteq> None"
    by (simp_all add: hasTierSuffix_append)
  with ref show "\<exists>p c. ref = p @ ''.t'' @ [c] @ ''.aead'' \<and> digit_val c \<noteq> None"
    by (metis append.assoc)
next
  assume "\<exists>p c. ref = p @ ''.t'' @ [c] @ ''.aead'' \<and> digit_val c \<noteq> None"
  then obtain p c where "ref = (p @ ''.t'' @ [c]) @ ''.aead''" "digit_val c \<noteq> None" by auto
  then show "hasTierSuffix ref"
    unfolding \<open>ref = _\<close> hasTierSuffix_append by (simp add: nth_append)
qed

lemma blobSuffixFor_simps [simp]:
  "blobSuffixFor tier0 = ''.t0.aead''" "blobSuffixFor tier1 = ''.t1.aead''"
  by (simp_all add: blobSuffixFor_def keys_consts)

lemma blob_name_inj:
  "ref @ blobSuffixFor t = ref' @ blobSuffixFor t' \<longleftrightarrow> ref = ref' \<and> t = t'"
  by (cases t; cases t') (auto simp: append_eq_append_conv)

lemma blob_not_master: "ref @ blobSuffixFor t \<noteq> masterFileNameFor u"
  by (cases t; cases u)
    (auto simp: masterFileNameFor_def keys_consts dest!: arg_cong [of _ _ last])

lemma plain_blob: "valid_ref ref \<Longrightarrow> plain (ref @ blobSuffixFor t)"
  by (cases t) (auto simp: valid_ref_def plain_def append_eq_Cons_conv)


text \<open>A load or generation that fails caches nothing.\<close>

definition clean :: "'w Service \<Rightarrow> 'a res \<times> 'w Service \<Rightarrow> bool" where
  "clean s x \<longleftrightarrow> (\<forall>e. fst x = Inl e \<longrightarrow> same_caches s (snd x))"

lemma clean_simps [simp]: "clean s (Inr a, s')" "clean s (Inl e, s)"
  by (simp_all add: clean_def same_caches_def)

lemma clean_quiet: "quiet os d N s (snd x) \<Longrightarrow> clean s x"
  by (simp add: clean_def quiet_def)

lemma andThen_clean:
  assumes "quiet os d UNIV s (snd x)" and "\<And>a s1. x = (Inr a, s1) \<Longrightarrow> clean s1 (f a s1)"
  shows "clean s (andThen x f)"
  using assms by (cases x; cases "fst x") (auto simp: clean_def quiet_def same_caches_def)

lemma load_master_clean: "clean s (load_master os t name msg path s)"
  unfolding load_master_def
  by (auto intro!: andThen_clean frame_rules)

lemma ensureMaster_Inl_cache:
  assumes "os_sound os d" and "pinned os d s" and "ensureMaster os t s = (Inl e, s')"
  shows "same_caches s s'"
proof -
  note R = andThen_clean frame_rules assms(1) quiet_mono [OF reseal_frame [OF assms(1)]]
  have gen: "clean s (generateTier0Locked os d s)" for s
    unfolding generateTier0Locked_def by (auto intro!: R)
  have mig: "clean s (migrateTier0FromRawLegacyLocked os d l s)" for l s
    unfolding migrateTier0FromRawLegacyLocked_def by (auto intro!: R)
  have t0: "clean s (ensureTier0Locked os d s)" for s
    unfolding ensureTier0Locked_def Let_def by (auto intro!: R gen mig load_master_clean)
  have t1: "clean s (ensureTier1Locked os d s)" for s
    unfolding ensureTier1Locked_def Let_def by (auto intro!: R load_master_clean)
  obtain s1 where s1: "keysDir os s = (Inr d, s1)" "quiet os d {} s s1"
    using keysDir_pinned [OF assms(2)] by metis
  then have "same_caches s1 s'"
    using assms(3) t0 [of s1] t1 [of s1] by (cases t) (auto simp: ensureMaster_def clean_def split: if_splits)
  with s1(2) show ?thesis by (simp add: quiet_def same_caches_def)
qed

end
