(* ===== verification/KeysApi.thy ===== *)
theory KeysApi
  imports Keys
begin

text \<open>
  The operations of \<^verbatim>\<open>go/keys/service.go\<close> on blobs: put, get, has, delete, list and get-or-create for
  each tier, the forms the frontend calls, the single-instance key, and the audit rows and broadcasts
  they emit.  The locale \<open>vault\<close> states what a tier promises its clients, and is interpreted on the
  operations of each tier.
\<close>

section \<open>Rows and broadcasts\<close>

text \<open>
  The recorder that stands in where none was injected: its \<^verbatim>\<open>Record\<close> drops the row, its codes are
  empty.
\<close>

definition noopAuditRecorder :: AuditRecorder where
  "noopAuditRecorder = \<lparr>ErrorCode = (\<lambda>_. [])\<rparr>"

definition auditRecorder :: "'w Service \<Rightarrow> AuditRecorder" where
  "auditRecorder s = (case audit s of Some rec \<Rightarrow> rec | None \<Rightarrow> noopAuditRecorder)"

definition emitKeysAudit ::
  "'w os_lib \<Rightarrow> string \<Rightarrow> string \<Rightarrow> string \<Rightarrow> string \<Rightarrow> string \<Rightarrow> 'w Service \<Rightarrow> 'w Service" where
  "emitKeysAudit os event ref kind source errCode s =
     (let meta = [''ref'' \<mapsto> ref, ''kind'' \<mapsto> kind, ''tier'' \<mapsto> kind, ''source'' \<mapsto> source];
          (outcome, meta) = (if errCode \<noteq> [] then (''error'', meta(''error_code'' \<mapsto> errCode))
                             else (''ok'', meta))
      in case audit s of
           None \<Rightarrow> s
         | Some rec \<Rightarrow> s\<lparr>outputs := outputs s @
             [Audited \<lparr>Event = event, TS = Unix os (world s), Scope = ''keys'', Outcome = outcome,
                       Meta = meta\<rparr>]\<rparr>)"

definition auditErrorCode :: "'w Service \<Rightarrow> err \<Rightarrow> string" where
  "auditErrorCode s e = ErrorCode (auditRecorder s) e"

lemma auditErrorCode_cases:
  "auditErrorCode s e = (case audit s of None \<Rightarrow> [] | Some rec \<Rightarrow> ErrorCode rec e)"
  by (simp add: auditErrorCode_def auditRecorder_def noopAuditRecorder_def split: option.split)

definition broadcastTier1Change :: "string \<Rightarrow> string \<Rightarrow> 'w Service \<Rightarrow> 'w Service" where
  "broadcastTier1Change kind ref s =
     (if core s then s\<lparr>outputs := outputs s @ [Broadcast \<lparr>Kind = kind, Ref = ref\<rparr>]\<rparr> else s)"

text \<open>The row for the outcome of an operation: the error code of a failure, empty for success.\<close>

definition outcome_code :: "'w Service \<Rightarrow> 'a res \<Rightarrow> string" where
  "outcome_code s r = (case r of Inl e \<Rightarrow> auditErrorCode s e | Inr _ \<Rightarrow> [])"

section \<open>Operations\<close>

definition putLocked ::
  "'w os_lib \<Rightarrow> tier \<Rightarrow> string \<Rightarrow> bytes \<Rightarrow> bytes \<Rightarrow> 'w Service \<Rightarrow> unit res \<times> 'w Service" where
  "putLocked os t ref plaintext master s =
     andThen (keyPath os ref t s) (\<lambda>path s.
     andThen (failAs ''keys.put'' ''init sigil'' (new_sigil os master s)) (\<lambda>_ s.
     andThen (failAs ''keys.put'' ''seal'' (seal os master plaintext s)) (\<lambda>blob s.
     failAs ''keys.put'' ''write ciphertext'' (write_file os path blob s))))"

definition getLocked ::
  "'w os_lib \<Rightarrow> tier \<Rightarrow> string \<Rightarrow> bytes \<Rightarrow> 'w Service \<Rightarrow> bytes res \<times> 'w Service" where
  "getLocked os t ref master s =
     andThen (keyPath os ref t s) (\<lambda>path s.
     andThen (failAs ''keys.get'' ''read ciphertext'' (read_file os path s)) (\<lambda>blob s.
     andThen (failAs ''keys.get'' ''init sigil'' (new_sigil os master s)) (\<lambda>_ s.
     failAs ''keys.get'' ''open ciphertext'' (unseal os master blob s))))"

definition putTier0WithSource ::
  "'w os_lib \<Rightarrow> string \<Rightarrow> bytes \<Rightarrow> string \<Rightarrow> 'w Service \<Rightarrow> unit res \<times> 'w Service" where
  "putTier0WithSource os ref plaintext source s =
     (case ensureMaster os tier0 s of
        (Inl e, s) \<Rightarrow>
          (Inl e, emitKeysAudit os ''keys.tier0.stored'' ref ''tier0'' source (auditErrorCode s e) s)
      | (Inr master, s) \<Rightarrow>
          case putLocked os tier0 ref plaintext master s of
            (r, s) \<Rightarrow> (r, emitKeysAudit os ''keys.tier0.stored'' ref ''tier0'' source (outcome_code s r) s))"

definition PutTier0 :: "'w os_lib \<Rightarrow> string \<Rightarrow> bytes \<Rightarrow> 'w Service \<Rightarrow> unit res \<times> 'w Service" where
  "PutTier0 os ref plaintext s = putTier0WithSource os ref plaintext ''internal'' s"

definition GetTier0 :: "'w os_lib \<Rightarrow> string \<Rightarrow> 'w Service \<Rightarrow> bytes res \<times> 'w Service" where
  "GetTier0 os ref s = andThen (ensureMaster os tier0 s) (\<lambda>master s. getLocked os tier0 ref master s)"

definition HasTier0 :: "'w os_lib \<Rightarrow> string \<Rightarrow> 'w Service \<Rightarrow> bool res \<times> 'w Service" where
  "HasTier0 os ref s = andThen (keyPath os ref tier0 s) (\<lambda>path s. (Inr (stat os s path \<noteq> None), s))"

definition deleteTier0WithSource ::
  "'w os_lib \<Rightarrow> string \<Rightarrow> string \<Rightarrow> 'w Service \<Rightarrow> unit res \<times> 'w Service" where
  "deleteTier0WithSource os ref source s =
     (let row = emitKeysAudit os ''keys.tier0.deleted'' ref ''tier0'' source in
      case keyPath os ref tier0 s of
        (Inl e, s) \<Rightarrow> (Inl e, row (auditErrorCode s e) s)
      | (Inr path, s) \<Rightarrow>
          if stat os s path = None then (Inr (), s)
          else case failAs ''keys.DeleteTier0'' ''remove ciphertext'' (remove_file os path s) of
            (Inl e, s) \<Rightarrow> (Inl e, row (auditErrorCode s e) s)
          | (Inr _, s) \<Rightarrow> (Inr (), row [] s))"

definition DeleteTier0 :: "'w os_lib \<Rightarrow> string \<Rightarrow> 'w Service \<Rightarrow> unit res \<times> 'w Service" where
  "DeleteTier0 os ref s = deleteTier0WithSource os ref ''internal'' s"

definition HasTier1 :: "'w os_lib \<Rightarrow> string \<Rightarrow> 'w Service \<Rightarrow> bool res \<times> 'w Service" where
  "HasTier1 os ref s = andThen (keyPath os ref tier1 s) (\<lambda>path s. (Inr (stat os s path \<noteq> None), s))"

definition putTier1WithSource ::
  "'w os_lib \<Rightarrow> string \<Rightarrow> bytes \<Rightarrow> string \<Rightarrow> 'w Service \<Rightarrow> unit res \<times> 'w Service" where
  "putTier1WithSource os ref plaintext source s =
     (case ensureMaster os tier1 s of
        (Inl e, s) \<Rightarrow>
          (case HasTier1 os ref s of (h, s) \<Rightarrow>
            let event = (if h = Inr True then ''keys.tier1.replaced'' else ''keys.tier1.stored'') in
            (Inl e, emitKeysAudit os event ref ''tier1'' source (auditErrorCode s e) s))
      | (Inr master, s) \<Rightarrow>
          (case HasTier1 os ref s of (h, s) \<Rightarrow>
            let wasPresent = (h = Inr True);
                event = (if wasPresent then ''keys.tier1.replaced'' else ''keys.tier1.stored'')
            in case putLocked os tier1 ref plaintext master s of
                 (Inl e, s) \<Rightarrow> (Inl e, emitKeysAudit os event ref ''tier1'' source (auditErrorCode s e) s)
               | (Inr u, s) \<Rightarrow>
                   let s = (if wasPresent then broadcastTier1Change ''replaced'' ref s else s)
                   in (Inr u, emitKeysAudit os event ref ''tier1'' source [] s)))"

definition PutTier1 :: "'w os_lib \<Rightarrow> string \<Rightarrow> bytes \<Rightarrow> 'w Service \<Rightarrow> unit res \<times> 'w Service" where
  "PutTier1 os ref plaintext s = putTier1WithSource os ref plaintext ''internal'' s"

definition GetTier1 :: "'w os_lib \<Rightarrow> string \<Rightarrow> 'w Service \<Rightarrow> bytes res \<times> 'w Service" where
  "GetTier1 os ref s = andThen (ensureMaster os tier1 s) (\<lambda>master s. getLocked os tier1 ref master s)"

definition deleteTier1WithSource ::
  "'w os_lib \<Rightarrow> string \<Rightarrow> string \<Rightarrow> 'w Service \<Rightarrow> unit res \<times> 'w Service" where
  "deleteTier1WithSource os ref source s =
     (let row = emitKeysAudit os ''keys.tier1.deleted'' ref ''tier1'' source in
      case keyPath os ref tier1 s of
        (Inl e, s) \<Rightarrow> (Inl e, row (auditErrorCode s e) s)
      | (Inr path, s) \<Rightarrow>
          if stat os s path = None then (Inr (), s)
          else case failAs ''keys.DeleteTier1'' ''remove ciphertext'' (remove_file os path s) of
            (Inl e, s) \<Rightarrow> (Inl e, row (auditErrorCode s e) s)
          | (Inr _, s) \<Rightarrow> (Inr (), row [] (broadcastTier1Change ''deleted'' ref s)))"

definition DeleteTier1 :: "'w os_lib \<Rightarrow> string \<Rightarrow> 'w Service \<Rightarrow> unit res \<times> 'w Service" where
  "DeleteTier1 os ref s = deleteTier1WithSource os ref ''internal'' s"

fun list_entries :: "string \<Rightarrow> (string \<times> bool) list \<Rightarrow> string list" where
  "list_entries suffix [] = []"
| "list_entries suffix ((name, isDir) # es) =
     (if isDir then list_entries suffix es
      else if \<not> HasSuffix name suffix then list_entries suffix es
      else take (length name - length suffix) name # list_entries suffix es)"

definition listTier :: "'w os_lib \<Rightarrow> tier \<Rightarrow> 'w Service \<Rightarrow> string list res \<times> 'w Service" where
  "listTier os t s =
     andThen (keysDir os s) (\<lambda>dir s.
     andThen (failAs ''keys.list'' ''read keys dir'' (ReadDir os (world s) dir, s)) (\<lambda>es s.
     (Inr (list_entries (blobSuffixFor t) es), s)))"

definition ListTier0 :: "'w os_lib \<Rightarrow> 'w Service \<Rightarrow> string list res \<times> 'w Service" where
  "ListTier0 os s = listTier os tier0 s"

definition ListTier1 :: "'w os_lib \<Rightarrow> 'w Service \<Rightarrow> string list res \<times> 'w Service" where
  "ListTier1 os s = listTier os tier1 s"

definition getByTier :: "'w os_lib \<Rightarrow> tier \<Rightarrow> string \<Rightarrow> 'w Service \<Rightarrow> bytes res \<times> 'w Service" where
  "getByTier os t ref s = (if t = tier0 then GetTier0 os ref s else GetTier1 os ref s)"

definition putByTier ::
  "'w os_lib \<Rightarrow> tier \<Rightarrow> string \<Rightarrow> bytes \<Rightarrow> 'w Service \<Rightarrow> unit res \<times> 'w Service" where
  "putByTier os t ref plaintext s =
     (if t = tier0 then PutTier0 os ref plaintext s else PutTier1 os ref plaintext s)"

text \<open>
  Get-or-create: \<open>getOrCreate_slow\<close> is the part under \<^verbatim>\<open>getOrCreateMu\<close>, which a caller enters after
  its first look has missed and other callers may have run in between.
\<close>

definition getOrCreate_slow ::
  "'w os_lib \<Rightarrow> tier \<Rightarrow> string \<Rightarrow> ('w \<Rightarrow> bytes res \<times> 'w) \<Rightarrow> 'w Service \<Rightarrow> bytes res \<times> 'w Service" where
  "getOrCreate_slow os t ref generate s =
     (case getByTier os t ref s of
        (Inr key, s) \<Rightarrow> (Inr key, s)
      | (Inl _, s) \<Rightarrow>
          (case generate (world s) of
             (Inl e, w) \<Rightarrow> (Inl (E ''keys.GetOrCreate'' ''generate'' (Some e)), s\<lparr>world := w\<rparr>)
           | (Inr raw, w) \<Rightarrow>
               andThen (putByTier os t ref raw (s\<lparr>world := w\<rparr>)) (\<lambda>_ s. (Inr raw, s))))"

definition getOrCreate ::
  "'w os_lib \<Rightarrow> tier \<Rightarrow> string \<Rightarrow> ('w \<Rightarrow> bytes res \<times> 'w) \<Rightarrow> 'w Service \<Rightarrow> bytes res \<times> 'w Service" where
  "getOrCreate os t ref generate s =
     (case getByTier os t ref s of
        (Inr key, s) \<Rightarrow> (Inr key, s)
      | (Inl _, s) \<Rightarrow> getOrCreate_slow os t ref generate s)"

definition GetOrCreateTier0 ::
  "'w os_lib \<Rightarrow> string \<Rightarrow> ('w \<Rightarrow> bytes res \<times> 'w) \<Rightarrow> 'w Service \<Rightarrow> bytes res \<times> 'w Service" where
  "GetOrCreateTier0 os ref generate s = getOrCreate os tier0 ref generate s"

definition GetOrCreateTier1 ::
  "'w os_lib \<Rightarrow> string \<Rightarrow> ('w \<Rightarrow> bytes res \<times> 'w) \<Rightarrow> 'w Service \<Rightarrow> bytes res \<times> 'w Service" where
  "GetOrCreateTier1 os ref generate s = getOrCreate os tier1 ref generate s"

definition WPutTier1 :: "'w os_lib \<Rightarrow> string \<Rightarrow> string \<Rightarrow> 'w Service \<Rightarrow> unit res \<times> 'w Service" where
  "WPutTier1 os ref plaintext s = putTier1WithSource os ref (bytes_of_string plaintext) ''wails_input'' s"

definition WListTier1 :: "'w os_lib \<Rightarrow> 'w Service \<Rightarrow> string list res \<times> 'w Service" where
  "WListTier1 os s = ListTier1 os s"

definition WHasTier1 :: "'w os_lib \<Rightarrow> string \<Rightarrow> 'w Service \<Rightarrow> bool res \<times> 'w Service" where
  "WHasTier1 os ref s = HasTier1 os ref s"

definition WDeleteTier1 :: "'w os_lib \<Rightarrow> string \<Rightarrow> 'w Service \<Rightarrow> unit res \<times> 'w Service" where
  "WDeleteTier1 os ref s = deleteTier1WithSource os ref ''wails_input'' s"

definition SingleInstanceKey :: "'w os_lib \<Rightarrow> 'w Service \<Rightarrow> bytes res \<times> 'w Service" where
  "SingleInstanceKey os s =
     andThen (GetOrCreateTier0 os singleInstanceRef (RandomBytes os masterKeySize) s) (\<lambda>raw s.
     if length raw \<noteq> masterKeySize
     then (Inl (NewError ''keys.SingleInstanceKey: stored key has wrong length''), s)
     else (Inr raw, s))"


section \<open>What a tier holds\<close>

definition secrets :: "'w os_lib \<Rightarrow> string \<Rightarrow> bytes \<Rightarrow> tier \<Rightarrow> 'w Service \<Rightarrow> string \<rightharpoonup> bytes" where
  "secrets os d m t s ref =
     (if valid_ref ref
      then case file_at os d (ref @ blobSuffixFor t) s of
             None \<Rightarrow> None
           | Some blob \<Rightarrow> (case sigil_Out os m blob of Inr p \<Rightarrow> Some p | Inl e \<Rightarrow> None)
      else None)"

text \<open>Emitting appends outputs and changes nothing else.\<close>

definition emits :: "'w Service \<Rightarrow> 'w Service \<Rightarrow> bool" where
  "emits s s' \<longleftrightarrow> (\<exists>out. s' = s\<lparr>outputs := outputs s @ out\<rparr>)"

lemma emits_refl [simp]: "emits s s"
  unfolding emits_def by (rule exI [of _ "[]"]) simp

lemma emits_trans: "emits s s1 \<Longrightarrow> emits s1 s2 \<Longrightarrow> emits s s2"
  by (auto simp: emits_def)

lemma emits_audit [simp]: "emits s (emitKeysAudit os event ref kind source code s)"
  unfolding emits_def emitKeysAudit_def Let_def
  by (cases "audit s") (auto intro: exI [of _ "[]"])

lemma emits_broadcast [simp]: "emits s (broadcastTier1Change kind ref s)"
  unfolding emits_def broadcastTier1Change_def by (auto intro: exI [of _ "[]"])

lemma emits_both [simp]:
  "emits s (emitKeysAudit os event ref kind source code (broadcastTier1Change c r s))"
  using emits_trans [OF emits_broadcast emits_audit] .

lemma emits_touches: "emits s s' \<Longrightarrow> touches os d N s s'"
  by (auto simp: emits_def touches_def same_config_def)

lemma emits_same:
  assumes "emits s s'"
  shows "file_at os d n s' = file_at os d n s" "present os d n s' = present os d n s"
    "cached t s' = cached t s" "secrets os d m t s' = secrets os d m t s"
    "unlocked os d kek t m s' = unlocked os d kek t m s"
    "coherent os d kek t s' = coherent os d kek t s"
    "migrationComplete s' = migrationComplete s" "world s' = world s"
proof -
  obtain out where s': "s' = s\<lparr>outputs := outputs s @ out\<rparr>" using assms by (auto simp: emits_def)
  note t = emits_touches [OF assms, of os d "{}"]
  show f: "file_at os d n s' = file_at os d n s" for n by (simp add: s' file_at_def)
  show "present os d n s' = present os d n s" by (simp add: s' present_def stat_def)
  show c: "cached t s' = cached t s" by (simp add: s' cached_def)
  show "secrets os d m t s' = secrets os d m t s" by (rule ext) (simp add: secrets_def f)
  show "unlocked os d kek t m s' = unlocked os d kek t m s"
    by (simp add: unlocked_def c pinned_touches [OF t] provides_touches [OF t] backed_touches [OF t])
  show "coherent os d kek t s' = coherent os d kek t s"
    by (simp add: coherent_def c pinned_touches [OF t] provides_touches [OF t] backed_touches [OF t])
  show "migrationComplete s' = migrationComplete s" "world s' = world s" by (simp_all add: s')
qed

lemma secrets_touches:
  assumes "touches os d N s s'" and "\<And>ref. valid_ref ref \<Longrightarrow> ref @ blobSuffixFor t \<notin> N"
  shows "secrets os d m t s' = secrets os d m t s"
proof
  fix ref
  show "secrets os d m t s' ref = secrets os d m t s ref"
    using touches_file_at(1) [OF assms(1) plain_blob, of ref t] assms(2) [of ref]
    by (simp add: secrets_def)
qed

text \<open>What one blob write or removal does to the secrets of a tier.\<close>

lemma secrets_other:
  assumes "touches os d {ref @ blobSuffixFor t} s s'" and "(ref', u) \<noteq> (ref, t)"
  shows "secrets os d m u s' ref' = secrets os d m u s ref'"
  using touches_file_at(1) [OF assms(1) plain_blob, of ref' u] assms(2) blob_name_inj [of ref' u ref t]
  by (auto simp: secrets_def)

lemma secrets_some:
  assumes "valid_ref ref" and "file_at os d (ref @ blobSuffixFor t) s = Some blob"
    and "sigil_Out os m blob = Inr p"
  shows "secrets os d m t s ref = Some p"
  using assms by (simp add: secrets_def del: file_at_Some)

section \<open>Paths, put, get and delete in an unlocked tier\<close>

lemma keyPath_pinned:
  assumes "pinned os d s"
  shows "keyPath os ref t s = (Inl e, s') \<Longrightarrow> \<not> valid_ref ref \<and> s' = s"
    and "keyPath os ref t s = (Inr path, s') \<Longrightarrow>
      valid_ref ref \<and> path = PathJoin os d (ref @ blobSuffixFor t) \<and> quiet os d N s s'"
proof -
  obtain s1 where s1: "keysDir os s = (Inr d, s1)" "quiet os d N s s1"
    using keysDir_pinned [OF assms] by blast
  show "keyPath os ref t s = (Inl e, s') \<Longrightarrow> \<not> valid_ref ref \<and> s' = s"
    using s1 keyPath_invalid [of ref os t s] by (cases "valid_ref ref") (auto simp: keyPath_valid)
  show "keyPath os ref t s = (Inr path, s') \<Longrightarrow>
      valid_ref ref \<and> path = PathJoin os d (ref @ blobSuffixFor t) \<and> quiet os d N s s'"
    using s1 keyPath_invalid [of ref os t s] by (cases "valid_ref ref") (auto simp: keyPath_valid)
qed

lemma keyPath_ok:
  assumes "pinned os d s" and "valid_ref ref"
  obtains s' where "keyPath os ref t s = (Inr (PathJoin os d (ref @ blobSuffixFor t)), s')"
    and "quiet os d N s s'"
proof -
  obtain s1 where s1: "keysDir os s = (Inr d, s1)" "quiet os d N s s1"
    using keysDir_pinned [OF assms(1)] by blast
  show thesis by (rule that [of s1]) (simp_all add: keyPath_valid [OF assms(2)] s1)
qed

lemma keyPath_quiet: "pinned os d s \<Longrightarrow> quiet os d N s (snd (keyPath os ref t s))"
  using keyPath_pinned [of os d s ref t] by (cases "keyPath os ref t s"; cases "fst (keyPath os ref t s)") auto

lemma putLocked_quiet:
  assumes "os_sound os d" and "pinned os d s"
  shows "quiet os d {ref @ blobSuffixFor t} s (snd (putLocked os t ref p m s))"
  unfolding putLocked_def
proof (rule andThen_quiet)
  fix path s1 assume "keyPath os ref t s = (Inr path, s1)"
  with keyPath_pinned(2) [OF assms(2)] have "valid_ref ref" "path = PathJoin os d (ref @ blobSuffixFor t)"
    by blast+
  then show "quiet os d {ref @ blobSuffixFor t} s1
    (snd (andThen (failAs ''keys.put'' ''init sigil'' (new_sigil os m s1)) (\<lambda>_ s.
     andThen (failAs ''keys.put'' ''seal'' (seal os m p s)) (\<lambda>blob s.
     failAs ''keys.put'' ''write ciphertext'' (write_file os path blob s)))))"
    by (auto intro!: frame_rules assms(1) plain_blob)
qed (rule keyPath_quiet [OF assms(2)])

lemma putLocked_Inr:
  assumes "os_sound os d" and "sigil_sound os" and "pinned os d s"
    and "putLocked os t ref p m s = (Inr u, s')" and "p \<noteq> []"
  shows "valid_ref ref \<and> secrets os d m t s' ref = Some p"
proof -
  obtain path s1 blob s2 where r: "keyPath os ref t s = (Inr path, s1)" "seal os m p s1 = (Inr blob, s2)"
      "write_file os path blob s2 = (Inr u, s')"
    using assms(4) by (auto simp: putLocked_def)
  have v: "valid_ref ref" "path = PathJoin os d (ref @ blobSuffixFor t)"
    using keyPath_pinned(2) [OF assms(3) r(1)] by blast+
  then have "file_at os d (ref @ blobSuffixFor t) s' = Some blob"
    using write_file_Inr [OF assms(1) plain_blob] r(3) by blast
  with v(1) seal_unseal [OF assms(2) r(2) assms(5)] secrets_some show ?thesis by blast
qed

lemma getLocked_unlocked:
  assumes "os_sound os d" and "sigil_sound os" and "pinned os d s" and "length m = masterKeySize"
  shows "quiet os d {} s (snd (getLocked os t ref m s)) \<and>
    (fst (getLocked os t ref m s) = Inr p \<longleftrightarrow> secrets os d m t s ref = Some p)"
proof (cases "valid_ref ref")
  case False
  with keyPath_invalid [of ref os t s] show ?thesis by (auto simp: getLocked_def secrets_def)
next
  case True
  obtain s1 where s1: "keyPath os ref t s = (Inr (PathJoin os d (ref @ blobSuffixFor t)), s1)"
      "quiet os d {} s s1"
    using keyPath_ok [OF assms(3) True] by blast
  have "file_at os d (ref @ blobSuffixFor t) s1 = file_at os d (ref @ blobSuffixFor t) s"
    using touches_file_at(1) [OF settles_touches [OF quiet_settles [OF s1(2)]] plain_blob [OF True]] by simp
  moreover have "NewChaChaPolySigil os m = None"
    using assms(2,4) by (simp add: sigil_sound_def)
  ultimately show ?thesis using s1 True
    by (auto simp: getLocked_def secrets_def file_at_def read_file_def new_sigil_def unseal_def
        failAs_def andThen_def split: sum.splits)
qed


text \<open>
  The effect of an operation on tier \<open>t\<close>: entries under \<open>N\<close>, the cached master of \<open>t\<close>, outputs.
\<close>

definition acts :: "'w os_lib \<Rightarrow> string \<Rightarrow> string set \<Rightarrow> tier \<Rightarrow> 'w Service \<Rightarrow> 'w Service \<Rightarrow> bool" where
  "acts os d N t s s' \<longleftrightarrow> touches os d N s s' \<and> (\<forall>u. u \<noteq> t \<longrightarrow> cached u s' = cached u s) \<and>
     migrationComplete s' = migrationComplete s"

lemma acts_refl [simp]: "acts os d N t s s"
  by (simp add: acts_def)

lemma acts_trans: "acts os d N t s s1 \<Longrightarrow> acts os d N t s1 s2 \<Longrightarrow> acts os d N t s s2"
  by (auto simp: acts_def intro: touches_trans)

lemma acts_mono: "acts os d N t s s' \<Longrightarrow> N \<subseteq> M \<Longrightarrow> acts os d M t s s'"
  by (auto simp: acts_def intro: touches_mono)

lemma settles_acts: "settles os d N t s s' \<Longrightarrow> acts os d N t s s'"
  by (simp add: acts_def settles_def frame_def)

lemma quiet_acts: "quiet os d N s s' \<Longrightarrow> acts os d N t s s'"
  by (simp add: settles_acts quiet_settles)

lemma emits_acts: "emits s s' \<Longrightarrow> acts os d N t s s'"
  by (simp add: acts_def emits_touches emits_same)

lemma acts_unlocked:
  assumes "acts os d N t s s'" and "u \<noteq> t" and "masterFileNameFor u \<notin> N" and "unlocked os d kek u m s"
  shows "unlocked os d kek u m s'"
proof -
  have t: "touches os d N s s'" using assms(1) by (simp add: acts_def)
  show ?thesis using assms
    by (simp add: unlocked_def acts_def pinned_touches [OF t] provides_touches [OF t]
        backed_touches [OF t assms(3)])
qed

lemma unlocked_pinned: "unlocked os d kek t m s \<Longrightarrow> pinned os d s"
  by (simp add: unlocked_def)

lemma unlocked_length: "unlocked os d kek t m s \<Longrightarrow> length m = masterKeySize"
  by (auto simp: unlocked_def backed_def)

lemma unlocked_quiet_blob:
  "quiet os d {ref @ blobSuffixFor u} s s' \<Longrightarrow> unlocked os d kek t m s \<Longrightarrow> unlocked os d kek t m s'"
  using unlocked_quiet [of os d "{ref @ blobSuffixFor u}" s s' t kek m] blob_not_master [of ref u t]
  by fastforce

text \<open>Both puts are the write of a sealed blob, after an unlocking and before emissions.\<close>

lemma putTier0_steps:
  assumes "putTier0WithSource os ref p src s = (r, s')" and "ensureMaster os tier0 s = (Inr m, s1)"
  shows "\<exists>s2 s3. quiet os d {} s1 s2 \<and> putLocked os tier0 ref p m s2 = (r, s3) \<and> emits s3 s'"
proof -
  obtain q s3 where q: "putLocked os tier0 ref p m s1 = (q, s3)" by fastforce
  then have "q = r \<and> emits s3 s'" using assms by (auto simp: putTier0WithSource_def)
  with q quiet_refl show ?thesis by blast
qed

lemma HasTier1_quiet: "pinned os d s \<Longrightarrow> quiet os d N s (snd (HasTier1 os ref s))"
  unfolding HasTier1_def by (rule andThen_quiet) (auto intro: keyPath_quiet)

lemma putTier1_steps:
  assumes "putTier1WithSource os ref p src s = (r, s')" and "ensureMaster os tier1 s = (Inr m, s1)"
    and "pinned os d s1"
  shows "\<exists>s2 s3. quiet os d {} s1 s2 \<and> putLocked os tier1 ref p m s2 = (r, s3) \<and> emits s3 s'"
proof -
  obtain h s2 where h: "HasTier1 os ref s1 = (h, s2)" by fastforce
  obtain q s3 where q: "putLocked os tier1 ref p m s2 = (q, s3)" by fastforce
  have "quiet os d {} s1 s2" using HasTier1_quiet [OF assms(3), of "{}" ref] h by simp
  moreover have "q = r \<and> emits s3 s'"
    using assms(1,2) h q by (auto simp: putTier1WithSource_def Let_def split: sum.splits if_splits)
  ultimately show ?thesis using q by blast
qed

definition putWithSource ::
  "'w os_lib \<Rightarrow> tier \<Rightarrow> string \<Rightarrow> bytes \<Rightarrow> string \<Rightarrow> 'w Service \<Rightarrow> unit res \<times> 'w Service" where
  "putWithSource os t ref p src =
     (if t = tier0 then putTier0WithSource os ref p src else putTier1WithSource os ref p src)"

lemma putByTier_WithSource: "putByTier os t ref p = putWithSource os t ref p ''internal''"
  by (rule ext) (simp add: putByTier_def putWithSource_def PutTier0_def PutTier1_def)

lemma put_unlocked:
  assumes "os_sound os d" and "sigil_sound os" and "unlocked os d kek t m s"
    and "putWithSource os t ref p src s = (r, s')"
  shows "acts os d {ref @ blobSuffixFor t} t s s' \<and> unlocked os d kek t m s' \<and>
    (r = Inr () \<longrightarrow> p \<noteq> [] \<longrightarrow> valid_ref ref \<and> secrets os d m t s' ref = Some p)"
proof -
  let ?N = "{ref @ blobSuffixFor t}"
  obtain s1 where s1: "ensureMaster os t s = (Inr m, s1)" "settles os d {} t s s1" "unlocked os d kek t m s1"
    using ensureMaster_unlocked [OF assms(1-3)] by metis
  obtain s2 s3 where st: "quiet os d {} s1 s2" "putLocked os t ref p m s2 = (r, s3)" "emits s3 s'"
    using putTier0_steps [of os ref p src s r s' m s1 d] putTier1_steps [of os ref p src s r s' m s1 d]
      assms(4) s1(1) unlocked_pinned [OF s1(3)] by (cases t) (auto simp: putWithSource_def)
  have u2: "unlocked os d kek t m s2" using unlocked_quiet [OF st(1) _ s1(3)] by simp
  have q: "quiet os d ?N s2 s3"
    using putLocked_quiet [OF assms(1) unlocked_pinned [OF u2], of ref t p m] st(2) by simp
  have "acts os d ?N t s s1" "acts os d ?N t s1 s2" "acts os d ?N t s2 s3" "acts os d ?N t s3 s'"
    using acts_mono [OF settles_acts [OF s1(2)]] acts_mono [OF quiet_acts [OF st(1)]]
      quiet_acts [OF q] emits_acts [OF st(3)] by blast+
  then have "acts os d ?N t s s'" using acts_trans by blast
  moreover have "unlocked os d kek t m s'"
    using unlocked_quiet_blob [OF q u2] by (simp add: emits_same [OF st(3)])
  moreover have "valid_ref ref \<and> secrets os d m t s' ref = Some p" if "r = Inr ()" "p \<noteq> []"
    using putLocked_Inr [OF assms(1,2) unlocked_pinned [OF u2] _ that(2)] st(2) that(1)
    by (simp add: emits_same [OF st(3)])
  ultimately show ?thesis by blast
qed

lemma get_unlocked:
  assumes "os_sound os d" and "sigil_sound os" and "unlocked os d kek t m s"
  shows "acts os d {} t s (snd (getByTier os t ref s)) \<and> unlocked os d kek t m (snd (getByTier os t ref s)) \<and>
    (fst (getByTier os t ref s) = Inr p \<longleftrightarrow> secrets os d m t s ref = Some p)"
proof -
  obtain s1 where s1: "ensureMaster os t s = (Inr m, s1)" "settles os d {} t s s1" "unlocked os d kek t m s1"
    using ensureMaster_unlocked [OF assms(1-3)] by metis
  have g: "getByTier os t ref s = getLocked os t ref m s1"
    using s1(1) by (cases t) (simp_all add: getByTier_def GetTier0_def GetTier1_def)
  note gl = getLocked_unlocked [OF assms(1,2) unlocked_pinned [OF s1(3)] unlocked_length [OF s1(3)], of t ref]
  have "acts os d {} t s (snd (getLocked os t ref m s1))"
    using acts_trans [OF settles_acts [OF s1(2)]] quiet_acts gl by blast
  moreover have "unlocked os d kek t m (snd (getLocked os t ref m s1))"
    using unlocked_quiet [of os d "{}"] gl s1(3) by blast
  moreover have "secrets os d m t s1 = secrets os d m t s"
    using secrets_touches [OF settles_touches [OF s1(2)]] by simp
  ultimately show ?thesis using gl [of p] by (simp add: g)
qed

definition deleteWithSource ::
  "'w os_lib \<Rightarrow> tier \<Rightarrow> string \<Rightarrow> string \<Rightarrow> 'w Service \<Rightarrow> unit res \<times> 'w Service" where
  "deleteWithSource os t ref src =
     (if t = tier0 then deleteTier0WithSource os ref src else deleteTier1WithSource os ref src)"

lemma delete_at_path:
  assumes "deleteWithSource os t ref src s = (r, s')" and "keyPath os ref t s = (Inr path, s1)"
    and "remove_file os path s1 = (q, s2)"
  shows "if stat os s1 path = None then r = Inr () \<and> s' = s1
    else emits s2 s' \<and> (r = Inr () \<longleftrightarrow> q = Inr ())"
proof (cases "stat os s1 path")
  case None
  with assms show ?thesis
    by (cases t) (simp_all add: deleteWithSource_def deleteTier0WithSource_def deleteTier1WithSource_def Let_def)
next
  case (Some fi)
  show ?thesis
  proof (cases q)
    case (Inl e)
    from assms(1) show ?thesis unfolding deleteWithSource_def deleteTier0WithSource_def
      deleteTier1WithSource_def Let_def using assms(2,3) Some Inl
      by (cases t) auto
  next
    case (Inr u)
    from assms(1) show ?thesis unfolding deleteWithSource_def deleteTier0WithSource_def
      deleteTier1WithSource_def Let_def using assms(2,3) Some Inr
      by (cases t) auto
  qed
qed

lemma delete_invalid:
  assumes "deleteWithSource os t ref src s = (r, s')" and "\<not> valid_ref ref"
  shows "\<exists>e. r = Inl e" and "emits s s'"
proof -
  obtain e where "keyPath os ref t s = (Inl e, s)" using keyPath_invalid [OF assms(2)] by blast
  then have "r = Inl e \<and> emits s s'"
    using assms(1) by (cases t) (auto simp: deleteWithSource_def deleteTier0WithSource_def
        deleteTier1WithSource_def Let_def)
  then show "\<exists>e. r = Inl e" and "emits s s'" by blast+
qed

lemma delete_unlocked:
  assumes "os_sound os d" and "unlocked os d kek t m s"
    and "deleteWithSource os t ref src s = (r, s')"
  shows "acts os d {ref @ blobSuffixFor t} t s s' \<and> unlocked os d kek t m s' \<and>
    (r = Inr () \<longrightarrow> valid_ref ref \<and> \<not> present os d (ref @ blobSuffixFor t) s' \<and>
       secrets os d m t s' ref = None)"
proof (cases "valid_ref ref")
  case False
  note di = delete_invalid [OF assms(3) this]
  with assms(2) show ?thesis by (auto simp: emits_acts emits_same [OF di(2)])
next
  case True
  let ?n = "ref @ blobSuffixFor t"
  have gone: "secrets os d m t s0 ref = None" if "\<not> present os d ?n s0" for s0
    using file_at_present [OF assms(1) plain_blob [OF True], of t s0] that
    by (cases "file_at os d ?n s0") (auto simp: secrets_def simp del: file_at_Some)
  obtain s1 where s1: "keyPath os ref t s = (Inr (PathJoin os d ?n), s1)" "quiet os d {} s s1"
    using keyPath_ok [OF unlocked_pinned [OF assms(2)] True] by blast
  have u1: "unlocked os d kek t m s1" using unlocked_quiet [OF s1(2) _ assms(2)] by simp
  obtain q s2 where q: "remove_file os (PathJoin os d ?n) s1 = (q, s2)" by fastforce
  note st = delete_at_path [OF assms(3) s1(1) q]
  show ?thesis
  proof (cases "present os d ?n s1")
    case False
    with st have "r = Inr ()" "s' = s1" by (simp_all add: present_def)
    moreover have "acts os d {?n} t s s1" by (rule acts_mono [OF quiet_acts [OF s1(2)]]) simp
    ultimately show ?thesis using False True u1 gone [of s1] by simp
  next
    case True
    with st have e: "emits s2 s'" "r = Inr () \<longleftrightarrow> q = Inr ()" by (simp_all add: present_def)
    have q2: "quiet os d {?n} s1 s2"
      using remove_file_quiet [OF assms(1) plain_blob [OF \<open>valid_ref ref\<close>], of t s1] q by simp
    have "acts os d {?n} t s s1" "acts os d {?n} t s1 s2" "acts os d {?n} t s2 s'"
      using acts_mono [OF quiet_acts [OF s1(2)]] quiet_acts [OF q2] emits_acts [OF e(1)] by blast+
    then have "acts os d {?n} t s s'" using acts_trans by blast
    moreover have "unlocked os d kek t m s'"
      using unlocked_quiet_blob [OF q2 u1] by (simp add: emits_same [OF e(1)])
    moreover have "\<not> present os d ?n s2" if "q = Inr ()"
      using remove_file_Inr [OF assms(1) plain_blob [OF \<open>valid_ref ref\<close>]] q that by blast
    ultimately show ?thesis using e gone \<open>valid_ref ref\<close>
      by (simp add: emits_same [OF e(1)])
  qed
qed


section \<open>The contract of a vault\<close>

text \<open>
  What a client of the Service relies on: \<open>get\<close> answers the contents, a successful \<open>put\<close> or
  \<open>delete\<close> changes the contents of its own ref as it says, no operation changes another ref whether
  or not it succeeds, and a restart changes nothing.
\<close>

datatype 'r vault_op = VGet 'r | VPut 'r bytes | VDelete 'r | VRestart

fun mutates :: "'r vault_op \<Rightarrow> 'r set" where
  "mutates (VPut r p) = {r}"
| "mutates (VDelete r) = {r}"
| "mutates (VGet r) = {}"
| "mutates VRestart = {}"

text \<open>A run: the state after it, and whether every put and delete of it succeeded.\<close>

fun vault_run ::
  "('r \<Rightarrow> 's \<Rightarrow> bytes res \<times> 's) \<Rightarrow> ('r \<Rightarrow> bytes \<Rightarrow> 's \<Rightarrow> unit res \<times> 's) \<Rightarrow>
   ('r \<Rightarrow> 's \<Rightarrow> unit res \<times> 's) \<Rightarrow> ('s \<Rightarrow> 's) \<Rightarrow> 'r vault_op list \<Rightarrow> 's \<Rightarrow> bool \<times> 's" where
  "vault_run get put delete restart [] s = (True, s)"
| "vault_run get put delete restart (VGet r # xs) s =
     vault_run get put delete restart xs (snd (get r s))"
| "vault_run get put delete restart (VPut r p # xs) s =
     (case put r p s of (q, s1) \<Rightarrow>
        case vault_run get put delete restart xs s1 of (b, s2) \<Rightarrow> (q = Inr () \<and> b, s2))"
| "vault_run get put delete restart (VDelete r # xs) s =
     (case delete r s of (q, s1) \<Rightarrow>
        case vault_run get put delete restart xs s1 of (b, s2) \<Rightarrow> (q = Inr () \<and> b, s2))"
| "vault_run get put delete restart (VRestart # xs) s =
     vault_run get put delete restart xs (restart s)"

text \<open>The specification: the run on a plain map.\<close>

fun vault_replay :: "'r vault_op list \<Rightarrow> ('r \<rightharpoonup> bytes) \<Rightarrow> ('r \<rightharpoonup> bytes)" where
  "vault_replay [] c = c"
| "vault_replay (VPut r p # xs) c = vault_replay xs (c(r \<mapsto> p))"
| "vault_replay (VDelete r # xs) c = vault_replay xs (c(r := None))"
| "vault_replay (_ # xs) c = vault_replay xs c"

definition no_empty_put :: "'r vault_op list \<Rightarrow> bool" where
  "no_empty_put xs \<longleftrightarrow> (\<forall>r. VPut r [] \<notin> set xs)"

lemma no_empty_put_simps [simp]:
  "no_empty_put []" "no_empty_put (VGet r # xs) = no_empty_put xs"
  "no_empty_put (VPut r p # xs) \<longleftrightarrow> p \<noteq> [] \<and> no_empty_put xs"
  "no_empty_put (VDelete r # xs) = no_empty_put xs" "no_empty_put (VRestart # xs) = no_empty_put xs"
  by (auto simp: no_empty_put_def)

locale vault =
  fixes get :: "'r \<Rightarrow> 's \<Rightarrow> bytes res \<times> 's"
    and put :: "'r \<Rightarrow> bytes \<Rightarrow> 's \<Rightarrow> unit res \<times> 's"
    and delete :: "'r \<Rightarrow> 's \<Rightarrow> unit res \<times> 's"
    and restart :: "'s \<Rightarrow> 's"
    and contents :: "'s \<Rightarrow> 'r \<rightharpoonup> bytes"
    and inv :: "'s \<Rightarrow> bool"
  assumes get_law: "inv s \<Longrightarrow> inv (snd (get r s)) \<and> contents (snd (get r s)) = contents s \<and>
      (fst (get r s) = Inr p \<longleftrightarrow> contents s r = Some p)"
    and put_frame: "inv s \<Longrightarrow> inv (snd (put r p s)) \<and>
      (r' \<noteq> r \<longrightarrow> contents (snd (put r p s)) r' = contents s r')"
    and put_ok: "inv s \<Longrightarrow> p \<noteq> [] \<Longrightarrow> put r p s = (Inr (), s') \<Longrightarrow> contents s' r = Some p"
    and delete_frame: "inv s \<Longrightarrow> inv (snd (delete r s)) \<and>
      (r' \<noteq> r \<longrightarrow> contents (snd (delete r s)) r' = contents s r')"
    and delete_ok: "inv s \<Longrightarrow> delete r s = (Inr (), s') \<Longrightarrow> contents s' r = None"
    and restart_law: "inv s \<Longrightarrow> inv (restart s) \<and> contents (restart s) = contents s"
begin

abbreviation run :: "'r vault_op list \<Rightarrow> 's \<Rightarrow> bool \<times> 's" where
  "run \<equiv> vault_run get put delete restart"

lemma put_contents:
  "inv s \<Longrightarrow> p \<noteq> [] \<Longrightarrow> put r p s = (Inr (), s') \<Longrightarrow> inv s' \<and> contents s' = (contents s)(r \<mapsto> p)"
  using put_frame [of s r p] put_ok [of s p r s'] by auto

lemma delete_contents:
  "inv s \<Longrightarrow> delete r s = (Inr (), s') \<Longrightarrow> inv s' \<and> contents s' = (contents s)(r := None)"
  using delete_frame [of s r] delete_ok [of s r s'] by auto

lemma run_inv: "inv s \<Longrightarrow> inv (snd (run xs s))"
proof (induction xs arbitrary: s)
  case (Cons x xs)
  then show ?case
    using get_law put_frame delete_frame restart_law
    by (cases x) (auto simp: split_def)
qed simp

text \<open>A run that mutates other refs only, however it fares, leaves the contents of a ref.\<close>

lemma run_other:
  "inv s \<Longrightarrow> \<forall>x \<in> set xs. r \<notin> mutates x \<Longrightarrow> contents (snd (run xs s)) r = contents s r"
proof (induction xs arbitrary: s)
  case (Cons x xs)
  then show ?case
    using get_law put_frame delete_frame restart_law
    by (cases x) (auto simp: split_def)
qed simp

lemma get_after_put:
  assumes "inv s" and "p \<noteq> []" and "put r p s = (Inr (), s1)"
    and "\<forall>x \<in> set xs. r \<notin> mutates x"
  shows "fst (get r (snd (run xs s1))) = Inr p"
  using put_contents [OF assms(1-3)] run_other [OF _ assms(4), of s1] run_inv [of s1 xs] get_law by simp

lemma get_after_delete:
  assumes "inv s" and "delete r s = (Inr (), s1)" and "\<forall>x \<in> set xs. r \<notin> mutates x"
  shows "fst (get r (snd (run xs s1))) \<noteq> Inr p"
  using delete_contents [OF assms(1,2)] run_other [OF _ assms(3), of s1] run_inv [of s1 xs] get_law by simp

text \<open>A run whose puts and deletes succeed refines the run on the map.\<close>

lemma run_replay:
  "inv s \<Longrightarrow> no_empty_put xs \<Longrightarrow> run xs s = (True, s') \<Longrightarrow>
     inv s' \<and> contents s' = vault_replay xs (contents s)"
proof (induction xs arbitrary: s)
  case (Cons x xs)
  show ?case
  proof (cases x)
    case (VGet r)
    with Cons.IH [of "snd (get r s)"] Cons.prems show ?thesis using get_law [of s r "[]"] by simp
  next
    case (VPut r p)
    then obtain s1 where s1: "put r p s = (Inr (), s1)" "run xs s1 = (True, s')" "p \<noteq> []"
      using Cons.prems by (auto split: prod.splits)
    from put_contents [OF Cons.prems(1) s1(3,1)] Cons.IH [OF _ _ s1(2)] Cons.prems(2) VPut
    show ?thesis by (simp add: fun_upd_def)
  next
    case (VDelete r)
    then obtain s1 where s1: "delete r s = (Inr (), s1)" "run xs s1 = (True, s')"
      using Cons.prems by (auto split: prod.splits)
    from delete_contents [OF Cons.prems(1) s1(1)] Cons.IH [OF _ _ s1(2)] Cons.prems(2) VDelete
    show ?thesis by (simp add: fun_upd_def)
  next
    case VRestart
    with Cons.IH [of "restart s"] Cons.prems show ?thesis using restart_law [of s] by simp
  qed
qed simp

end


section \<open>The tiers as vaults\<close>

definition deleteByTier :: "'w os_lib \<Rightarrow> tier \<Rightarrow> string \<Rightarrow> 'w Service \<Rightarrow> unit res \<times> 'w Service" where
  "deleteByTier os t ref s = (if t = tier0 then DeleteTier0 os ref s else DeleteTier1 os ref s)"

lemma deleteByTier_WithSource: "deleteByTier os t ref = deleteWithSource os t ref ''internal''"
  by (rule ext) (simp add: deleteByTier_def deleteWithSource_def DeleteTier0_def DeleteTier1_def)

definition vault_inv :: "'w os_lib \<Rightarrow> string \<Rightarrow> bytes \<Rightarrow> tier \<Rightarrow> bytes \<Rightarrow> 'w Service \<Rightarrow> bool" where
  "vault_inv os d kek t m s \<longleftrightarrow> os_sound os d \<and> sigil_sound os \<and> unlocked os d kek t m s"

lemma shutdown_same:
  "file_at os d n (snd (ServiceShutdown s)) = file_at os d n s"
  "secrets os d m t (snd (ServiceShutdown s)) = secrets os d m t s"
  by (simp_all add: ServiceShutdown_def secrets_def fun_eq_iff)

lemma acts_touches: "acts os d N t s s' \<Longrightarrow> touches os d N s s'"
  by (simp add: acts_def)

lemma tier_get:
  assumes "vault_inv os d kek t m s"
  shows "vault_inv os d kek t m (snd (getByTier os t r s)) \<and>
    secrets os d m' u (snd (getByTier os t r s)) = secrets os d m' u s \<and>
    (fst (getByTier os t r s) = Inr p \<longleftrightarrow> secrets os d m t s r = Some p)"
proof -
  have g: "acts os d {} t s (snd (getByTier os t r s)) \<and> unlocked os d kek t m (snd (getByTier os t r s)) \<and>
      (fst (getByTier os t r s) = Inr p \<longleftrightarrow> secrets os d m t s r = Some p)"
    by (rule get_unlocked) (use assms in \<open>simp_all add: vault_inv_def\<close>)
  then have "secrets os d m' u (snd (getByTier os t r s)) = secrets os d m' u s"
    by (intro secrets_touches [where N = "{}"]) (auto dest: acts_touches)
  with g assms show ?thesis by (simp add: vault_inv_def)
qed

lemma tier_put:
  assumes "vault_inv os d kek t m s" and "putByTier os t r p s = (q, s')"
  shows "vault_inv os d kek t m s'"
    and "(r', u) \<noteq> (r, t) \<Longrightarrow> secrets os d m' u s' r' = secrets os d m' u s r'"
    and "p \<noteq> [] \<Longrightarrow> q = Inr () \<Longrightarrow> secrets os d m t s' r = Some p"
    and "acts os d {r @ blobSuffixFor t} t s s'"
proof -
  have a: "acts os d {r @ blobSuffixFor t} t s s' \<and> unlocked os d kek t m s' \<and>
      (q = Inr () \<longrightarrow> p \<noteq> [] \<longrightarrow> valid_ref r \<and> secrets os d m t s' r = Some p)"
    using put_unlocked [of os d kek t m s r p "''internal''" q s'] assms
    by (simp add: putByTier_WithSource vault_inv_def)
  then show "vault_inv os d kek t m s'" "acts os d {r @ blobSuffixFor t} t s s'"
    using assms(1) by (simp_all add: vault_inv_def)
  show "(r', u) \<noteq> (r, t) \<Longrightarrow> secrets os d m' u s' r' = secrets os d m' u s r'"
    by (rule secrets_other [OF acts_touches]) (use a in blast)+
  show "p \<noteq> [] \<Longrightarrow> q = Inr () \<Longrightarrow> secrets os d m t s' r = Some p" using a by blast
qed

lemma tier_delete:
  assumes "vault_inv os d kek t m s" and "deleteByTier os t r s = (q, s')"
  shows "vault_inv os d kek t m s'"
    and "(r', u) \<noteq> (r, t) \<Longrightarrow> secrets os d m' u s' r' = secrets os d m' u s r'"
    and "q = Inr () \<Longrightarrow> secrets os d m t s' r = None"
    and "acts os d {r @ blobSuffixFor t} t s s'"
proof -
  have a: "acts os d {r @ blobSuffixFor t} t s s' \<and> unlocked os d kek t m s' \<and>
      (q = Inr () \<longrightarrow> valid_ref r \<and> \<not> present os d (r @ blobSuffixFor t) s' \<and>
        secrets os d m t s' r = None)"
    using delete_unlocked [of os d kek t m s r "''internal''" q s'] assms
    by (simp add: deleteByTier_WithSource vault_inv_def)
  then show "vault_inv os d kek t m s'" "acts os d {r @ blobSuffixFor t} t s s'"
    using assms(1) by (simp_all add: vault_inv_def)
  show "(r', u) \<noteq> (r, t) \<Longrightarrow> secrets os d m' u s' r' = secrets os d m' u s r'"
    by (rule secrets_other [OF acts_touches]) (use a in blast)+
  show "q = Inr () \<Longrightarrow> secrets os d m t s' r = None" using a by blast
qed

interpretation tier: vault "getByTier os t" "putByTier os t" "deleteByTier os t"
  "\<lambda>s. snd (ServiceShutdown s)" "secrets os d m t" "vault_inv os d kek t m"
  for os d kek t m
proof (unfold_locales, goal_cases)
  case (1 s r p)
  then show ?case by (rule tier_get)
next
  case (2 s r p r')
  then show ?case using tier_put(1,2) [OF 2 surjective_pairing] by blast
next
  case (3 s p r s')
  then show ?case using tier_put(3) by blast
next
  case (4 s r r')
  then show ?case using tier_delete(1,2) [OF 4 surjective_pairing] by blast
next
  case (5 s r s')
  then show ?case using tier_delete(3) by blast
next
  case (6 s)
  then show ?case by (auto intro: shutdown_unlocked simp: vault_inv_def shutdown_same)
qed

text \<open>Both tiers at once, each under its own key and master: refs are pairs of a tier and a ref.\<close>

definition both_inv ::
  "'w os_lib \<Rightarrow> string \<Rightarrow> (tier \<Rightarrow> bytes) \<Rightarrow> (tier \<Rightarrow> bytes) \<Rightarrow> 'w Service \<Rightarrow> bool" where
  "both_inv os d keks ms s \<longleftrightarrow> (\<forall>t. vault_inv os d (keks t) t (ms t) s)"

lemma both_inv_acts:
  assumes "both_inv os d keks ms s" and "vault_inv os d (keks t) t (ms t) s'"
    and "acts os d {r @ blobSuffixFor t} t s s'"
  shows "both_inv os d keks ms s'"
  unfolding both_inv_def
proof
  fix u
  show "vault_inv os d (keks u) u (ms u) s'"
    using assms acts_unlocked [OF assms(3), of u "keks u" "ms u"] blob_not_master [of r t u]
    by (cases "u = t") (auto simp: both_inv_def vault_inv_def)
qed

definition both_get :: "'w os_lib \<Rightarrow> tier \<times> string \<Rightarrow> 'w Service \<Rightarrow> bytes res \<times> 'w Service" where
  "both_get os k s = getByTier os (fst k) (snd k) s"

definition both_put :: "'w os_lib \<Rightarrow> tier \<times> string \<Rightarrow> bytes \<Rightarrow> 'w Service \<Rightarrow> unit res \<times> 'w Service" where
  "both_put os k p s = putByTier os (fst k) (snd k) p s"

definition both_delete :: "'w os_lib \<Rightarrow> tier \<times> string \<Rightarrow> 'w Service \<Rightarrow> unit res \<times> 'w Service" where
  "both_delete os k s = deleteByTier os (fst k) (snd k) s"

definition both_secrets ::
  "'w os_lib \<Rightarrow> string \<Rightarrow> (tier \<Rightarrow> bytes) \<Rightarrow> 'w Service \<Rightarrow> tier \<times> string \<rightharpoonup> bytes" where
  "both_secrets os d ms s k = secrets os d (ms (fst k)) (fst k) s (snd k)"

lemma get_acts:
  "vault_inv os d kek t m s \<Longrightarrow> acts os d {r @ blobSuffixFor t} t s (snd (getByTier os t r s))"
  using get_unlocked [of os d kek t m s r] acts_mono by (fastforce simp: vault_inv_def)

interpretation both: vault "both_get os" "both_put os" "both_delete os"
  "\<lambda>s. snd (ServiceShutdown s)" "both_secrets os d ms" "both_inv os d keks ms"
  for os d keks ms
proof (unfold_locales, goal_cases)
  case (1 s k p)
  then have v: "vault_inv os d (keks (fst k)) (fst k) (ms (fst k)) s" by (simp add: both_inv_def)
  have "both_inv os d keks ms (snd (both_get os k s))"
    using both_inv_acts [OF 1 _ get_acts [OF v]] tier_get [OF v] by (simp add: both_get_def)
  moreover have "both_secrets os d ms (snd (both_get os k s)) = both_secrets os d ms s"
    using tier_get [OF v] by (simp add: both_get_def both_secrets_def fun_eq_iff)
  ultimately show ?case using tier_get [OF v, of "snd k"] by (simp add: both_get_def both_secrets_def)
next
  case (2 s k p k')
  then have v: "vault_inv os d (keks (fst k)) (fst k) (ms (fst k)) s" by (simp add: both_inv_def)
  note p = tier_put [OF v surjective_pairing [of "putByTier os (fst k) (snd k) p s"]]
  show ?case using both_inv_acts [OF 2 p(1,4)] p(2) by (auto simp: both_put_def both_secrets_def prod_eq_iff)
next
  case (3 s p k s')
  then have v: "vault_inv os d (keks (fst k)) (fst k) (ms (fst k)) s" by (simp add: both_inv_def)
  then show ?case using tier_put(3) [OF v] 3 by (simp add: both_put_def both_secrets_def)
next
  case (4 s k k')
  then have v: "vault_inv os d (keks (fst k)) (fst k) (ms (fst k)) s" by (simp add: both_inv_def)
  note p = tier_delete [OF v surjective_pairing [of "deleteByTier os (fst k) (snd k) s"]]
  show ?case using both_inv_acts [OF 4 p(1,4)] p(2) by (auto simp: both_delete_def both_secrets_def prod_eq_iff)
next
  case (5 s k s')
  then have v: "vault_inv os d (keks (fst k)) (fst k) (ms (fst k)) s" by (simp add: both_inv_def)
  then show ?case using tier_delete(3) [OF v] 5 by (simp add: both_delete_def both_secrets_def)
next
  case (6 s)
  then show ?case
    by (auto intro: shutdown_unlocked simp: both_inv_def vault_inv_def both_secrets_def shutdown_same fun_eq_iff)
qed


section \<open>From a locked or fresh directory\<close>

lemma put_coherent:
  assumes "os_sound os d" and "sigil_sound os" and "coherent os d kek t s" and "p \<noteq> []"
    and "putWithSource os t ref p src s = (Inr (), s')"
  obtains m where "unlocked os d kek t m s'" and "valid_ref ref" and "secrets os d m t s' ref = Some p"
proof -
  obtain m s1 where s1: "ensureMaster os t s = (Inr m, s1)"
    using assms(5) by (cases t; cases "ensureMaster os t s"; cases "fst (ensureMaster os t s)")
      (auto simp: putWithSource_def putTier0WithSource_def putTier1WithSource_def Let_def split: prod.splits)
  have u: "unlocked os d kek t m s1" and c: "cached t s1 = m"
    using ensureMaster_Inr [OF assms(1-3) s1] by blast+
  then have "ensureMaster os t s1 = (Inr m, s1)"
    using unlocked_length [OF u] by (simp add: ensureMaster_def)
  then have "putWithSource os t ref p src s1 = (Inr (), s')"
    using assms(5) s1 by (cases t) (simp_all add: putWithSource_def putTier0WithSource_def putTier1WithSource_def)
  from put_unlocked [OF assms(1,2) u this] assms(4) that show thesis by blast
qed

lemma get_coherent:
  assumes "os_sound os d" and "sigil_sound os" and "coherent os d kek t s"
    and "getByTier os t ref s = (Inr p, s')"
  obtains m where "unlocked os d kek t m s'" and "secrets os d m t s' ref = Some p"
proof -
  obtain m s1 where s1: "ensureMaster os t s = (Inr m, s1)"
    using assms(4) by (cases t) (auto simp: getByTier_def GetTier0_def GetTier1_def)
  have u: "unlocked os d kek t m s1" and c: "cached t s1 = m"
    using ensureMaster_Inr [OF assms(1-3) s1] by blast+
  then have "ensureMaster os t s1 = (Inr m, s1)"
    using unlocked_length [OF u] by (simp add: ensureMaster_def)
  then have "getByTier os t ref s1 = (Inr p, s')"
    using assms(4) s1 by (cases t) (simp_all add: getByTier_def GetTier0_def GetTier1_def)
  with get_unlocked [OF assms(1,2) u, of ref p]
  have g: "acts os d {} t s1 s'" "unlocked os d kek t m s'" "secrets os d m t s1 ref = Some p" by simp_all
  have "secrets os d m t s' = secrets os d m t s1"
    by (rule secrets_touches [OF acts_touches [OF g(1)]]) simp
  with that g show thesis by simp
qed

text \<open>A failing look at a ref leaves a coherent tier coherent.\<close>

lemma ensureMaster_coherent:
  assumes "os_sound os d" and "sigil_sound os" and "coherent os d kek t s"
  shows "coherent os d kek t (snd (ensureMaster os t s))"
proof (cases "fst (ensureMaster os t s)")
  case (Inr m)
  then have "ensureMaster os t s = (Inr m, snd (ensureMaster os t s))" by (metis prod.collapse)
  then show ?thesis using ensureMaster_Inr(1) [OF assms] unlocked_coherent by blast
next
  case (Inl e)
  have s: "settles os d (ensure_names t) t s (snd (ensureMaster os t s))"
    using ensureMaster_settles [OF assms(1)] assms(3) by (simp add: coherent_def)
  note tch = settles_touches [OF s]
  have "ensureMaster os t s = (Inl e, snd (ensureMaster os t s))" using Inl by (metis prod.collapse)
  then have "cached t (snd (ensureMaster os t s)) = cached t s"
    using ensureMaster_Inl_cache [OF assms(1)] assms(3) same_caches_cached by (metis coherent_def)
  moreover have "length (cached t s) \<noteq> masterKeySize"
    using Inl by (auto simp: ensureMaster_def)
  ultimately show ?thesis using assms(3)
    by (simp add: coherent_def pinned_touches [OF tch] provides_touches [OF tch])
qed

lemma get_coherent_after:
  assumes "os_sound os d" and "sigil_sound os" and "coherent os d kek t s"
  shows "coherent os d kek t (snd (getByTier os t ref s))"
proof -
  obtain r s1 where e: "ensureMaster os t s = (r, s1)" by fastforce
  have c: "coherent os d kek t s1" using ensureMaster_coherent [OF assms] e by simp
  show ?thesis
  proof (cases r)
    case (Inl x)
    with e c show ?thesis by (cases t) (simp_all add: getByTier_def GetTier0_def GetTier1_def)
  next
    case (Inr m)
    with e have g: "getByTier os t ref s = getLocked os t ref m s1"
      by (cases t) (simp_all add: getByTier_def GetTier0_def GetTier1_def)
    have "unlocked os d kek t m s1" using ensureMaster_Inr(1) [OF assms] e Inr by blast
    from getLocked_unlocked [OF assms(1,2) unlocked_pinned [OF this] unlocked_length [OF this], of t ref]
    have "quiet os d {} s1 (snd (getLocked os t ref m s1))" by blast
    from coherent_quiet [OF this _ c] show ?thesis by (simp add: g)
  qed
qed

text \<open>Generators draw bytes and leave the directory alone.\<close>

definition leaves_directory :: "'w os_lib \<Rightarrow> string \<Rightarrow> ('w \<Rightarrow> bytes res \<times> 'w) \<Rightarrow> bool" where
  "leaves_directory os d generate \<longleftrightarrow>
     (\<forall>w n. plain n \<longrightarrow> same_entry os d n w (snd (generate w)))"

lemma generate_quiet:
  "leaves_directory os d generate \<Longrightarrow> quiet os d N s (s\<lparr>world := snd (generate (world s))\<rparr>)"
  by (simp add: frame_defs trail_def leaves_directory_def)

lemma getOrCreate_slow_Inr:
  assumes "os_sound os d" and "sigil_sound os" and "coherent os d kek t s"
    and "leaves_directory os d generate" and "\<And>w. fst (generate w) \<noteq> Inr []"
    and "getOrCreate_slow os t ref generate s = (Inr key, s')"
  obtains m where "unlocked os d kek t m s'" and "secrets os d m t s' ref = Some key"
proof -
  obtain r s1 where g: "getByTier os t ref s = (r, s1)" by fastforce
  show thesis
  proof (cases r)
    case (Inr k)
    with g assms(6) have "getByTier os t ref s = (Inr key, s')" by (auto simp: getOrCreate_slow_def)
    from get_coherent [OF assms(1-3) this] that show thesis by blast
  next
    case (Inl e)
    let ?s2 = "s1\<lparr>world := snd (generate (world s1))\<rparr>"
    have p: "fst (generate (world s1)) = Inr key" "putByTier os t ref key ?s2 = (Inr (), s')"
      using g Inl assms(6) by (auto simp: getOrCreate_slow_def split: prod.splits sum.splits)
    have "coherent os d kek t s1" using get_coherent_after [OF assms(1-3), of ref] g by simp
    then have c: "coherent os d kek t ?s2" using coherent_quiet [OF generate_quiet [OF assms(4)]] by blast
    have "key \<noteq> []" using p(1) assms(5) by metis
    from put_coherent [OF assms(1,2) c this] p(2) that show thesis by (metis putByTier_WithSource)
  qed
qed

lemma getOrCreate_Inr:
  assumes "os_sound os d" and "sigil_sound os" and "coherent os d kek t s"
    and "leaves_directory os d generate" and "\<And>w. fst (generate w) \<noteq> Inr []"
    and "getOrCreate os t ref generate s = (Inr key, s')"
  obtains m where "unlocked os d kek t m s'" and "secrets os d m t s' ref = Some key"
proof -
  obtain r s1 where g: "getByTier os t ref s = (r, s1)" by fastforce
  show thesis
  proof (cases r)
    case (Inr k)
    with g assms(6) have "getByTier os t ref s = (Inr key, s')" by (auto simp: getOrCreate_def)
    from get_coherent [OF assms(1-3) this] that show thesis by blast
  next
    case (Inl e)
    have "coherent os d kek t s1" using get_coherent_after [OF assms(1-3), of ref] g by simp
    moreover have "getOrCreate_slow os t ref generate s1 = (Inr key, s')"
      using g Inl assms(6) by (simp add: getOrCreate_def)
    ultimately show thesis using getOrCreate_slow_Inr [OF assms(1,2) _ assms(4,5)] that by metis
  qed
qed

lemma getOrCreate_hit:
  assumes "getByTier os t ref s = (Inr key, s')"
  shows "getOrCreate os t ref generate s = (Inr key, s')" "getOrCreate_slow os t ref generate s = (Inr key, s')"
  using assms by (simp_all add: getOrCreate_def getOrCreate_slow_def)


section \<open>A concrete system\<close>

text \<open>
  A disk as a list of files, random bytes that count the draws, and a toy sigil that seals by putting
  the plain bytes between a nonce and the head of the key.
\<close>

record disk =
  files :: "(string \<times> bytes) list"
  draws :: nat

definition pad :: "nat \<Rightarrow> bytes \<Rightarrow> bytes" where
  "pad n b = take n (b @ replicate n 0)"

definition in_dir :: "string \<Rightarrow> string \<Rightarrow> bool" where
  "in_dir d path \<longleftrightarrow> HasPrefix path (d @ ''/'') \<and> plain (drop (length d + 1) path)"

definition disk_os :: "disk os_lib" where
  "disk_os = \<lparr>
     PathJoin = (\<lambda>d n. d @ ''/'' @ n),
     Stat = (\<lambda>w p. if map_of (files w) p = None then None else Some \<lparr>Perm = fileMode, IsDir = False\<rparr>),
     ReadFile = (\<lambda>w p. case map_of (files w) p of None \<Rightarrow> Inl (Ext ''no such file'') | Some b \<Rightarrow> Inr b),
     WriteFile = (\<lambda>p c m w. (None, w\<lparr>files := (p, c) # files w\<rparr>)),
     Remove = (\<lambda>p w. if map_of (files w) p = None then (Some (Ext ''no such file''), w)
       else (None, w\<lparr>files := filter (\<lambda>e. fst e \<noteq> p) (files w)\<rparr>)),
     ReadDir = (\<lambda>w d. Inr (map (\<lambda>p. (drop (length d + 1) p, False))
       (remdups (filter (in_dir d) (map fst (files w)))))),
     MkdirAll = (\<lambda>p m w. (None, w)),
     UserHomeDir = (\<lambda>w. Inr ''/home''),
     RandomBytes = (\<lambda>n w. (Inr (replicate n (of_nat (draws w))), w\<lparr>draws := draws w + 1\<rparr>)),
     Unix = (\<lambda>w. 0),
     NewChaChaPolySigil = (\<lambda>key. if length key = masterKeySize then None else Some (Ext ''invalid key size'')),
     sigil_In = (\<lambda>key p w. (Inr (replicate 24 (of_nat (draws w)) @ p @ pad 16 key), w\<lparr>draws := draws w + 1\<rparr>)),
     sigil_Out = (\<lambda>key c. if 40 \<le> length c \<and> drop (length c - 16) c = pad 16 key
       then Inr (take (length c - 40) (drop 24 c)) else Inl (Ext ''decryption failed''))\<rparr>"

lemma length_pad [simp]: "length (pad n b) = n"
  by (simp add: pad_def)

lemma map_of_filter_ne:
  "map_of (filter (\<lambda>e. fst e \<noteq> p) es) q = (if q = p then None else map_of es q)"
  by (induction es) auto

lemma in_dir_join [simp]: "in_dir d (d @ CHR ''/'' # n) = plain n"
  by (simp add: in_dir_def HasPrefix_iff)

lemma in_dir_iff: "in_dir d path \<longleftrightarrow> (\<exists>n. path = d @ CHR ''/'' # n \<and> plain n)"
  by (auto simp: in_dir_def HasPrefix_iff)

lemma disk_read_sound: "read_sound disk_os d"
  unfolding read_sound_def
proof (intro conjI allI impI)
  fix n :: string and w :: disk and b
  assume "ReadFile disk_os w (PathJoin disk_os d n) = Inr b"
  then show "\<exists>fi. Stat disk_os w (PathJoin disk_os d n) = Some fi \<and> \<not> IsDir fi"
    by (simp add: disk_os_def split: option.splits)
next
  fix w :: disk and es
  assume es: "ReadDir disk_os w d = Inr es"
  let ?ps = "remdups (filter (in_dir d) (map fst (files w)))"
  have e: "es = map (\<lambda>p. (drop (length d + 1) p, False)) ?ps" using es by (simp add: disk_os_def)
  have "inj_on (drop (length d + 1)) (set ?ps)"
    by (rule inj_onI) (auto simp: in_dir_iff)
  then show "distinct (map fst es)"
    unfolding e by (simp add: comp_def distinct_map)
  fix n b
  show "(n, b) \<in> set es \<longleftrightarrow> plain n \<and> (\<exists>fi. Stat disk_os w (PathJoin disk_os d n) = Some fi \<and> IsDir fi = b)"
  proof
    assume "(n, b) \<in> set es"
    then show "plain n \<and> (\<exists>fi. Stat disk_os w (PathJoin disk_os d n) = Some fi \<and> IsDir fi = b)"
      unfolding e by (force simp: in_dir_iff disk_os_def map_of_eq_None_iff)
  next
    assume r: "plain n \<and> (\<exists>fi. Stat disk_os w (PathJoin disk_os d n) = Some fi \<and> IsDir fi = b)"
    then have "d @ CHR ''/'' # n \<in> fst ` set (files w)" "\<not> b"
      by (auto simp: disk_os_def map_of_eq_None_iff split: if_splits)
    with r have "d @ CHR ''/'' # n \<in> set ?ps" by (simp add: in_dir_iff)
    then have "(drop (length d + 1) (d @ CHR ''/'' # n), False) \<in> set es" 
      unfolding e set_map by (rule rev_image_eqI) (rule refl)
    with \<open>\<not> b\<close> show "(n, b) \<in> set es" by simp
  qed
qed

lemma disk_os_sound: "os_sound disk_os d"
  unfolding os_sound_def
proof (intro conjI disk_read_sound)
  show "paths_sound disk_os d" by (simp add: paths_sound_def disk_os_def)
  show "write_sound disk_os d"
    by (simp add: write_sound_def same_entry_def disk_os_def)
  show "remove_sound disk_os d"
    by (auto simp: remove_sound_def same_entry_def disk_os_def map_of_filter_ne)
  show "entropy_sound disk_os d"
    by (simp add: entropy_sound_def same_entry_def disk_os_def)
qed

lemma disk_sigil_sound: "sigil_sound disk_os"
  by (simp add: sigil_sound_def disk_os_def)

text \<open>A Service on \<^verbatim>\<open>/k\<close> with a recorder, a bus, and a constant key for each tier; nothing on disk.\<close>

definition demo_kek :: "tier \<Rightarrow> bytes" where
  "demo_kek t = replicate 32 (if t = tier0 then 7 else 9)"

definition demo_service :: "disk Service" where
  "demo_service = \<lparr>dirResolver = Some (\<lambda>w. (Inr ''/k'', w)), audit = Some \<lparr>ErrorCode = (\<lambda>e. ''failed'')\<rparr>,
     core = True, tier0Master = [], tier1Master = [],
     tier0KEKProvider = Some (\<lambda>w. (demo_kek tier0, True)),
     tier1KEKProvider = Some (\<lambda>w. (demo_kek tier1, True)),
     migrationComplete = False, world = \<lparr>files = [], draws = 0\<rparr>, outputs = []\<rparr>"

lemma demo_pinned: "dirResolver s = Some (\<lambda>w. (Inr ''/k'', w)) \<Longrightarrow> pinned os ''/k'' s"
  by (simp add: pinned_def)

lemma demo_coherent: "coherent disk_os ''/k'' (demo_kek t) t demo_service"
  by (cases t) (simp_all add: coherent_def demo_pinned demo_service_def provides_def provider_for_def
      demo_kek_def masterKeySize_def cached_def)

end
