(* ===== verification/KeysVault.thy ===== *)
theory KeysVault
  imports KeysApi
begin

text \<open>
  What the operations of \<open>KeysApi\<close> promise: stored secrets are read back across restarts, the two
  tiers and their refs do not interfere, a locked tier refuses without touching the directory, keys
  are generated once, listings are exact, and each mutation is audited once.
\<close>

section \<open>A Service with both tiers set up\<close>

definition demo_master :: "tier \<Rightarrow> bytes" where
  "demo_master t = replicate 32 (if t = tier0 then 1 else 2)"

definition demo_open :: "disk Service" where
  "demo_open = demo_service\<lparr>world := \<lparr>files =
     [(''/k/.master-tier0'', replicate 24 0 @ demo_master tier0 @ pad 16 (demo_kek tier0)),
      (''/k/.master-tier1'', replicate 24 0 @ demo_master tier1 @ pad 16 (demo_kek tier1))],
     draws = 2\<rparr>\<rparr>"

lemmas demo_defs = demo_service_def demo_open_def demo_kek_def demo_master_def

lemma demo_open_inv: "both_inv disk_os ''/k'' demo_kek demo_master demo_open"
  unfolding both_inv_def vault_inv_def
proof (intro allI conjI disk_os_sound disk_sigil_sound)
  fix t
  show "unlocked disk_os ''/k'' (demo_kek t) t (demo_master t) demo_open"
    by (cases t) (simp_all add: unlocked_def demo_pinned provides_def provider_for_def backed_def
        cached_def disk_os_def demo_defs keys_consts masterFileNameFor_def pad_def numeral_eq_Suc)
qed

lemma demo_open_coherent: "coherent disk_os ''/k'' (demo_kek t) t demo_open"
  using demo_open_inv unlocked_coherent unfolding both_inv_def vault_inv_def by blast

lemmas keys_eval = PutTier0_def PutTier1_def putTier0WithSource_def putTier1WithSource_def
  putByTier_def getByTier_def GetTier0_def GetTier1_def deleteByTier_def DeleteTier0_def
  DeleteTier1_def deleteTier0WithSource_def deleteTier1WithSource_def HasTier0_def HasTier1_def
  ensureMaster_def ensureTier0Locked_def ensureTier1Locked_def load_master_def generateTier0Locked_def
  writeMasterLocked_def need_kek_def currentKEKFor_def provider_for_def putLocked_def getLocked_def
  keyPath_def keysDir_def hasTierSuffix_def stat_def read_file_def write_file_def remove_file_def
  random_bytes_def new_sigil_def seal_def unseal_def set_cached_def cached_def emitKeysAudit_def
  auditErrorCode_cases outcome_code_def broadcastTier1Change_def ServiceShutdown_def both_put_def
  both_get_def both_delete_def keys_consts disk_os_def demo_defs pad_def Let_def
  getOrCreate_def getOrCreate_slow_def GetOrCreateTier0_def SingleInstanceKey_def
  masterFileNameFor_def listTier_def ListTier0_def ListTier1_def in_dir_def plain_def

lemma demo_put_eval:
  "fst (both_put disk_os (tier1, ''a'') [5] demo_open) = Inr ()"
  by (simp add: keys_eval numeral_eq_Suc)

section \<open>Refinement\<close>

text \<open>
  C5.  Whatever the order of reads, writes, deletions and restarts on the two tiers, as long as
  the writes and deletions report success, the Service holds what a plain map from pairs of a tier
  and a ref holds after the same operations, and every read answers that map: the on-disk masters,
  sealed blobs and caches implement two independent maps.
\<close>

theorem tiers_refine_map:
  assumes "both_inv os d keks ms s" and "no_empty_put xs"
    and "vault_run (both_get os) (both_put os) (both_delete os) (\<lambda>s. snd (ServiceShutdown s)) xs s
      = (True, s')"
  shows "both_secrets os d ms s' = vault_replay xs (both_secrets os d ms s) \<and>
    (\<forall>t r p. fst (getByTier os t r s') = Inr p \<longleftrightarrow>
       vault_replay xs (both_secrets os d ms s) (t, r) = Some p)"
proof -
  have s': "both_inv os d keks ms s'" "both_secrets os d ms s' = vault_replay xs (both_secrets os d ms s)"
    using both.run_replay [OF assms] by blast+
  have "fst (getByTier os t r s') = Inr p \<longleftrightarrow>
      vault_replay xs (both_secrets os d ms s) (t, r) = Some p" for t r p
    using both.get_law [OF s'(1), of "(t, r)" p] s'(2) by (simp add: both_get_def)
  with s'(2) show ?thesis by blast
qed

definition demo_run :: "(tier \<times> string) vault_op list \<Rightarrow> bool \<times> disk Service" where
  "demo_run xs = vault_run (both_get disk_os) (both_put disk_os) (both_delete disk_os)
     (\<lambda>s. snd (ServiceShutdown s)) xs demo_open"

theorem tiers_refine_map_witness:
  "fst (getByTier disk_os tier1 ''a'' (snd (demo_run [VPut (tier1, ''a'') [5], VRestart]))) = Inr [5]"
proof -
  let ?xs = "[VPut (tier1, ''a'') [5], VRestart] :: (tier \<times> string) vault_op list"
  have "demo_run ?xs = (True, snd (demo_run ?xs))"
    using demo_put_eval by (simp add: demo_run_def split_def prod_eq_iff)
  from tiers_refine_map [OF demo_open_inv _ this [unfolded demo_run_def]] show ?thesis
    by (simp add: demo_run_def)
qed

section \<open>Reading back\<close>

text \<open>
  C16.  From a directory in any coherent state, a new one included, a secret that is stored is read
  back with the same bytes after any further operations on the tier that leave its ref alone, even
  if they fail, and after restarts.
\<close>

theorem put_then_get:
  assumes "os_sound os d" and "sigil_sound os" and "coherent os d kek t s" and "p \<noteq> []"
    and "putByTier os t ref p s = (Inr (), s1)"
    and "\<forall>x \<in> set xs. ref \<notin> mutates x"
  shows "fst (getByTier os t ref (snd (vault_run (getByTier os t) (putByTier os t) (deleteByTier os t)
    (\<lambda>s. snd (ServiceShutdown s)) xs s1))) = Inr p"
proof -
  obtain m where m: "unlocked os d kek t m s1" "secrets os d m t s1 ref = Some p"
    using put_coherent [OF assms(1-4), of ref "''internal''" s1] assms(5)
    by (auto simp: putByTier_WithSource)
  then have v: "vault_inv os d kek t m s1" using assms(1,2) by (simp add: vault_inv_def)
  let ?s = "snd (vault_run (getByTier os t) (putByTier os t) (deleteByTier os t)
    (\<lambda>s. snd (ServiceShutdown s)) xs s1)"
  have "secrets os d m t ?s ref = Some p" using tier.run_other [OF v assms(6)] m(2) by simp
  with tier.get_law [OF tier.run_inv [OF v], of ref xs p] show ?thesis by simp
qed

theorem put_then_get_witness:
  "fst (getByTier disk_os tier0 ''a'' (snd (ServiceShutdown
     (snd (putByTier disk_os tier0 ''b'' [2] (snd (putByTier disk_os tier0 ''a'' [1] demo_service)))))))
   = Inr [1]"
proof -
  have "fst (putByTier disk_os tier0 ''a'' [1] demo_service) = Inr ()"
    by (simp add: keys_eval numeral_eq_Suc)
  then have "putByTier disk_os tier0 ''a'' [1] demo_service
      = (Inr (), snd (putByTier disk_os tier0 ''a'' [1] demo_service))" by (simp add: prod_eq_iff)
  from put_then_get [OF disk_os_sound disk_sigil_sound demo_coherent _ this,
      of "[VPut ''b'' [2], VRestart]"]
  show ?thesis by (simp add: split_def)
qed


text \<open>
  C19.  The paths of blobs: \<open>keyPath\<close> accepts exactly the refs that are not empty, do not start with
  a dot, have no separator and no NUL and do not end in a tier suffix; two accepted pairs of a ref
  and a tier have the same path only if they are the same, and no blob has the path of a master.
\<close>

theorem blob_paths_are_apart:
  assumes "os_sound os d" and "pinned os d s"
  shows "((\<exists>path. fst (keyPath os ref t s) = Inr path) \<longleftrightarrow>
      ref \<noteq> [] \<and> hd ref \<noteq> CHR ''.'' \<and> set ref \<inter> {CHR ''/'', CHR 0x5C, CHR 0x00} = {} \<and>
      (\<nexists>q c. ref = q @ ''.t'' @ [c] @ ''.aead'' \<and> digit_val c \<noteq> None)) \<and>
    (\<forall>ref' t' path. fst (keyPath os ref t s) = Inr path \<longrightarrow> fst (keyPath os ref' t' s) = Inr path \<longrightarrow>
      ref' = ref \<and> t' = t) \<and>
    (\<forall>n \<in> {masterTier0FileName, masterTier1FileName, legacyMasterFileName}.
      fst (keyPath os ref t s) \<noteq> Inr (PathJoin os d n))"
proof (intro conjI allI ballI impI)
  have path: "fst (keyPath os r u s) = Inr path \<longleftrightarrow>
      valid_ref r \<and> path = PathJoin os d (r @ blobSuffixFor u)" for r u path
  proof (cases "valid_ref r")
    case True
    from keyPath_ok [OF assms(2) True] obtain s1
      where "keyPath os r u s = (Inr (PathJoin os d (r @ blobSuffixFor u)), s1)" by metis
    with True show ?thesis by auto
  next
    case False
    with keyPath_invalid [of r os u s] show ?thesis by auto
  qed
  show "(\<exists>path. fst (keyPath os ref t s) = Inr path) \<longleftrightarrow>
      ref \<noteq> [] \<and> hd ref \<noteq> CHR ''.'' \<and> set ref \<inter> {CHR ''/'', CHR 0x5C, CHR 0x00} = {} \<and>
      (\<nexists>q c. ref = q @ ''.t'' @ [c] @ ''.aead'' \<and> digit_val c \<noteq> None)"
    unfolding path valid_ref_def hasTierSuffix_iff by auto
  fix ref' t' p
  assume "fst (keyPath os ref t s) = Inr p" and "fst (keyPath os ref' t' s) = Inr p"
  then have "ref' @ blobSuffixFor t' = ref @ blobSuffixFor t"
    unfolding path using path_eq [OF assms(1) plain_blob plain_blob] by metis
  then show "ref' = ref" and "t' = t" by (simp_all add: blob_name_inj)
next
  fix n assume n: "n \<in> {masterTier0FileName, masterTier1FileName, legacyMasterFileName}"
  show "fst (keyPath os ref t s) \<noteq> Inr (PathJoin os d n)"
  proof
    assume eq: "fst (keyPath os ref t s) = Inr (PathJoin os d n)"
    then have v: "valid_ref ref" using keyPath_invalid [of ref os t s] by (cases "valid_ref ref") auto
    obtain s1 where "keyPath os ref t s = (Inr (PathJoin os d (ref @ blobSuffixFor t)), s1)"
      using keyPath_ok [OF assms(2) v] by blast
    then have "n = ref @ blobSuffixFor t"
      using eq n path_eq [OF assms(1), of n "ref @ blobSuffixFor t"] plain_blob [OF v, of t] by auto
    with n show False
      by (cases t) (auto simp: keys_consts dest!: arg_cong [of _ _ last])
  qed
qed

theorem blob_paths_are_apart_witness:
  "fst (keyPath disk_os ''x.t7.aead'' tier0 demo_service) \<noteq> Inr ''/k/x.t7.aead.t0.aead'' \<and>
   fst (keyPath disk_os ''a'' tier0 demo_service) \<noteq> fst (keyPath disk_os ''a'' tier1 demo_service)"
proof -
  have p: "pinned disk_os ''/k'' demo_service" by (simp add: demo_pinned demo_service_def)
  note a = blob_paths_are_apart [OF disk_os_sound p]
  have "''x.t7.aead'' = ''x'' @ ''.t'' @ [CHR ''7''] @ ''.aead'' \<and> digit_val CHR ''7'' \<noteq> None"
    by (simp add: digit_val_def)
  then have "\<exists>q c. ''x.t7.aead'' = q @ ''.t'' @ [c] @ ''.aead'' \<and> digit_val c \<noteq> None" by blast
  with a [of "''x.t7.aead''" tier0] have "fst (keyPath disk_os ''x.t7.aead'' tier0 demo_service) \<noteq> Inr q" for q
    by blast
  moreover have "fst (keyPath disk_os ''a'' tier0 demo_service) \<noteq> fst (keyPath disk_os ''a'' tier1 demo_service)"
  proof -
    have "fst (keyPath disk_os ''a'' tier0 demo_service) = Inr ''/k/a.t0.aead''"
      by (simp add: keys_eval)
    with a [of "''a''" tier0] show ?thesis by (metis tier.distinct(1))
  qed
  ultimately show ?thesis by blast
qed

section \<open>A locked tier\<close>

definition no_key :: "tier \<Rightarrow> 'w Service \<Rightarrow> bool" where
  "no_key t s \<longleftrightarrow> (\<forall>provider w. provider_for t s = Some provider \<longrightarrow>
     \<not> snd (provider w) \<or> length (fst (provider w)) \<noteq> masterKeySize)"

definition locked :: "tier \<Rightarrow> 'w Service \<Rightarrow> bool" where
  "locked t s \<longleftrightarrow> length (cached t s) \<noteq> masterKeySize \<and> no_key t s"

lemma no_key_config: "same_config s s' \<Longrightarrow> no_key t s' = no_key t s"
  by (simp add: no_key_def same_config_def provider_for_def split: tier.splits)

lemma currentKEKFor_no_key:
  assumes "no_key t s"
  shows "fst (currentKEKFor t s) = None"
proof (cases "provider_for t s")
  case (Some provider)
  then have "\<not> snd (provider (world s)) \<or> length (fst (provider (world s))) \<noteq> masterKeySize"
    using assms by (simp add: no_key_def)
  with Some show ?thesis by (auto simp: currentKEKFor_def split_def)
qed (simp add: currentKEKFor_def)

lemma locked_quiet: "quiet os d N s s' \<Longrightarrow> locked t s \<Longrightarrow> locked t s'"
  using quiet_cached [of os d N s s' t]
    no_key_config [of s s' t] by (simp add: locked_def quiet_def frame_def touches_def)

lemma need_kek_locked: "locked t s \<Longrightarrow> \<exists>e. fst (need_kek t msg s) = Inl e"
  using currentKEKFor_no_key [of t s]
  by (cases "currentKEKFor t s") (auto simp: locked_def need_kek_def)

text \<open>Up to the point where the key is needed nothing is written.\<close>

definition refuses :: "'w os_lib \<Rightarrow> string \<Rightarrow> 'w Service \<Rightarrow> 'a res \<times> 'w Service \<Rightarrow> bool" where
  "refuses os d s x \<longleftrightarrow> (\<exists>e. fst x = Inl e) \<and> quiet os d {} s (snd x)"

lemma refuses_need_kek: "locked t s \<Longrightarrow> refuses os d s (andThen (need_kek t msg s) f)"
  using need_kek_locked [of t s msg] need_kek_quiet [of os d "{}" s t msg]
  by (cases "need_kek t msg s") (auto simp: refuses_def)

lemma refuses_simps [simp]: "refuses os d s (Inl e, s)"
  by (simp add: refuses_def)

lemma refuses_after:
  assumes "quiet os d {} s (snd x)" and "\<And>a s1. x = (Inr a, s1) \<Longrightarrow> refuses os d s1 (f a s1)"
  shows "refuses os d s (andThen x f)"
  using assms by (cases x; cases "fst x") (auto simp: refuses_def intro: quiet_trans)

lemma ensureMaster_locked:
  assumes "pinned os d s" and "locked t s"
  shows "refuses os d s (ensureMaster os t s)"
proof -
  obtain s1 where s1: "keysDir os s = (Inr d, s1)" "quiet os d {} s s1"
    using keysDir_pinned [OF assms(1)] by metis
  then have l: "locked t s1" using locked_quiet assms(2) by blast
  have load: "locked u s1 \<Longrightarrow> refuses os d s1 (load_master os u n m p s1)" for u n m p
    unfolding load_master_def by (auto intro!: refuses_after refuses_need_kek)
  have "refuses os d s1 (if t = tier0 then ensureTier0Locked os d s1 else ensureTier1Locked os d s1)"
    using l load by (cases t) (auto simp: ensureTier0Locked_def ensureTier1Locked_def Let_def
        generateTier0Locked_def migrateTier0FromRawLegacyLocked_def
        intro!: refuses_after refuses_need_kek)
  moreover have "length (cached t s) \<noteq> masterKeySize" using assms(2) by (simp add: locked_def)
  ultimately show ?thesis using s1
    by (auto simp: ensureMaster_def refuses_def intro: quiet_trans)
qed

text \<open>
  While no usable key-encryption key is available (no provider, a provider that answers
  \<^verbatim>\<open>false\<close>, or a key of the wrong length) and no master is cached, every put and get fails, and
  neither changes anything in the directory or caches anything.
\<close>

theorem locked_tier_refuses:
  assumes "pinned os d s" and "locked t s"
  shows "(\<exists>e. fst (putByTier os t ref p s) = Inl e) \<and> touches os d {} s (snd (putByTier os t ref p s)) \<and>
    cached t (snd (putByTier os t ref p s)) = cached t s \<and>
    (\<exists>e. fst (getByTier os t ref s) = Inl e) \<and> touches os d {} s (snd (getByTier os t ref s)) \<and>
    cached t (snd (getByTier os t ref s)) = cached t s"
proof -
  obtain e s1 where s1: "ensureMaster os t s = (Inl e, s1)" "quiet os d {} s s1"
    using ensureMaster_locked [OF assms] by (cases "ensureMaster os t s") (auto simp: refuses_def)
  have "pinned os d s1" using pinned_touches s1(2) assms(1) by (metis quiet_frame frame_touches)
  then have h: "quiet os d {} s1 (snd (HasTier1 os ref s1))" by (rule HasTier1_quiet)
  have "\<exists>s2 s'. putByTier os t ref p s = (Inl e, s') \<and> quiet os d {} s1 s2 \<and> emits s2 s'"
  proof (cases t)
    case tier0
    with s1(1) show ?thesis
      by (auto simp: putByTier_WithSource putWithSource_def putTier0WithSource_def
          intro!: exI [of _ s1])
  next
    case tier1
    with s1(1) h show ?thesis
      by (cases "HasTier1 os ref s1") (auto simp: putByTier_WithSource putWithSource_def
          putTier1WithSource_def Let_def intro!: exI [of _ "snd (HasTier1 os ref s1)"])
  qed
  then obtain s2 s' where put: "putByTier os t ref p s = (Inl e, s')" "quiet os d {} s1 s2" "emits s2 s'"
    by blast
  have get: "getByTier os t ref s = (Inl e, s1)"
    using s1(1) by (cases t) (simp_all add: getByTier_def GetTier0_def GetTier1_def)
  have q: "quiet os d {} s s2" using s1(2) put(2) quiet_trans by blast
  have "touches os d {} s s'" "cached t s' = cached t s"
    using touches_trans [OF frame_touches [OF quiet_frame [OF q]] emits_touches [OF put(3)]]
      quiet_cached [OF q] emits_same(3) [OF put(3)] by simp_all
  then show ?thesis using put get s1(2) quiet_cached [OF s1(2)] frame_touches [OF quiet_frame [OF s1(2)]]
    by simp
qed

theorem locked_tier_refuses_witness:
  "fst (putByTier disk_os tier1 ''a'' [1] (demo_open\<lparr>tier1KEKProvider := Some (\<lambda>w. (demo_kek tier1, False))\<rparr>))
     \<noteq> Inr ()"
proof -
  let ?s = "demo_open\<lparr>tier1KEKProvider := Some (\<lambda>w. (demo_kek tier1, False))\<rparr>"
  have "pinned disk_os ''/k'' ?s" "locked tier1 ?s"
    by (simp_all add: demo_pinned locked_def no_key_def provider_for_def cached_def demo_defs keys_consts)
  from locked_tier_refuses [OF this, of "''a''" "[1]"] show ?thesis by fastforce
qed


section \<open>Generated once\<close>

text \<open>The operations of one tier in sequence, with restarts.\<close>

definition tier_run :: "'w os_lib \<Rightarrow> tier \<Rightarrow> string vault_op list \<Rightarrow> 'w Service \<Rightarrow> 'w Service" where
  "tier_run os t xs s = snd (vault_run (getByTier os t) (putByTier os t) (deleteByTier os t)
     (\<lambda>s. snd (ServiceShutdown s)) xs s)"

lemma tier_run_get:
  assumes "os_sound os d" and "sigil_sound os" and "unlocked os d kek t m s"
    and "secrets os d m t s ref = Some p" and "\<forall>x \<in> set xs. ref \<notin> mutates x"
  obtains s' where "getByTier os t ref (tier_run os t xs s) = (Inr p, s')"
proof -
  have v: "vault_inv os d kek t m s" using assms(1-3) by (simp add: vault_inv_def)
  then have "secrets os d m t (tier_run os t xs s) ref = Some p"
    using tier.run_other [OF v assms(5)] assms(4) by (simp add: tier_run_def)
  with tier.get_law [OF tier.run_inv [OF v], of ref xs p]
  have "fst (getByTier os t ref (tier_run os t xs s)) = Inr p" by (simp add: tier_run_def)
  with that show thesis by (metis prod.collapse)
qed

text \<open>
  C22.  Callers of get-or-create whose first look has missed race for the lock.  Whoever gets it
  first may generate a key; everyone after it gets the same key without calling a generator, even
  if other refs are written or the Service restarts in between.
\<close>

theorem racing_callers_share_one_key:
  assumes "os_sound os d" and "sigil_sound os" and "coherent os d kek t s"
    and "leaves_directory os d generate" and "\<And>w. fst (generate w) \<noteq> Inr []"
    and "getOrCreate_slow os t ref generate s = (Inr key, s1)"
    and "\<forall>x \<in> set xs. ref \<notin> mutates x"
  shows "fst (getOrCreate_slow os t ref generate' (tier_run os t xs s1)) = Inr key \<and>
    getOrCreate_slow os t ref generate' (tier_run os t xs s1) = getByTier os t ref (tier_run os t xs s1)"
proof -
  obtain m where "unlocked os d kek t m s1" "secrets os d m t s1 ref = Some key"
    using getOrCreate_slow_Inr [OF assms(1-6)] by blast
  then obtain s' where g: "getByTier os t ref (tier_run os t xs s1) = (Inr key, s')"
    using tier_run_get [OF assms(1,2) _ _ assms(7)] by metis
  from getOrCreate_hit(2) [OF g] g show ?thesis by simp
qed

definition demo_generate :: "disk \<Rightarrow> bytes res \<times> disk" where
  "demo_generate w = (Inr [of_nat (draws w), 1], w)"

theorem racing_callers_share_one_key_witness:
  "fst (getOrCreate_slow disk_os tier1 ''a'' demo_generate
     (snd (getOrCreate_slow disk_os tier1 ''a'' demo_generate demo_open))) = Inr [2, 1]"
proof -
  let ?x = "getOrCreate_slow disk_os tier1 ''a'' demo_generate demo_open"
  have "fst ?x = Inr [2, 1]" by (simp add: keys_eval demo_generate_def numeral_eq_Suc)
  then have x: "?x = (Inr [2, 1], snd ?x)" by (metis prod.collapse)
  have c: "coherent disk_os ''/k'' (demo_kek tier1) tier1 demo_open" by (rule demo_open_coherent)
  have l: "leaves_directory disk_os ''/k'' demo_generate"
    by (simp add: leaves_directory_def demo_generate_def)
  have "fst (demo_generate w) \<noteq> Inr []" for w by (simp add: demo_generate_def)
  from racing_callers_share_one_key [OF disk_os_sound disk_sigil_sound c l this x, of "[]" demo_generate,
      THEN conjunct1]
  show ?thesis by (simp add: tier_run_def)
qed

lemma random_generator:
  "os_sound os d \<Longrightarrow> leaves_directory os d (RandomBytes os masterKeySize)"
  "os_sound os d \<Longrightarrow> fst (RandomBytes os masterKeySize w) \<noteq> Inr []"
  by (auto simp: leaves_directory_def os_sound_def entropy_sound_def)
    (force simp: masterKeySize_def)

lemma SingleInstanceKey_Inr:
  "SingleInstanceKey os s = (Inr key, s') \<longleftrightarrow>
     getOrCreate os tier0 singleInstanceRef (RandomBytes os masterKeySize) s = (Inr key, s') \<and>
     length key = masterKeySize"
  by (auto simp: SingleInstanceKey_def GetOrCreateTier0_def split: if_splits)

text \<open>
  The single-instance key has 32 bytes and does not change: once it has been returned, it is
  returned again after any operations on other tier-0 refs and any restarts.
\<close>

theorem single_instance_key_is_stable:
  assumes "os_sound os d" and "sigil_sound os" and "coherent os d kek tier0 s"
    and "SingleInstanceKey os s = (Inr key, s1)"
    and "\<forall>x \<in> set xs. singleInstanceRef \<notin> mutates x"
  shows "length key = 32 \<and> fst (SingleInstanceKey os (tier_run os tier0 xs s1)) = Inr key"
proof -
  have g: "getOrCreate os tier0 singleInstanceRef (RandomBytes os masterKeySize) s = (Inr key, s1)"
    and len: "length key = masterKeySize"
    using assms(4) by (simp_all add: SingleInstanceKey_Inr)
  obtain m where "unlocked os d kek tier0 m s1" "secrets os d m tier0 s1 singleInstanceRef = Some key"
    using getOrCreate_Inr [OF assms(1-3) random_generator [OF assms(1)] g] by blast
  then obtain s' where h: "getByTier os tier0 singleInstanceRef (tier_run os tier0 xs s1) = (Inr key, s')"
    using tier_run_get [OF assms(1,2) _ _ assms(5)] by metis
  then have "SingleInstanceKey os (tier_run os tier0 xs s1) = (Inr key, s')"
    using getOrCreate_hit(1) [OF h] len by (simp add: SingleInstanceKey_Inr)
  with len show ?thesis by (simp add: masterKeySize_def)
qed

theorem single_instance_key_is_stable_witness:
  "fst (SingleInstanceKey disk_os (snd (ServiceShutdown (snd (SingleInstanceKey disk_os demo_open)))))
     = fst (SingleInstanceKey disk_os demo_open)"
proof -
  let ?x = "SingleInstanceKey disk_os demo_open"
  have "fst ?x = Inr (replicate 32 2)" by (simp add: keys_eval numeral_eq_Suc)
  then have x: "?x = (Inr (replicate 32 2), snd ?x)" by (metis prod.collapse)
  have c: "coherent disk_os ''/k'' (demo_kek tier0) tier0 demo_open" by (rule demo_open_coherent)
  from single_instance_key_is_stable [OF disk_os_sound disk_sigil_sound c x, of "[VRestart]"] x
  show ?thesis by (metis tier_run_def vault_run.simps fst_conv list.set_intros(1) empty_iff
      mutates.simps(4) set_ConsD list.set(1) snd_conv)
qed

section \<open>Listing\<close>

lemma set_list_entries:
  "r \<in> set (list_entries suf es) \<longleftrightarrow> (r @ suf, False) \<in> set es"
  by (induction suf es rule: list_entries.induct) (auto simp: HasSuffix_iff)

lemma distinct_list_entries: "distinct (map fst es) \<Longrightarrow> distinct (list_entries suf es)"
proof (induction suf es rule: list_entries.induct)
  case (2 suf name isDir es)
  have "take (length name - length suf) name \<notin> set (list_entries suf es)" if "HasSuffix name suf"
    using that 2(4) by (auto simp: set_list_entries HasSuffix_iff image_iff)
  with 2 show ?case by auto
qed simp

text \<open>
  The refs a tier lists are, without repetition, exactly the names of files with the tier's
  suffix in the directory, the suffix removed: every stored ref is listed, and no master, no blob
  of the other tier and no subdirectory is.
\<close>

theorem list_is_exact:
  assumes "os_sound os d" and "pinned os d s" and "listTier os t s = (Inr refs, s')"
  shows "distinct refs \<and> touches os d {} s s' \<and>
    (\<forall>r. r \<in> set refs \<longleftrightarrow> plain (r @ blobSuffixFor t) \<and>
       (\<exists>fi. stat os s (PathJoin os d (r @ blobSuffixFor t)) = Some fi \<and> \<not> IsDir fi))"
proof -
  obtain s1 where s1: "keysDir os s = (Inr d, s1)" "quiet os d {} s s1"
    using keysDir_pinned [OF assms(2)] by metis
  then obtain es where es: "ReadDir os (world s1) d = Inr es" "refs = list_entries (blobSuffixFor t) es" "s' = s1"
    using assms(3) by (auto simp: listTier_def)
  have r: "distinct (map fst es)" "\<And>n b. (n, b) \<in> set es \<longleftrightarrow>
      plain n \<and> (\<exists>fi. Stat os (world s1) (PathJoin os d n) = Some fi \<and> IsDir fi = b)"
    using assms(1) es(1) unfolding os_sound_def read_sound_def by blast+
  have same: "plain n \<Longrightarrow> Stat os (world s1) (PathJoin os d n) = stat os s (PathJoin os d n)" for n
    using s1(2) by (simp add: quiet_def frame_def touches_def same_entry_def stat_def)
  show ?thesis
    using distinct_list_entries [OF r(1)] s1(2) es(3) same
    by (auto simp: es(2) set_list_entries r(2) quiet_def frame_def)
qed

definition demo_listing :: "disk Service" where
  "demo_listing = demo_open\<lparr>world := \<lparr>files = [(''/k/a.t0.aead'', [1]), (''/k/b.t1.aead'', [2]),
     (''/k/.master-tier0'', [3])], draws = 0\<rparr>\<rparr>"

theorem list_is_exact_witness:
  "fst (listTier disk_os tier0 demo_listing) = Inr [''a''] \<and>
   stat disk_os demo_listing ''/k/a.t0.aead'' \<noteq> None"
proof -
  have l: "fst (listTier disk_os tier0 demo_listing) = Inr [''a'']"
    by (simp add: demo_listing_def keys_eval HasSuffix_def)
  then have "listTier disk_os tier0 demo_listing = (Inr [''a''], snd (listTier disk_os tier0 demo_listing))"
    by (metis prod.collapse)
  moreover have "pinned disk_os ''/k'' demo_listing"
    by (simp add: demo_pinned demo_listing_def demo_defs)
  ultimately have "\<exists>fi. stat disk_os demo_listing (PathJoin disk_os ''/k'' (''a'' @ blobSuffixFor tier0)) = Some fi"
    using list_is_exact [OF disk_os_sound] by (metis list.set_intros(1))
  with l show ?thesis by (auto simp: disk_os_def)
qed


section \<open>The audit trail\<close>

definition audit_row ::
  "int \<Rightarrow> string \<Rightarrow> string \<Rightarrow> tier \<Rightarrow> string \<Rightarrow> string \<Rightarrow> emission" where
  "audit_row ts event ref t source code =
     (let kind = (if t = tier0 then ''tier0'' else ''tier1'');
          meta = [''ref'' \<mapsto> ref, ''kind'' \<mapsto> kind, ''tier'' \<mapsto> kind, ''source'' \<mapsto> source]
      in Audited \<lparr>Event = event, TS = ts, Scope = ''keys'',
           Outcome = (if code = [] then ''ok'' else ''error''),
           Meta = (if code = [] then meta else meta(''error_code'' \<mapsto> code))\<rparr>)"

lemma trail_audit:
  "audit s = Some rec \<Longrightarrow>
     trail (emitKeysAudit os event ref (if t = tier0 then ''tier0'' else ''tier1'') source code s) =
     trail s @ [audit_row (Unix os (world s)) event ref t source code]"
  by (simp add: emitKeysAudit_def audit_row_def trail_def Let_def)

lemmas trail_audits = trail_audit [where t = tier0, simplified] trail_audit [where t = tier1, simplified]

lemma trail_broadcast:
  "trail (broadcastTier1Change kind ref s) =
     trail s @ (if core s then [Broadcast \<lparr>Kind = kind, Ref = ref\<rparr>] else [])"
  by (simp add: broadcastTier1Change_def trail_def)

lemma broadcast_fields [simp]:
  "audit (broadcastTier1Change kind ref s) = audit s"
  "world (broadcastTier1Change kind ref s) = world s"
  "world (emitKeysAudit os event ref t source code s) = world s"
  by (auto simp: broadcastTier1Change_def emitKeysAudit_def Let_def split: option.splits)

lemma frame_fields:
  "frame os d N s s' \<Longrightarrow> trail s' = trail s \<and> audit s' = audit s \<and> core s' = core s"
  by (simp add: frame_def touches_def same_config_def)

lemma HasTier1_present:
  assumes "pinned os d s"
  shows "fst (HasTier1 os ref s) = Inr True \<longleftrightarrow> valid_ref ref \<and> present os d (ref @ blobSuffixFor tier1) s"
proof (cases "valid_ref ref")
  case False
  with keyPath_invalid [of ref os tier1 s] show ?thesis by (auto simp: HasTier1_def)
next
  case True
  obtain s1 where s1: "keyPath os ref tier1 s = (Inr (PathJoin os d (ref @ blobSuffixFor tier1)), s1)"
      "quiet os d {} s s1" using keyPath_ok [OF assms True] by metis
  from touches_file_at(2) [OF frame_touches [OF quiet_frame [OF s1(2)]] plain_blob [OF True], of tier1]
  show ?thesis using s1(1) True by (simp add: HasTier1_def present_def)
qed

text \<open>The recorder's code for a result, empty for success.\<close>

definition code_of :: "AuditRecorder \<Rightarrow> 'a res \<Rightarrow> string" where
  "code_of rec r = (case r of Inl e \<Rightarrow> ErrorCode rec e | Inr _ \<Rightarrow> [])"

definition put_event :: "tier \<Rightarrow> bool \<Rightarrow> string" where
  "put_event t existed = (if t = tier0 then ''keys.tier0.stored''
     else if existed then ''keys.tier1.replaced'' else ''keys.tier1.stored'')"

lemma put_tier0_trail:
  assumes "os_sound os d" and "pinned os d s" and "audit s = Some rec"
    and "putTier0WithSource os ref p src s = (r, s')"
  shows "trail s' = trail s @ [audit_row (Unix os (world s')) ''keys.tier0.stored'' ref tier0 src (code_of rec r)]"
proof -
  obtain q s1 where e: "ensureMaster os tier0 s = (q, s1)" by fastforce
  have f1: "frame os d (ensure_names tier0) s s1"
    using ensureMaster_settles [OF assms(1,2), of tier0] e by (simp add: settles_def)
  then have p1: "pinned os d s1" using pinned_touches assms(2) frame_touches by metis
  note a1 = frame_fields [OF f1]
  show ?thesis
  proof (cases q)
    case (Inl x)
    with e assms(3,4) a1 show ?thesis
      by (auto simp: putTier0WithSource_def trail_audits auditErrorCode_cases code_of_def)
  next
    case (Inr m)
    obtain r2 s2 where p: "putLocked os tier0 ref p m s1 = (r2, s2)" by fastforce
    have "frame os d {ref @ blobSuffixFor tier0} s1 s2"
      using putLocked_quiet [OF assms(1) p1, of ref tier0 p m] p by (simp add: quiet_def)
    from frame_fields [OF this] a1 e Inr p assms(3,4) show ?thesis
      by (auto simp: putTier0WithSource_def trail_audits outcome_code_def auditErrorCode_cases
          code_of_def split: sum.splits)
  qed
qed

lemma put_tier1_trail:
  assumes "os_sound os d" and "pinned os d s" and "audit s = Some rec"
    and "putTier1WithSource os ref p src s = (r, s')"
  defines "existed \<equiv> valid_ref ref \<and> present os d (ref @ blobSuffixFor tier1) s"
  shows "trail s' = trail s @
    (if existed \<and> r = Inr () \<and> core s then [Broadcast \<lparr>Kind = ''replaced'', Ref = ref\<rparr>] else []) @
    [audit_row (Unix os (world s')) (put_event tier1 existed) ref tier1 src (code_of rec r)]"
proof -
  obtain q s1 where e: "ensureMaster os tier1 s = (q, s1)" by fastforce
  have f1: "frame os d (ensure_names tier1) s s1"
    using ensureMaster_settles [OF assms(1,2), of tier1] e by (simp add: settles_def)
  then have p1: "pinned os d s1" using pinned_touches assms(2) frame_touches by metis
  obtain h s2 where h: "HasTier1 os ref s1 = (h, s2)" by fastforce
  have f2: "frame os d {} s1 s2" using HasTier1_quiet [OF p1, of "{}" ref] h by (simp add: quiet_def)
  then have p2: "pinned os d s2" using pinned_touches p1 frame_touches by metis
  have ne: "ref @ blobSuffixFor tier1 \<notin> ensure_names tier1" if "valid_ref ref"
    using blob_not_master [of ref tier1 tier1] by (simp add: ensure_names_def masterFileNameFor_def)
  have "h = Inr True \<longleftrightarrow> existed"
    using HasTier1_present [OF p1, of ref] h touches_file_at(2) [OF frame_touches [OF f1] plain_blob ne]
    by (auto simp: existed_def)
  note a = frame_fields [OF f1] frame_fields [OF f2] this
  show ?thesis
  proof (cases q)
    case (Inl x)
    with e h assms(3,4) a show ?thesis
      by (auto simp: putTier1WithSource_def Let_def trail_audits auditErrorCode_cases code_of_def put_event_def)
  next
    case (Inr m)
    obtain r2 s3 where p: "putLocked os tier1 ref p m s2 = (r2, s3)" by fastforce
    have "frame os d {ref @ blobSuffixFor tier1} s2 s3"
      using putLocked_quiet [OF assms(1) p2, of ref tier1 p m] p by (simp add: quiet_def)
    from frame_fields [OF this] a e h Inr p assms(3,4) show ?thesis
      by (cases r2; cases existed) (auto simp: putTier1WithSource_def Let_def trail_audits
          trail_broadcast auditErrorCode_cases code_of_def put_event_def)
  qed
qed


lemma delete_trail:
  assumes "os_sound os d" and "pinned os d s" and "audit s = Some rec"
    and "deleteWithSource os t ref src s = (r, s')"
  shows "trail s' = trail s @
    (if valid_ref ref \<and> \<not> present os d (ref @ blobSuffixFor t) s then []
     else (if t = tier1 \<and> r = Inr () \<and> core s then [Broadcast \<lparr>Kind = ''deleted'', Ref = ref\<rparr>] else []) @
       [audit_row (Unix os (world s')) (if t = tier0 then ''keys.tier0.deleted'' else ''keys.tier1.deleted'')
          ref t src (code_of rec r)])"
proof (cases "valid_ref ref")
  case False
  obtain e where "keyPath os ref t s = (Inl e, s)" using keyPath_invalid [OF False] by blast
  with assms(3,4) False show ?thesis
    by (cases t) (auto simp: deleteWithSource_def deleteTier0WithSource_def deleteTier1WithSource_def
        Let_def trail_audits auditErrorCode_cases code_of_def)
next
  case True
  let ?path = "PathJoin os d (ref @ blobSuffixFor t)"
  obtain s1 where s1: "keyPath os ref t s = (Inr ?path, s1)" "quiet os d {} s s1"
    using keyPath_ok [OF assms(2) True] by metis
  have pr: "present os d (ref @ blobSuffixFor t) s1 = present os d (ref @ blobSuffixFor t) s"
    using touches_file_at(2) [OF frame_touches [OF quiet_frame [OF s1(2)]] plain_blob [OF True]] by simp
  note a1 = frame_fields [OF quiet_frame [OF s1(2)]]
  obtain q s2 where q: "remove_file os ?path s1 = (q, s2)" by fastforce
  have "quiet os d {ref @ blobSuffixFor t} s1 s2"
    using remove_file_quiet [OF assms(1) plain_blob [OF True], of t s1] q by simp
  note a2 = frame_fields [OF quiet_frame [OF this]]
  show ?thesis
  proof (cases "stat os s1 ?path")
    case None
    with delete_at_path [OF assms(4) s1(1) q] a1 pr True show ?thesis by (simp add: present_def)
  next
    case (Some fi)
    then have p: "present os d (ref @ blobSuffixFor t) s" using pr by (simp add: present_def)
    show ?thesis
    proof (cases q)
      case (Inl e)
      from assms(4) [symmetric] s1(1) q Inl Some a1 a2 assms(3) p True show ?thesis
        by (cases t) (simp_all add: deleteWithSource_def deleteTier0WithSource_def
            deleteTier1WithSource_def Let_def trail_audits auditErrorCode_cases code_of_def)
    next
      case (Inr u)
      from assms(4) [symmetric] s1(1) q Inr Some a1 a2 assms(3) p True show ?thesis
        by (cases t) (simp_all add: deleteWithSource_def deleteTier0WithSource_def
            deleteTier1WithSource_def Let_def trail_audits trail_broadcast code_of_def)
    qed
  qed
qed

text \<open>
  C25.  Every put emits exactly one audit row, with the outcome of the put, the recorder's error
  code and never a byte of the secret, preceded by one broadcast if it replaced a tier-1 secret;
  every delete does the same, except that deleting what is not there emits nothing.
\<close>

theorem each_mutation_is_audited_once:
  assumes "os_sound os d" and "pinned os d s" and "audit s = Some rec"
  defines "existed \<equiv> \<lambda>t ref. valid_ref ref \<and> present os d (ref @ blobSuffixFor t) s"
  shows "(\<forall>t ref p src r s'. putWithSource os t ref p src s = (r, s') \<longrightarrow>
      trail s' = trail s @
        (if t = tier1 \<and> existed t ref \<and> r = Inr () \<and> core s
         then [Broadcast \<lparr>Kind = ''replaced'', Ref = ref\<rparr>] else []) @
        [audit_row (Unix os (world s')) (put_event t (existed t ref)) ref t src (code_of rec r)]) \<and>
    (\<forall>t ref src r s'. deleteWithSource os t ref src s = (r, s') \<longrightarrow>
      trail s' = trail s @
        (if valid_ref ref \<and> \<not> existed t ref then []
         else (if t = tier1 \<and> r = Inr () \<and> core s then [Broadcast \<lparr>Kind = ''deleted'', Ref = ref\<rparr>] else []) @
           [audit_row (Unix os (world s'))
              (if t = tier0 then ''keys.tier0.deleted'' else ''keys.tier1.deleted'')
              ref t src (code_of rec r)]))"
proof (intro conjI allI impI)
  fix t ref p src r s'
  assume put: "putWithSource os t ref p src s = (r, s')"
  show "trail s' = trail s @
        (if t = tier1 \<and> existed t ref \<and> r = Inr () \<and> core s
         then [Broadcast \<lparr>Kind = ''replaced'', Ref = ref\<rparr>] else []) @
        [audit_row (Unix os (world s')) (put_event t (existed t ref)) ref t src (code_of rec r)]"
    using put_tier0_trail [OF assms(1-3), of ref p src r s'] put_tier1_trail [OF assms(1-3), of ref p src r s'] put
    by (cases t) (simp_all add: putWithSource_def put_event_def existed_def)
next
  fix t ref src r s'
  assume "deleteWithSource os t ref src s = (r, s')"
  from delete_trail [OF assms(1-3) this]
  show "trail s' = trail s @
        (if valid_ref ref \<and> \<not> existed t ref then []
         else (if t = tier1 \<and> r = Inr () \<and> core s then [Broadcast \<lparr>Kind = ''deleted'', Ref = ref\<rparr>] else []) @
           [audit_row (Unix os (world s'))
              (if t = tier0 then ''keys.tier0.deleted'' else ''keys.tier1.deleted'')
              ref t src (code_of rec r)])"
    by (auto simp: existed_def)
qed

theorem each_mutation_is_audited_once_witness:
  "trail (snd (putWithSource disk_os tier1 ''b'' [9] ''internal'' (demo_listing\<lparr>tier1Master := demo_master tier1\<rparr>))) =
     [Broadcast \<lparr>Kind = ''replaced'', Ref = ''b''\<rparr>,
      audit_row 0 ''keys.tier1.replaced'' ''b'' tier1 ''internal'' []]"
proof -
  let ?s = "demo_listing\<lparr>tier1Master := demo_master tier1\<rparr>"
  let ?x = "putWithSource disk_os tier1 ''b'' [9] ''internal'' ?s"
  have p: "pinned disk_os ''/k'' ?s" by (simp add: demo_pinned demo_listing_def demo_defs)
  have a: "audit ?s = Some \<lparr>ErrorCode = (\<lambda>e. ''failed'')\<rparr>" by (simp add: demo_listing_def demo_defs)
  have "fst ?x = Inr ()"
    by (simp add: demo_listing_def putWithSource_def keys_eval numeral_eq_Suc)
  then have x: "?x = (Inr (), snd ?x)" by (simp add: prod_eq_iff)
  have "\<not> hasTierSuffix ''b''" by (simp add: hasTierSuffix_def HasSuffix_def Let_def)
  then have e: "valid_ref ''b'' \<and> present disk_os ''/k'' (''b'' @ blobSuffixFor tier1) ?s"
    by (simp add: valid_ref_def present_def stat_def demo_listing_def disk_os_def)
  have t: "trail ?s = []" "core ?s" by (simp_all add: demo_listing_def demo_defs trail_def)
  have "Unix disk_os w = 0" for w by (simp add: disk_os_def)
  then show ?thesis
    using each_mutation_is_audited_once [OF disk_os_sound p a, THEN conjunct1,
        rule_format, OF x] e t by (simp add: put_event_def code_of_def)
qed

section \<open>A new directory\<close>

text \<open>A system that never fails in the calls that create a key.\<close>

definition reliable :: "'w os_lib \<Rightarrow> bool" where
  "reliable os \<longleftrightarrow> (\<forall>n w. ok (fst (RandomBytes os n w))) \<and> (\<forall>p c m w. fst (WriteFile os p c m w) = None) \<and>
     (\<forall>k p w. length k = masterKeySize \<longrightarrow> ok (fst (sigil_In os k p w)))"

lemma reliable_random: "reliable os \<Longrightarrow> \<exists>b s'. random_bytes os n s = (Inr b, s')"
  unfolding reliable_def random_bytes_def
  by (cases "RandomBytes os n (world s)") (metis fst_conv ok.elims(2) old.prod.case)

lemma reliable_write: "reliable os \<Longrightarrow> \<exists>s'. write_file os path c s = (Inr (), s')"
  unfolding reliable_def write_file_def
  by (cases "WriteFile os path c fileMode (world s)") (metis fst_conv of_error_simps(1) old.prod.case)

lemma reliable_seal: "reliable os \<Longrightarrow> length k = masterKeySize \<Longrightarrow> \<exists>c s'. seal os k p s = (Inr c, s')"
  unfolding reliable_def seal_def
  by (cases "sigil_In os k p (world s)") (metis fst_conv ok.elims(2) old.prod.case)

lemma reliable_master:
  assumes "reliable os" and "sigil_sound os" and "length kek = masterKeySize"
  shows "\<exists>s'. writeMasterLocked os path m kek s = (Inr (), s')"
proof -
  have "NewChaChaPolySigil os kek = None" using assms(2,3) by (simp add: sigil_sound_def)
  moreover obtain c s1 where "seal os kek m s = (Inr c, s1)" using reliable_seal [OF assms(1,3)] by blast
  moreover obtain s2 where "write_file os path c s1 = (Inr (), s2)" using reliable_write [OF assms(1)] by blast
  ultimately show ?thesis by (auto simp: writeMasterLocked_def)
qed

lemma fresh_ensureMaster:
  assumes "os_sound os d" and "sigil_sound os" and "reliable os" and "coherent os d kek tier0 s"
    and "\<not> present os d masterTier0FileName s" and "\<not> present os d legacyMasterFileName s"
  obtains m s' where "ensureMaster os tier0 s = (Inr m, s')"
    and "settles os d {masterTier0FileName} tier0 s s'"
proof (cases "length (cached tier0 s) = masterKeySize")
  case True
  then show thesis by (intro that [of "cached tier0 s" s]) (simp_all add: ensureMaster_def)
next
  case False
  obtain s1 where s1: "keysDir os s = (Inr d, s1)" "quiet os d {} s s1"
    using keysDir_pinned assms(4) unfolding coherent_def by metis
  note t1 = frame_touches [OF quiet_frame [OF s1(2)]]
  have abs: "stat os s1 (PathJoin os d masterTier0FileName) = None"
      "stat os s1 (PathJoin os d legacyMasterFileName) = None"
    using assms(5,6) touches_file_at(2) [OF t1, of masterTier0FileName]
      touches_file_at(2) [OF t1, of legacyMasterFileName] by (auto simp: present_def)
  have pr: "provides s1 tier0 kek" using assms(4) provides_touches [OF t1] by (simp add: coherent_def)
  obtain m s2 where r: "random_bytes os masterKeySize s1 = (Inr m, s2)" using reliable_random [OF assms(3)] by blast
  obtain s3 where w: "writeMasterLocked os (PathJoin os d masterTier0FileName) m kek s2 = (Inr (), s3)"
    using reliable_master [OF assms(3,2), of kek] pr unfolding provides_def by blast
  have "ensureMaster os tier0 s = (Inr m, set_cached tier0 m s3)"
    using False s1(1) abs r w need_kek_provides [OF pr]
    by (simp add: ensureMaster_def ensureTier0Locked_def generateTier0Locked_def)
  moreover have "quiet os d {masterTier0FileName} s1 s2"
    using random_bytes_quiet [OF assms(1), of "{masterTier0FileName}" s1 masterKeySize] r by simp
  moreover have "quiet os d {masterTier0FileName} s2 s3"
    using writeMasterLocked_quiet [OF assms(1), of masterTier0FileName "{masterTier0FileName}" s2 m kek] w
    by simp
  ultimately show thesis using that s1(2) quiet_mono [OF s1(2)] quiet_trans
    by (metis empty_subsetI quiet_settles settles_set_cached_after)
qed

lemma reliable_put:
  assumes "os_sound os d" and "sigil_sound os" and "reliable os" and "unlocked os d kek tier0 m s"
    and "valid_ref ref"
  shows "\<exists>s'. putByTier os tier0 ref p s = (Inr (), s')"
proof -
  obtain s1 where s1: "ensureMaster os tier0 s = (Inr m, s1)" "unlocked os d kek tier0 m s1"
    using ensureMaster_unlocked [OF assms(1,2,4)] by metis
  obtain s2 where s2: "keyPath os ref tier0 s1 = (Inr (PathJoin os d (ref @ blobSuffixFor tier0)), s2)"
    using keyPath_ok [OF unlocked_pinned [OF s1(2)] assms(5)] by metis
  have len: "length m = masterKeySize" by (rule unlocked_length [OF assms(4)])
  then have "NewChaChaPolySigil os m = None" using assms(2) by (simp add: sigil_sound_def)
  moreover obtain c s3 where "seal os m p s2 = (Inr c, s3)" using reliable_seal [OF assms(3) len] by blast
  moreover obtain s4 where "write_file os (PathJoin os d (ref @ blobSuffixFor tier0)) c s3 = (Inr (), s4)"
    using reliable_write [OF assms(3)] by blast
  ultimately have "putLocked os tier0 ref p m s1 = (Inr (), s4)" using s2 by (auto simp: putLocked_def)
  with s1(1) show ?thesis by (simp add: putByTier_def PutTier0_def putTier0WithSource_def)
qed

text \<open>
  C26.  On a new directory, with a tier-0 key at hand and a system that does not fail, the first
  call for the single-instance key returns one.
\<close>

theorem new_directory_gets_a_key:
  assumes "os_sound os d" and "sigil_sound os" and "reliable os" and "coherent os d kek tier0 s"
    and "\<not> present os d masterTier0FileName s" and "\<not> present os d legacyMasterFileName s"
    and "\<not> present os d (singleInstanceRef @ tier0BlobSuffix) s"
  shows "\<exists>key s'. SingleInstanceKey os s = (Inr key, s') \<and> length key = 32"
proof -
  let ?n = "singleInstanceRef @ blobSuffixFor tier0"
  have v: "valid_ref singleInstanceRef"
    by (simp add: valid_ref_def keys_consts hasTierSuffix_def HasSuffix_def Let_def)
  obtain m s1 where s1: "ensureMaster os tier0 s = (Inr m, s1)"
      "settles os d {masterTier0FileName} tier0 s s1"
    using fresh_ensureMaster [OF assms(1-6)] by blast
  have u1: "unlocked os d kek tier0 m s1" using ensureMaster_Inr(1) [OF assms(1,2,4) s1(1)] .
  have "\<not> present os d ?n s1"
    using touches_file_at(2) [OF settles_touches [OF s1(2)], of ?n] assms(7) plain_names(6)
    by (simp add: keys_consts)
  then have none1: "secrets os d m tier0 s1 singleInstanceRef = None"
    using file_at_present [OF assms(1) plain_blob [OF v], of tier0 s1]
    by (cases "file_at os d ?n s1") (auto simp: secrets_def simp del: file_at_Some)
  obtain e s2 where s2: "getByTier os tier0 singleInstanceRef s = (Inl e, s2)" "unlocked os d kek tier0 m s2"
      "secrets os d m tier0 s2 singleInstanceRef = None"
  proof -
    have g: "getByTier os tier0 singleInstanceRef s = getLocked os tier0 singleInstanceRef m s1"
      using s1(1) by (simp add: getByTier_def GetTier0_def)
    have l: "quiet os d {} s1 (snd (getByTier os tier0 singleInstanceRef s)) \<and>
        (fst (getByTier os tier0 singleInstanceRef s) = Inr p \<longleftrightarrow>
         secrets os d m tier0 s1 singleInstanceRef = Some p)" for p
      unfolding g by (rule getLocked_unlocked [OF assms(1,2) unlocked_pinned [OF u1] unlocked_length [OF u1]])
    then obtain e where "fst (getByTier os tier0 singleInstanceRef s) = Inl e"
      using none1 by (cases "fst (getByTier os tier0 singleInstanceRef s)") auto
    moreover have "secrets os d m tier0 (snd (getByTier os tier0 singleInstanceRef s)) = secrets os d m tier0 s1"
      by (rule secrets_touches [where N = "{}"]) (use l in \<open>auto dest: quiet_frame frame_touches\<close>)
    moreover have "unlocked os d kek tier0 m (snd (getByTier os tier0 singleInstanceRef s))"
      using unlocked_quiet [of os d "{}"] l u1 by blast
    ultimately show thesis using that [of e "snd (getByTier os tier0 singleInstanceRef s)"] none1
      by (metis prod.collapse)
  qed
  obtain e' s3 where s3: "getByTier os tier0 singleInstanceRef s2 = (Inl e', s3)" "unlocked os d kek tier0 m s3"
    using get_unlocked [OF assms(1,2) s2(2), of singleInstanceRef] s2(3)
    by (cases "getByTier os tier0 singleInstanceRef s2"; cases "fst (getByTier os tier0 singleInstanceRef s2)") auto
  obtain raw w where raw: "RandomBytes os masterKeySize (world s3) = (Inr raw, w)"
    using reliable_random [OF assms(3), of masterKeySize s3] by (auto simp: random_bytes_def split: prod.splits)
  have "unlocked os d kek tier0 m (s3\<lparr>world := w\<rparr>)"
    using unlocked_quiet [OF generate_quiet [OF random_generator(1) [OF assms(1)], of "{}" s3] _ s3(2)] raw by simp
  then obtain s4 where "putByTier os tier0 singleInstanceRef raw (s3\<lparr>world := w\<rparr>) = (Inr (), s4)"
    using reliable_put [OF assms(1-3) _ v] by blast
  then have "getOrCreate os tier0 singleInstanceRef (RandomBytes os masterKeySize) s = (Inr raw, s4)"
    using s2(1) s3(1) raw by (simp add: getOrCreate_def getOrCreate_slow_def)
  moreover have "length raw = masterKeySize"
    using assms(1) raw unfolding os_sound_def entropy_sound_def by (metis fst_conv)
  ultimately show ?thesis using SingleInstanceKey_Inr by (metis masterKeySize_def)
qed

lemma disk_reliable: "reliable disk_os"
  by (simp add: reliable_def disk_os_def)

theorem new_directory_gets_a_key_witness:
  "\<exists>key s'. SingleInstanceKey disk_os demo_service = (Inr key, s') \<and> length key = 32"
  by (rule new_directory_gets_a_key [OF disk_os_sound disk_sigil_sound disk_reliable demo_coherent])
    (simp_all add: present_def stat_def disk_os_def demo_service_def)

end
