(* ===== verification/KeysMigration.thy ===== *)
theory KeysMigration
  imports KeysVault
begin

text \<open>
  \<^verbatim>\<open>SetKEKProvider\<close> and the migration it starts: a directory from before the tiers, with one master
  \<^verbatim>\<open>.master\<close> and blobs \<^verbatim>\<open>ref.aead\<close>, becomes one with two tiers.  The steps are those the code
  numbers; one that returns early is an error here, which the caller drops after the log line.
\<close>

section \<open>The steps\<close>

definition giveUp :: "string \<Rightarrow> 'w Service \<Rightarrow> 'a res \<times> 'w Service" where
  "giveUp msg s = (Inl (NewError msg), Warn msg s)"

text \<open>\<^verbatim>\<open>if !r.OK { core.Warn(msg, ...); return }\<close>\<close>

definition orGiveUp :: "string \<Rightarrow> 'a res \<times> 'w Service \<Rightarrow> 'a res \<times> 'w Service" where
  "orGiveUp msg x = (case x of (Inl e, s) \<Rightarrow> giveUp msg s | (Inr a, s) \<Rightarrow> (Inr a, s))"

text \<open>3a, 3b: the 32 bytes of the legacy master, unwrapped if it is wrapped.\<close>

definition migrate_legacy_master ::
  "'w os_lib \<Rightarrow> string \<Rightarrow> bytes \<Rightarrow> 'w Service \<Rightarrow> bytes res \<times> 'w Service" where
  "migrate_legacy_master os legacyPath kek s =
     andThen (orGiveUp ''keys: tier-1 migration read legacy master failed'' (read_file os legacyPath s)) (\<lambda>legacy s.
     if length legacy = masterKeySize then (Inr legacy, s)
     else if length legacy = kekWrappedMasterLen
     then andThen (orGiveUp ''keys: tier-1 migration init legacy KEK sigil failed'' (new_sigil os kek s)) (\<lambda>_ s.
          andThen (orGiveUp ''keys: tier-1 migration KEK-unwrap legacy master failed (provider key mismatch?)'' (unseal os kek legacy s)) (\<lambda>unwrapped s.
          if length unwrapped \<noteq> masterKeySize
          then giveUp ''keys: tier-1 migration unwrapped legacy master wrong length'' s
          else (Inr unwrapped, s)))
     else giveUp ''keys: tier-1 migration legacy master wrong length'' s)"

text \<open>3b.5: with a legacy single-instance blob, a tier-0 key must be at hand before anything is written.\<close>

definition migrate_guard :: "bool \<Rightarrow> 'w Service \<Rightarrow> unit res \<times> 'w Service" where
  "migrate_guard siLegacyPresent s =
     (if siLegacyPresent
      then case currentKEKFor tier0 s of
             (None, s) \<Rightarrow> giveUp ''keys: tier-1 migration deferred - single-instance.aead present but tier-0 KEK provider not wired; retaining legacy .master + single-instance.aead, latch unset (will retry on next SetKEKProvider with tier-0 wired)'' s
           | (Some kek, s) \<Rightarrow> (Inr (), s)
      else (Inr (), s))"

text \<open>3c: the tier-0 master, generated if there is none and loaded if it is not cached.\<close>

definition migrate_tier0_master :: "'w os_lib \<Rightarrow> string \<Rightarrow> 'w Service \<Rightarrow> unit res \<times> 'w Service" where
  "migrate_tier0_master os tier0Path s =
     (if stat os s tier0Path = None
      then case currentKEKFor tier0 s of
             (None, s) \<Rightarrow> (Inr (), s)
           | (Some t0kek, s) \<Rightarrow>
               andThen (orGiveUp ''keys: tier-1 migration Step 3c gen tier-0 master failed'' (random_bytes os masterKeySize s)) (\<lambda>t0master s.
               andThen (orGiveUp ''keys: tier-1 migration Step 3c write tier-0 master failed'' (writeMasterLocked os tier0Path t0master t0kek s)) (\<lambda>_ s.
               (Inr (), set_cached tier0 t0master s)))
      else if length (cached tier0 s) \<noteq> masterKeySize
      then case currentKEKFor tier0 s of
             (None, s) \<Rightarrow> (Inr (), s)
           | (Some t0kek, s) \<Rightarrow>
               andThen (orGiveUp ''keys: tier-1 migration Step 3c load tier-0 master read failed'' (read_file os tier0Path s)) (\<lambda>blob s.
               if length blob \<noteq> kekWrappedMasterLen
               then giveUp ''keys: tier-1 migration Step 3c on-disk tier-0 master has wrong length; refusing to use'' s
               else
                 andThen (orGiveUp ''keys: tier-1 migration Step 3c init tier-0 KEK sigil failed'' (new_sigil os t0kek s)) (\<lambda>_ s.
                 andThen (orGiveUp ''keys: tier-1 migration Step 3c unwrap tier-0 KEK envelope failed (provider key mismatch?)'' (unseal os t0kek blob s)) (\<lambda>unwrapped s.
                 if length unwrapped \<noteq> masterKeySize
                 then giveUp ''keys: tier-1 migration Step 3c KEK-unwrapped tier-0 master has wrong length'' s
                 else (Inr (), set_cached tier0 unwrapped s))))
      else (Inr (), s))"

text \<open>3e: the legacy single-instance blob, resealed under the tier-0 master.\<close>

definition migrate_single_instance ::
  "'w os_lib \<Rightarrow> string \<Rightarrow> bytes \<Rightarrow> bool \<Rightarrow> 'w Service \<Rightarrow> unit res \<times> 'w Service" where
  "migrate_single_instance os dir legacyMaster siLegacyPresent s =
     (let legacySIPath = PathJoin os dir (singleInstanceRef @ legacyBlobSuffix) in
      if siLegacyPresent \<and> stat os s legacySIPath \<noteq> None
      then
        if length (cached tier0 s) \<noteq> masterKeySize
        then giveUp ''keys: tier-1 migration Step 3e defensive - single-instance.aead present but tier-0 master not loaded at re-seal point (Step 3b.5 guard should have caught this); deferring'' s
        else
          andThen (orGiveUp ''keys: tier-1 migration Step 3e read legacy single-instance failed'' (read_file os legacySIPath s)) (\<lambda>blob s.
          andThen (orGiveUp ''keys: tier-1 migration Step 3e init legacy sigil failed'' (new_sigil os legacyMaster s)) (\<lambda>_ s.
          andThen (orGiveUp ''keys: tier-1 migration Step 3e decrypt single-instance failed'' (unseal os legacyMaster blob s)) (\<lambda>plaintext s.
          andThen (orGiveUp ''keys: tier-1 migration Step 3e init tier-0 sigil failed'' (new_sigil os (cached tier0 s) s)) (\<lambda>_ s.
          andThen (orGiveUp ''keys: tier-1 migration Step 3e re-seal single-instance failed'' (seal os (cached tier0 s) plaintext s)) (\<lambda>newBlob s.
          andThen (orGiveUp ''keys: tier-1 migration Step 3e write tier-0 single-instance failed''
                     (write_file os (PathJoin os dir (singleInstanceRef @ tier0BlobSuffix)) newBlob s)) (\<lambda>_ s.
          orWarn ''keys: tier-1 migration Step 3e remove legacy single-instance failed''
            (remove_file os legacySIPath s)))))))
      else (Inr (), s))"

text \<open>3f: which entries are renamed, and one renaming.\<close>

definition migrates_name :: "string \<Rightarrow> bool" where
  "migrates_name name \<longleftrightarrow> HasSuffix name legacyBlobSuffix \<and>
     \<not> (HasSuffix name tier0BlobSuffix \<or> HasSuffix name tier1BlobSuffix) \<and>
     name \<noteq> singleInstanceRef @ legacyBlobSuffix"

definition migrate_blob :: "'w os_lib \<Rightarrow> string \<Rightarrow> string \<Rightarrow> 'w Service \<Rightarrow> unit res \<times> 'w Service" where
  "migrate_blob os dir name s =
     (let ref = take (length name - length legacyBlobSuffix) name;
          oldPath = PathJoin os dir name;
          newPath = PathJoin os dir (ref @ tier1BlobSuffix)
      in andThen (orGiveUp ''keys: tier-1 migration Step 3f read blob failed'' (read_file os oldPath s)) (\<lambda>blob s.
         andThen (orGiveUp ''keys: tier-1 migration Step 3f write blob failed'' (write_file os newPath blob s)) (\<lambda>_ s.
         orWarn ''keys: tier-1 migration Step 3f remove legacy blob failed'' (remove_file os oldPath s))))"

fun migrate_blobs ::
  "'w os_lib \<Rightarrow> string \<Rightarrow> (string \<times> bool) list \<Rightarrow> 'w Service \<Rightarrow> unit res \<times> 'w Service" where
  "migrate_blobs os dir [] s = (Inr (), s)"
| "migrate_blobs os dir ((name, isDir) # es) s =
     (if isDir \<or> \<not> migrates_name name then migrate_blobs os dir es s
      else andThen (migrate_blob os dir name s) (\<lambda>_ s. migrate_blobs os dir es s))"

text \<open>Step 3 as a whole.\<close>

definition migrate_legacy :: "'w os_lib \<Rightarrow> string \<Rightarrow> 'w Service \<Rightarrow> unit res \<times> 'w Service" where
  "migrate_legacy os dir s =
     (let legacyPath = PathJoin os dir legacyMasterFileName;
          tier1Path = PathJoin os dir masterTier1FileName;
          tier0Path = PathJoin os dir masterTier0FileName;
          legacySIPath = PathJoin os dir (singleInstanceRef @ legacyBlobSuffix)
      in andThen (need_kek tier1 [] s) (\<lambda>kek s.
         andThen (migrate_legacy_master os legacyPath kek s) (\<lambda>legacyMaster s.
         let siLegacyPresent = (stat os s legacySIPath \<noteq> None) in
         andThen (migrate_guard siLegacyPresent s) (\<lambda>_ s.
         andThen (migrate_tier0_master os tier0Path s) (\<lambda>_ s.
         andThen (orGiveUp ''keys: tier-1 migration Step 3d write tier-1 master failed''
                    (writeMasterLocked os tier1Path legacyMaster kek s)) (\<lambda>_ s.
         andThen (migrate_single_instance os dir legacyMaster siLegacyPresent (set_cached tier1 legacyMaster s)) (\<lambda>_ s.
         andThen (orGiveUp ''keys: tier-1 migration Step 3f readdir failed'' (ReadDir os (world s) dir, s)) (\<lambda>es s.
         andThen (migrate_blobs os dir es s) (\<lambda>_ s.
         andThen (orWarn ''keys: tier-1 migration Step 3g remove legacy .master failed'' (remove_file os legacyPath s)) (\<lambda>_ s.
         (Inr (), (Info ''keys: migrated to tier-partitioned scheme'' s)\<lparr>migrationComplete := True\<rparr>)))))))))))"

definition migrateTier1Locked :: "'w os_lib \<Rightarrow> 'w Service \<Rightarrow> 'w Service" where
  "migrateTier1Locked os s =
     (case keysDir os s of
        (Inl e, s) \<Rightarrow> Warn ''keys: tier-1 migration skipped - keys dir resolve failed'' s
      | (Inr dir, s) \<Rightarrow>
          let hasLegacy = (stat os s (PathJoin os dir legacyMasterFileName) \<noteq> None);
              hasTier1 = (stat os s (PathJoin os dir masterTier1FileName) \<noteq> None)
          in if \<not> hasLegacy \<and> \<not> hasTier1 then s\<lparr>migrationComplete := True\<rparr>
             else if hasLegacy \<and> hasTier1
             then Warn ''keys: BOTH .master and .master-tier1 present - refusing to migrate; resolve manually before unlocking'' s
             else if hasTier1 \<and> \<not> hasLegacy then s\<lparr>migrationComplete := True\<rparr>
             else snd (migrate_legacy os dir s))"

definition SetKEKProvider :: "'w os_lib \<Rightarrow> 'w KEKProvider option \<Rightarrow> 'w Service \<Rightarrow> 'w Service" where
  "SetKEKProvider os provider s =
     (let s = set_cached tier1 [] (s\<lparr>tier1KEKProvider := provider\<rparr>)
      in if provider \<noteq> None \<and> \<not> migrationComplete s then migrateTier1Locked os s else s)"


section \<open>Frames of the steps\<close>

lemma giveUp_quiet [simp]: "quiet os d N s (snd (giveUp msg s))"
  by (simp add: giveUp_def)

lemma giveUp_not_Inr [simp]: "giveUp msg s \<noteq> (Inr a, s')" "fst (giveUp msg s) = Inr a \<longleftrightarrow> False"
  by (simp_all add: giveUp_def)

lemma orGiveUp_Inr [simp]: "orGiveUp msg x = (Inr a, s') \<longleftrightarrow> x = (Inr a, s')"
  by (cases x; cases "fst x") (auto simp: orGiveUp_def giveUp_def)

lemma orGiveUp_quiet [frame_rules]: "quiet os d N s (snd x) \<Longrightarrow> quiet os d N s (snd (orGiveUp msg x))"
  by (cases x; cases "fst x") (auto simp: orGiveUp_def intro: quiet_trans)

lemma orWarn_Inr: "orWarn msg x = (r, s') \<Longrightarrow> r = Inr ()"
  by (cases x; cases "fst x") (auto simp: orWarn_def)

lemma migrate_legacy_master_quiet [frame_rules]:
  "quiet os d N s (snd (migrate_legacy_master os path kek s))"
  unfolding migrate_legacy_master_def by (auto intro!: frame_rules)

lemma migrate_guard_quiet [frame_rules]: "quiet os d N s (snd (migrate_guard si s))"
  using currentKEKFor_quiet [of os d N s tier0]
  by (cases "currentKEKFor tier0 s") (auto simp: migrate_guard_def giveUp_def split: option.splits intro: quiet_trans)

lemma migrate_tier0_settles:
  assumes "os_sound os d"
  shows "settles os d {masterTier0FileName} tier0 s
    (snd (migrate_tier0_master os (PathJoin os d masterTier0FileName) s))"
proof -
  have k: "settles os d {masterTier0FileName} tier0 s (snd (currentKEKFor tier0 s))"
    using currentKEKFor_quiet quiet_settles by blast
  obtain r s1 where c: "currentKEKFor tier0 s = (r, s1)" by fastforce
  note R = frame_rules assms quiet_settles [OF giveUp_quiet] orGiveUp_quiet [THEN quiet_settles]
  have gen: "settles os d {masterTier0FileName} tier0 s1 (snd
      (andThen (orGiveUp m1 (random_bytes os masterKeySize s1)) (\<lambda>t0master s.
       andThen (orGiveUp m2 (writeMasterLocked os (PathJoin os d masterTier0FileName) t0master t0kek s)) (\<lambda>_ s.
       (Inr (), set_cached tier0 t0master s)))))" for m1 m2 t0kek
    by (auto intro!: R)
  from k c gen show ?thesis
    unfolding migrate_tier0_master_def
    by (cases r) (auto intro!: R elim!: settles_trans)
qed

lemma migrate_single_instance_quiet:
  assumes "os_sound os d"
  shows "quiet os d {singleInstanceRef @ legacyBlobSuffix, singleInstanceRef @ tier0BlobSuffix} s
    (snd (migrate_single_instance os d lm si s))"
  unfolding migrate_single_instance_def Let_def by (auto intro!: frame_rules assms)

section \<open>The renaming loop\<close>

definition t1_name :: "string \<Rightarrow> string" where
  "t1_name n = take (length n - length legacyBlobSuffix) n @ tier1BlobSuffix"

definition renamed :: "(string \<times> bool) list \<Rightarrow> string set" where
  "renamed es = {n. (n, False) \<in> set es \<and> migrates_name n}"

definition touched :: "(string \<times> bool) list \<Rightarrow> string set" where
  "touched es = renamed es \<union> t1_name ` renamed es"

lemma HasSuffix_append_same: "HasSuffix (r @ s) (p @ s) \<longleftrightarrow> HasSuffix r p"
  by (simp add: HasSuffix_iff flip: append_assoc)

lemma migrates_name_iff:
  "migrates_name n \<longleftrightarrow> (\<exists>r. n = r @ ''.aead'' \<and> \<not> HasSuffix r ''.t0'' \<and> \<not> HasSuffix r ''.t1'' \<and> r \<noteq> singleInstanceRef)"
proof -
  have "HasSuffix (r @ ''.aead'') ''.t0.aead'' \<longleftrightarrow> HasSuffix r ''.t0''"
    and "HasSuffix (r @ ''.aead'') ''.t1.aead'' \<longleftrightarrow> HasSuffix r ''.t1''" for r
    using HasSuffix_append_same [of r "''.aead''" "''.t0''"]
      HasSuffix_append_same [of r "''.aead''" "''.t1''"] by simp_all
  then show ?thesis by (auto simp: migrates_name_def keys_consts HasSuffix_iff)
qed

lemma t1_name_append [simp]: "t1_name (r @ ''.aead'') = r @ ''.t1.aead''"
  by (simp add: t1_name_def keys_consts)


lemma t1_name_not_renamed: "migrates_name m \<Longrightarrow> migrates_name n \<Longrightarrow> t1_name m \<noteq> n"
proof
  assume "migrates_name m" "migrates_name n" "t1_name m = n"
  then obtain r q where "r @ ''.t1.aead'' = q @ ''.aead''" "\<not> HasSuffix q ''.t1''"
    by (auto simp: migrates_name_iff)
  then have "(r @ ''.t1'') @ ''.aead'' = q @ ''.aead''" by simp
  then have "q = r @ ''.t1''" by (metis append_same_eq)
  with \<open>\<not> HasSuffix q ''.t1''\<close> show False by simp
qed

lemma plain_t1: "plain n \<Longrightarrow> migrates_name n \<Longrightarrow> plain (t1_name n)"
  by (auto simp: migrates_name_iff plain_def append_eq_Cons_conv)

lemma migrate_blob_quiet:
  assumes "os_sound os d" and "plain n" and "migrates_name n"
  shows "quiet os d {n, t1_name n} s (snd (migrate_blob os d n s))"
  unfolding migrate_blob_def Let_def t1_name_def [symmetric]
  by (auto intro!: frame_rules assms plain_t1)


lemma renamed_Cons:
  "renamed ((n, isDir) # es) = (if isDir \<or> \<not> migrates_name n then renamed es else insert n (renamed es))"
  by (auto simp: renamed_def)

lemma migrate_blobs_quiet:
  assumes "os_sound os d" and "\<forall>e \<in> set es. plain (fst e)"
  shows "quiet os d (touched es) s (snd (migrate_blobs os d es s))"
  using assms(2)
proof (induction es arbitrary: s)
  case (Cons e es)
  obtain n b where e: "e = (n, b)" by (cases e)
  show ?case
  proof (cases "b \<or> \<not> migrates_name n")
    case True
    with Cons e show ?thesis by (simp add: touched_def renamed_Cons)
  next
    case False
    have sub: "{n, t1_name n} \<subseteq> touched (e # es)" "touched es \<subseteq> touched (e # es)"
      using False e by (auto simp: touched_def renamed_Cons)
    have "quiet os d (touched (e # es)) s (snd (migrate_blob os d n s))"
      by (rule quiet_mono [OF migrate_blob_quiet sub(1)]) (use assms(1) False Cons.prems e in auto)
    moreover have "quiet os d (touched (e # es)) s1 (snd (migrate_blobs os d es s1))" for s1
      using quiet_mono [OF Cons.IH sub(2)] Cons.prems by simp
    ultimately show ?thesis using e False by (auto intro: andThen_quiet)
  qed
qed simp



section \<open>A migration that completes\<close>

text \<open>The master of a legacy directory, raw or wrapped under the tier-1 key.\<close>

definition legacy_master_is :: "'w os_lib \<Rightarrow> string \<Rightarrow> bytes \<Rightarrow> bytes \<Rightarrow> 'w Service \<Rightarrow> bool" where
  "legacy_master_is os d kek lm s \<longleftrightarrow> length lm = masterKeySize \<and>
     (\<exists>b. file_at os d legacyMasterFileName s = Some b \<and>
        (b = lm \<or> length b = kekWrappedMasterLen \<and> sigil_Out os kek b = Inr lm))"

lemma migrate_legacy_master_Inr:
  "migrate_legacy_master os (PathJoin os d legacyMasterFileName) kek s = (Inr lm, s') \<Longrightarrow>
     s' = s \<and> legacy_master_is os d kek lm s"
  by (auto simp: migrate_legacy_master_def legacy_master_is_def split: if_splits)


text \<open>The names the single-instance step and the loop touch are apart from the masters.\<close>

lemma last_touched: "n \<in> touched es \<Longrightarrow> last n = CHR ''d'' \<and> n \<noteq> []"
  by (auto simp: touched_def renamed_def migrates_name_iff)

lemma masters_not_touched [simp]:
  "masterFileNameFor t \<notin> touched es" "legacyMasterFileName \<notin> touched es"
  by (auto dest!: last_touched simp: masterFileNameFor_def keys_consts)







section \<open>Wiring the tier-1 key\<close>

text \<open>The state in which a migration started by \<open>SetKEKProvider\<close> finds itself.\<close>

definition wired :: "'w KEKProvider \<Rightarrow> 'w Service \<Rightarrow> 'w Service" where
  "wired f s = set_cached tier1 [] (s\<lparr>tier1KEKProvider := Some f\<rparr>)"

lemma wired_simps [simp]:
  "file_at os d n (wired f s) = file_at os d n s" "present os d n (wired f s) = present os d n s"
  "pinned os d (wired f s) = pinned os d s" "world (wired f s) = world s"
  "migrationComplete (wired f s) = migrationComplete s" "cached tier0 (wired f s) = cached tier0 s"
  "cached tier1 (wired f s) = []" "provider_for tier0 (wired f s) = provider_for tier0 s"
  "provides (wired f s) tier0 k = provides s tier0 k"
  by (simp_all add: wired_def)
    (simp_all add: file_at_def present_def stat_def pinned_def cached_def provider_for_def provides_def set_cached_def)

lemma wired_provides:
  "(\<forall>w. f w = (kek, True)) \<Longrightarrow> length kek = masterKeySize \<Longrightarrow> provides (wired f s) tier1 kek"
  by (simp add: provides_def wired_def provider_for_def set_cached_def)

lemma SetKEKProvider_wired:
  "\<not> migrationComplete s \<Longrightarrow> SetKEKProvider os (Some f) s = migrateTier1Locked os (wired f s)"
  "migrationComplete s \<Longrightarrow> SetKEKProvider os (Some f) s = wired f s"
  by (simp_all add: SetKEKProvider_def wired_def Let_def)

lemma legacy_master_is_touches:
  "touches os d N s s' \<Longrightarrow> legacyMasterFileName \<notin> N \<Longrightarrow>
     legacy_master_is os d kek lm s' = legacy_master_is os d kek lm s"
  using touches_file_at(1) [of os d N s s' legacyMasterFileName] by (simp add: legacy_master_is_def)

text \<open>Entering step 3.\<close>

lemma SetKEKProvider_migrates:
  assumes "pinned os d s" and "\<not> migrationComplete s"
    and "present os d legacyMasterFileName s" and "\<not> present os d masterTier1FileName s"
  obtains s1 where "SetKEKProvider os (Some f) s = snd (migrate_legacy os d s1)"
    and "quiet os d {} (wired f s) s1"
proof -
  have "pinned os d (wired f s)" using assms(1) by simp
  then obtain s1 where s1: "keysDir os (wired f s) = (Inr d, s1)" "quiet os d {} (wired f s) s1"
    using keysDir_pinned by metis
  have "present os d legacyMasterFileName s1" "\<not> present os d masterTier1FileName s1"
    using touches_file_at(2) [OF frame_touches [OF quiet_frame [OF s1(2)]], of legacyMasterFileName]
      touches_file_at(2) [OF frame_touches [OF quiet_frame [OF s1(2)]], of masterTier1FileName] assms(3,4)
    by simp_all
  then have "SetKEKProvider os (Some f) s = snd (migrate_legacy os d s1)"
    using assms(2) s1(1) by (auto simp: SetKEKProvider_wired migrateTier1Locked_def Let_def present_def)
  with s1(2) that show thesis by blast
qed

text \<open>A step 3 that stops early has not set the latch.\<close>

definition unlatched :: "'w Service \<Rightarrow> 'a res \<times> 'w Service \<Rightarrow> bool" where
  "unlatched s x \<longleftrightarrow> migrationComplete (snd x) = migrationComplete s"

lemma unlatched_quiet: "quiet os d N s (snd x) \<Longrightarrow> unlatched s x"
  by (simp add: unlatched_def quiet_def same_caches_def)

lemma unlatched_settles: "settles os d N t s (snd x) \<Longrightarrow> unlatched s x"
  by (simp add: unlatched_def settles_def)

definition latches :: "bool \<Rightarrow> 'a res \<times> 'w Service \<Rightarrow> bool" where
  "latches b x \<longleftrightarrow> (if ok (fst x) then migrationComplete (snd x) else migrationComplete (snd x) = b)"

lemma latches_after:
  assumes "unlatched s x" and "migrationComplete s = b"
    and "\<And>a s1. x = (Inr a, s1) \<Longrightarrow> migrationComplete s1 = b \<Longrightarrow> latches b (f a s1)"
  shows "latches b (andThen x f)"
  using assms by (cases x; cases "fst x") (auto simp: latches_def unlatched_def)

lemma migrate_legacy_latches:
  assumes "os_sound os d"
  shows "latches (migrationComplete s) (migrate_legacy os d s)"
proof -
  let ?b = "migrationComplete s"
  note U = unlatched_quiet [where N = UNIV and os = os and d = d]
  have si: "unlatched s (migrate_single_instance os d lm b (set_cached tier1 lm s))" for s lm b
    using migrate_single_instance_quiet [OF assms, of "set_cached tier1 lm s" lm b]
    by (simp add: unlatched_def quiet_def same_caches_def)
  have t0: "unlatched s (migrate_tier0_master os (PathJoin os d masterTier0FileName) s)" for s
    using migrate_tier0_settles [OF assms] by (rule unlatched_settles)
  have bl: "unlatched s (migrate_blobs os d es s)" if "ReadDir os w d = Inr es" for es w s
  proof (rule unlatched_quiet [OF migrate_blobs_quiet [OF assms]])
    show "\<forall>e \<in> set es. plain (fst e)" using assms that unfolding os_sound_def read_sound_def by auto
  qed
  have rd: "unlatched s (orGiveUp msg (ReadDir os (world s) d, s))" for s msg
    by (rule unlatched_quiet [where N = UNIV and os = os and d = d]) (simp add: orGiveUp_quiet)
  have nk: "unlatched s (need_kek t msg s)" for t msg s by (rule unlatched_quiet) (rule need_kek_quiet)
  have lg: "unlatched s (migrate_legacy_master os p k s)" for p k s by (rule unlatched_quiet) (rule migrate_legacy_master_quiet)
  have gd: "unlatched s (migrate_guard b s)" for b s by (rule unlatched_quiet) (rule migrate_guard_quiet)
  have wr: "unlatched s (orGiveUp msg (writeMasterLocked os (PathJoin os d masterTier1FileName) m k s))"
    for msg m k s by (rule U) (auto intro!: frame_rules assms)
  have rm: "unlatched s (orWarn msg (remove_file os (PathJoin os d legacyMasterFileName) s))" for msg s
    by (rule U) (auto intro!: frame_rules assms)
  show ?thesis
    unfolding migrate_legacy_def Let_def
    apply (rule latches_after [OF nk refl])
    apply (rule latches_after [OF lg], assumption)
    apply (rule latches_after [OF gd], assumption)
    apply (rule latches_after [OF t0], assumption)
    apply (rule latches_after [OF wr], assumption)
    apply (rule latches_after [OF si], assumption)
    apply (rule latches_after [OF rd], assumption)
    apply (rule latches_after [OF bl], simp, assumption)
    apply (rule latches_after [OF rm], assumption)
    apply (simp add: latches_def)
    done
qed




text \<open>
  A legacy directory: a raw master, one blob and the single-instance key, sealed under it.
\<close>

definition demo_legacy :: "disk Service" where
  "demo_legacy = demo_service\<lparr>tier1KEKProvider := None, world := \<lparr>files =
     [(''/k/.master'', replicate 32 3), (''/k/a.aead'', replicate 24 0 @ [5] @ replicate 16 3),
      (''/k/single-instance.aead'', replicate 24 0 @ [6] @ replicate 16 3)], draws = 0\<rparr>\<rparr>"





section \<open>A migration that waits\<close>

lemma guard_refuses: "no_key tier0 s \<Longrightarrow> refuses os d s (andThen (migrate_guard True s) f)"
proof -
  assume nk: "no_key tier0 s"
  obtain s1 where "currentKEKFor tier0 s = (None, s1)"
    using currentKEKFor_no_key [OF nk] by (metis prod.collapse)
  moreover from this have "quiet os d {} s s1" using currentKEKFor_quiet [of os d "{}" s tier0] by simp
  ultimately show ?thesis
    by (auto simp: migrate_guard_def giveUp_def refuses_def intro: quiet_trans)
qed

lemma migrate_legacy_refuses:
  assumes "no_key tier0 s" and "present os d (singleInstanceRef @ legacyBlobSuffix) s"
  shows "refuses os d s (migrate_legacy os d s)"
  unfolding migrate_legacy_def Let_def
proof (rule refuses_after [OF need_kek_quiet], rule refuses_after [OF migrate_legacy_master_quiet], goal_cases)
  case (1 kek s1 lm s2)
  then have "s2 = s" using need_kek_Inr migrate_legacy_master_Inr by blast
  with assms guard_refuses [of s os d] show ?case by (simp add: present_def)
qed

definition same_directory :: "'w os_lib \<Rightarrow> string \<Rightarrow> 'w Service \<Rightarrow> 'w Service \<Rightarrow> bool" where
  "same_directory os d s s' \<longleftrightarrow> (\<forall>n. plain n \<longrightarrow> same_entry os d n (world s) (world s'))"

lemma quiet_same_directory: "quiet os d {} s s' \<Longrightarrow> same_directory os d s s'"
  by (simp add: same_directory_def quiet_def frame_def touches_def)

lemma same_directory_present:
  "same_directory os d s s' \<Longrightarrow> plain n \<Longrightarrow> present os d n s' = present os d n s"
  by (simp add: same_directory_def present_def stat_def same_entry_def)

lemma same_directory_trans:
  "same_directory os d s s1 \<Longrightarrow> same_directory os d s1 s2 \<Longrightarrow> same_directory os d s s2"
  by (auto simp: same_directory_def intro: same_entry_trans)

lemma wired_same_directory: "same_directory os d (wired f s) s' \<Longrightarrow> same_directory os d s s'"
  by (simp add: same_directory_def)

text \<open>
  C40.  While a legacy single-instance key is present and no tier-0 key is at hand to reseal it,
  wiring the tier-1 key leaves the whole directory as it is and the migration to be done later.
\<close>

theorem migration_waits_for_tier0:
  assumes "pinned os d s" and "\<not> migrationComplete s"
    and "present os d legacyMasterFileName s" and "\<not> present os d masterTier1FileName s"
    and "present os d (singleInstanceRef @ legacyBlobSuffix) s" and "no_key tier0 s"
  shows "same_directory os d s (SetKEKProvider os (Some f) s) \<and>
    \<not> migrationComplete (SetKEKProvider os (Some f) s) \<and>
    cached tier1 (SetKEKProvider os (Some f) s) = []"
proof -
  obtain s1 where s1: "SetKEKProvider os (Some f) s = snd (migrate_legacy os d s1)" "quiet os d {} (wired f s) s1"
    using SetKEKProvider_migrates [OF assms(1-4)] by metis
  note t1 = frame_touches [OF quiet_frame [OF s1(2)]]
  have "no_key tier0 s1" using assms(6) no_key_config [of "wired f s" s1] t1
    by (simp add: touches_def no_key_def)
  moreover have "present os d (singleInstanceRef @ legacyBlobSuffix) s1"
    using touches_file_at(2) [OF t1 plain_names(5)] assms(5) by simp
  ultimately have "quiet os d {} s1 (snd (migrate_legacy os d s1))"
    using migrate_legacy_refuses unfolding refuses_def by blast
  then have q: "quiet os d {} (wired f s) (SetKEKProvider os (Some f) s)"
    using s1 quiet_trans by metis
  then show ?thesis
    using wired_same_directory [OF quiet_same_directory [OF q]] quiet_cached [OF q, of tier1] assms(2)
    by (simp add: quiet_def same_caches_def)
qed

theorem migration_waits_for_tier0_witness:
  "\<not> migrationComplete (SetKEKProvider disk_os (Some (\<lambda>w. (demo_kek tier1, True)))
     (demo_legacy\<lparr>tier0KEKProvider := None\<rparr>))"
proof -
  let ?s = "demo_legacy\<lparr>tier0KEKProvider := None\<rparr>"
  have "pinned disk_os ''/k'' ?s" "\<not> migrationComplete ?s" "no_key tier0 ?s"
    by (simp_all add: demo_pinned demo_legacy_def demo_defs no_key_def provider_for_def)
  moreover have "present disk_os ''/k'' legacyMasterFileName ?s" "\<not> present disk_os ''/k'' masterTier1FileName ?s"
    "present disk_os ''/k'' (singleInstanceRef @ legacyBlobSuffix) ?s"
    by (simp_all add: demo_legacy_def disk_os_def keys_consts present_def stat_def)
  ultimately show ?thesis using migration_waits_for_tier0 by blast
qed


section \<open>A migration that is blocked\<close>

datatype 'w wiring = WireTier0 "'w KEKProvider option" | WireTier1 "'w KEKProvider option"

fun wire :: "'w os_lib \<Rightarrow> 'w wiring list \<Rightarrow> 'w Service \<Rightarrow> 'w Service" where
  "wire os [] s = s"
| "wire os (WireTier0 p # ws) s = wire os ws (SetKEKProviderTier0 p s)"
| "wire os (WireTier1 p # ws) s = wire os ws (SetKEKProvider os p s)"

definition two_masters :: "'w os_lib \<Rightarrow> string \<Rightarrow> 'w Service \<Rightarrow> bool" where
  "two_masters os d s \<longleftrightarrow> pinned os d s \<and> \<not> migrationComplete s \<and>
     present os d legacyMasterFileName s \<and> present os d masterTier1FileName s"

lemma two_masters_quiet: "quiet os d {} s s' \<Longrightarrow> two_masters os d s \<Longrightarrow> two_masters os d s'"
  using touches_file_at(2) [OF frame_touches [OF quiet_frame], of os d "{}" s s']
    pinned_touches [OF frame_touches [OF quiet_frame], of os d "{}" s s']
  by (simp add: two_masters_def quiet_def same_caches_def)

lemma two_masters_SetKEKProvider:
  assumes "two_masters os d s"
  shows "two_masters os d (SetKEKProvider os p s) \<and> same_directory os d s (SetKEKProvider os p s)"
proof (cases p)
  case None
  with assms show ?thesis
    by (simp add: SetKEKProvider_def two_masters_def same_directory_def pinned_def set_cached_def
        present_def stat_def)
next
  case (Some f)
  have w: "two_masters os d (wired f s)" using assms by (simp add: two_masters_def)
  then obtain s1 where s1: "keysDir os (wired f s) = (Inr d, s1)" "quiet os d {} (wired f s) s1"
    using keysDir_pinned unfolding two_masters_def by metis
  have t1: "two_masters os d s1" using two_masters_quiet [OF s1(2) w] .
  then have "SetKEKProvider os p s = Warn ''keys: BOTH .master and .master-tier1 present - refusing to migrate; resolve manually before unlocking'' s1"
    using assms s1(1) Some
    by (auto simp: SetKEKProvider_wired two_masters_def migrateTier1Locked_def Let_def present_def)
  then have q: "quiet os d {} s1 (SetKEKProvider os p s)" by simp
  have "two_masters os d (SetKEKProvider os p s)" using two_masters_quiet [OF q t1] .
  moreover have "quiet os d {} (wired f s) (SetKEKProvider os p s)" using quiet_trans [OF s1(2) q] .
  ultimately show ?thesis using wired_same_directory quiet_same_directory by metis
qed

lemma two_masters_SetKEKProviderTier0:
  "two_masters os d s \<Longrightarrow>
     two_masters os d (SetKEKProviderTier0 p s) \<and> same_directory os d s (SetKEKProviderTier0 p s)"
  by (simp add: SetKEKProviderTier0_def two_masters_def same_directory_def pinned_def set_cached_def
      present_def stat_def)

lemma two_masters_wire:
  "two_masters os d s \<Longrightarrow> two_masters os d (wire os ws s) \<and> same_directory os d s (wire os ws s)"
proof (induction ws arbitrary: s)
  case Nil
  then show ?case by (simp add: same_directory_def)
next
  case (Cons w ws)
  show ?case
  proof (cases w)
    case (WireTier0 p)
    with Cons.IH two_masters_SetKEKProviderTier0 [OF Cons.prems, of p] show ?thesis
      by (auto intro: same_directory_trans)
  next
    case (WireTier1 p)
    with Cons.IH two_masters_SetKEKProvider [OF Cons.prems, of p] show ?thesis
      by (auto intro: same_directory_trans)
  qed
qed

text \<open>Loading tier 1 beside a legacy master generates a second master.\<close>

lemma GetTier1_generates:
  assumes "os_sound os d" and "sigil_sound os" and "reliable os" and "pinned os d s"
    and "provides s tier1 kek" and "length (cached tier1 s) \<noteq> masterKeySize"
    and "\<not> migrationComplete s" and "present os d legacyMasterFileName s"
    and "\<not> present os d masterTier1FileName s"
  shows "two_masters os d (snd (GetTier1 os ref s))"
proof -
  obtain s1 where s1: "keysDir os s = (Inr d, s1)" "quiet os d {} s s1"
    using keysDir_pinned [OF assms(4)] by metis
  note t1 = frame_touches [OF quiet_frame [OF s1(2)]]
  have pr: "provides s1 tier1 kek" using provides_touches [OF t1] assms(5) by simp
  then have len: "length kek = masterKeySize" by (simp add: provides_def)
  obtain m s2 where r: "random_bytes os masterKeySize s1 = (Inr m, s2)" using reliable_random [OF assms(3)] by blast
  obtain s3 where w: "writeMasterLocked os (PathJoin os d (masterFileNameFor tier1)) m kek s2 = (Inr (), s3)"
    using reliable_master [OF assms(3,2) len] by blast
  have "stat os s1 (PathJoin os d masterTier1FileName) = None"
    using touches_file_at(2) [OF t1, of masterTier1FileName] assms(9) by (simp add: present_def)
  then have e: "ensureMaster os tier1 s = (Inr m, set_cached tier1 m s3)"
    using assms(6) s1(1) r w need_kek_provides [OF pr]
    by (simp add: ensureMaster_def ensureTier1Locked_def masterFileNameFor_def)
  have b: "backed os d kek tier1 m (set_cached tier1 m s3)"
    using writeMasterLocked_backed [OF assms(1,2) random_bytes_length [OF assms(1) r] w] by simp
  let ?s = "set_cached tier1 m s3"
  have st: "settles os d (ensure_names tier1) tier1 s ?s"
    using ensureMaster_settles [OF assms(1,4), of tier1] e by simp
  have "two_masters os d ?s"
    using touches_file_at(2) [OF settles_touches [OF st] plain_names(3)] assms(4,7,8)
      pinned_touches [OF settles_touches [OF st]] st backed_present [OF assms(1) b]
    by (auto simp: two_masters_def ensure_names_def settles_def masterFileNameFor_def keys_consts)
  moreover have "quiet os d {} ?s (snd (getLocked os tier1 ref m ?s))"
    using getLocked_unlocked [OF assms(1,2) _ random_bytes_length [OF assms(1) r], of ?s tier1 ref]
      \<open>two_masters os d ?s\<close> unfolding two_masters_def by blast
  ultimately show ?thesis using e two_masters_quiet by (simp add: GetTier1_def)
qed

text \<open>
  C27.  Reading (or writing) tier 1 while a migration waits blocks it for good: the read generates
  a fresh tier-1 master beside the legacy one, and from then on every wiring of keys, in whatever
  order and however often, refuses to migrate and leaves the directory as it is.
\<close>

theorem read_before_migration_blocks_it:
  assumes "os_sound os d" and "sigil_sound os" and "reliable os" and "pinned os d s"
    and "provides s tier1 kek" and "length (cached tier1 s) \<noteq> masterKeySize"
    and "\<not> migrationComplete s" and "present os d legacyMasterFileName s"
    and "\<not> present os d masterTier1FileName s"
  shows "\<not> migrationComplete (wire os ws (snd (GetTier1 os ref s))) \<and>
    same_directory os d (snd (GetTier1 os ref s)) (wire os ws (snd (GetTier1 os ref s)))"
  using two_masters_wire [OF GetTier1_generates [OF assms]] by (simp add: two_masters_def)

theorem read_before_migration_blocks_it_witness:
  "\<not> migrationComplete (wire disk_os
     [WireTier0 (Some (\<lambda>w. (demo_kek tier0, True))), WireTier1 (Some (\<lambda>w. (demo_kek tier1, True)))]
     (snd (GetTier1 disk_os ''a''
       (demo_legacy\<lparr>tier0KEKProvider := None, tier1KEKProvider := Some (\<lambda>w. (demo_kek tier1, True))\<rparr>))))"
proof -
  let ?s = "demo_legacy\<lparr>tier0KEKProvider := None, tier1KEKProvider := Some (\<lambda>w. (demo_kek tier1, True))\<rparr>"
  have "pinned disk_os ''/k'' ?s" "provides ?s tier1 (demo_kek tier1)"
    "length (cached tier1 ?s) \<noteq> masterKeySize" "\<not> migrationComplete ?s"
    by (simp_all add: demo_pinned demo_legacy_def demo_defs provides_def provider_for_def cached_def masterKeySize_def)
  moreover have "present disk_os ''/k'' legacyMasterFileName ?s" "\<not> present disk_os ''/k'' masterTier1FileName ?s"
    by (simp_all add: demo_legacy_def disk_os_def keys_consts present_def stat_def)
  ultimately show ?thesis
    using read_before_migration_blocks_it [OF disk_os_sound disk_sigil_sound disk_reliable] by blast
qed


section \<open>A migration runs to its end\<close>

text \<open>A system that never fails to draw, seal, write, list, or read a file that is there.\<close>

definition dependable :: "'w os_lib \<Rightarrow> string \<Rightarrow> bool" where
  "dependable os d \<longleftrightarrow> reliable os \<and> (\<forall>w. ok (ReadDir os w d)) \<and>
     (\<forall>n w fi. plain n \<longrightarrow> Stat os w (PathJoin os d n) = Some fi \<longrightarrow> \<not> IsDir fi \<longrightarrow>
        ok (ReadFile os w (PathJoin os d n)))"

lemma ok_iff: "ok r \<longleftrightarrow> (\<exists>a. r = Inr a)"
  by (cases r) auto

lemma legacy_master_runs:
  assumes "sigil_sound os" and "length kek = masterKeySize" and "legacy_master_is os d kek lm s"
  shows "migrate_legacy_master os (PathJoin os d legacyMasterFileName) kek s = (Inr lm, s)"
proof -
  have "NewChaChaPolySigil os kek = None" using assms(1,2) by (simp add: sigil_sound_def)
  then show ?thesis
    using assms(3) by (auto simp: migrate_legacy_master_def legacy_master_is_def masterKeySize_def
        kekWrappedMasterLen_def)
qed

text \<open>
  What the migration needs of tier 0: a key, with a tier-0 master that is absent or opens under it and
  a legacy single-instance blob that is absent or opens under the legacy master; or neither key nor blob.
\<close>

definition tier0_ready :: "'w os_lib \<Rightarrow> string \<Rightarrow> bytes \<Rightarrow> 'w Service \<Rightarrow> bool" where
  "tier0_ready os d lm s \<longleftrightarrow>
     (\<exists>key. provides s tier0 key \<and>
        (present os d masterTier0FileName s \<longrightarrow> (\<exists>m. backed os d key tier0 m s)) \<and>
        (present os d (singleInstanceRef @ legacyBlobSuffix) s \<longrightarrow>
           (\<exists>blob k. file_at os d (singleInstanceRef @ legacyBlobSuffix) s = Some blob \<and>
              sigil_Out os lm blob = Inr k))) \<or>
     no_key tier0 s \<and> \<not> present os d (singleInstanceRef @ legacyBlobSuffix) s"

lemma guard_runs:
  assumes "tier0_ready os d lm s"
  shows "migrate_guard (present os d (singleInstanceRef @ legacyBlobSuffix) s) s = (Inr (), s)"
  using assms by (auto simp: tier0_ready_def migrate_guard_def currentKEKFor_def provides_def)

lemma tier0_master_runs:
  assumes "os_sound os d" and "sigil_sound os" and "reliable os" and "provides s tier0 k"
    and "present os d masterTier0FileName s \<Longrightarrow> \<exists>m. backed os d k tier0 m s"
  shows "\<exists>s'. migrate_tier0_master os (PathJoin os d masterTier0FileName) s = (Inr (), s') \<and>
    length (cached tier0 s') = masterKeySize"
proof -
  have k: "currentKEKFor tier0 s = (Some k, s)" "length k = masterKeySize"
    using assms(4) by (auto simp: currentKEKFor_def provides_def)
  have sig: "NewChaChaPolySigil os k = None" using assms(2) k(2) by (simp add: sigil_sound_def)
  consider (absent) "\<not> present os d masterTier0FileName s"
    | (cached) "present os d masterTier0FileName s" "length (cached tier0 s) = masterKeySize"
    | (load) m where "present os d masterTier0FileName s" "length (cached tier0 s) \<noteq> masterKeySize"
        "backed os d k tier0 m s"
    using assms(5) by blast
  then show ?thesis
  proof cases
    case absent
    obtain m s1 where r: "random_bytes os masterKeySize s = (Inr m, s1)" using reliable_random [OF assms(3)] by blast
    moreover obtain s2 where "writeMasterLocked os (PathJoin os d masterTier0FileName) m k s1 = (Inr (), s2)"
      using reliable_master [OF assms(3,2) k(2)] by blast
    ultimately show ?thesis using absent k(1) random_bytes_length [OF assms(1) r]
      by (simp add: migrate_tier0_master_def present_def orGiveUp_def)
  next
    case cached
    then show ?thesis by (auto simp: migrate_tier0_master_def present_def)
  next
    case load
    then have "migrate_tier0_master os (PathJoin os d masterTier0FileName) s = (Inr (), set_cached tier0 m s)"
      using k(1) sig
      by (auto simp: migrate_tier0_master_def present_def backed_def masterFileNameFor_def)
    then show ?thesis using load(3) by (auto simp: backed_def)
  qed
qed

text \<open>Without a key the tier-0 master is left for later.\<close>

lemma tier0_master_skipped:
  assumes "no_key tier0 s"
  shows "\<exists>s'. migrate_tier0_master os path s = (Inr (), s')"
proof -
  obtain s1 where "currentKEKFor tier0 s = (None, s1)"
    using currentKEKFor_no_key [OF assms] by (metis prod.collapse)
  then show ?thesis by (simp add: migrate_tier0_master_def)
qed

lemma tier0_ready_runs:
  assumes "os_sound os d" and "sigil_sound os" and "reliable os" and "tier0_ready os d lm s"
  obtains s' where "migrate_tier0_master os (PathJoin os d masterTier0FileName) s = (Inr (), s')"
    "present os d (singleInstanceRef @ legacyBlobSuffix) s \<Longrightarrow> length (cached tier0 s') = masterKeySize"
  using assms(4) tier0_master_runs [OF assms(1-3)] tier0_master_skipped [of s os] unfolding tier0_ready_def
  by metis

lemma single_instance_runs:
  assumes "os_sound os d" and "sigil_sound os" and "reliable os"
    and "b \<Longrightarrow> length (cached tier0 s) = masterKeySize" and "length lm = masterKeySize"
    and "present os d (singleInstanceRef @ legacyBlobSuffix) s \<Longrightarrow>
      \<exists>blob k. file_at os d (singleInstanceRef @ legacyBlobSuffix) s = Some blob \<and> sigil_Out os lm blob = Inr k"
  shows "\<exists>s'. migrate_single_instance os d lm b s = (Inr (), s')"
proof (cases "b \<and> present os d (singleInstanceRef @ legacyBlobSuffix) s")
  case False
  then show ?thesis by (auto simp: migrate_single_instance_def Let_def present_def)
next
  case True
  then obtain blob k where b: "ReadFile os (world s) (PathJoin os d (singleInstanceRef @ legacyBlobSuffix)) = Inr blob"
      "sigil_Out os lm blob = Inr k" using assms(6) by auto
  have len: "length (cached tier0 s) = masterKeySize" using True assms(4) by simp
  have sig: "NewChaChaPolySigil os lm = None" "NewChaChaPolySigil os (cached tier0 s) = None"
    using assms(2,5) len by (simp_all add: sigil_sound_def)
  obtain c s1 where c: "seal os (cached tier0 s) k s = (Inr c, s1)" using reliable_seal [OF assms(3) len] by blast
  obtain s2 where w: "write_file os (PathJoin os d (singleInstanceRef @ tier0BlobSuffix)) c s1 = (Inr (), s2)"
    using reliable_write [OF assms(3)] by blast
  show ?thesis
    using True b sig c w len orWarn_Inr
    by (cases "remove_file os (PathJoin os d (singleInstanceRef @ legacyBlobSuffix)) s2")
      (auto simp: migrate_single_instance_def Let_def present_def read_file_def new_sigil_def unseal_def
        orGiveUp_def orWarn_def split: sum.splits)
qed

lemma blob_runs:
  assumes "reliable os" and "file_at os d n s = Some b"
  shows "\<exists>s'. migrate_blob os d n s = (Inr (), s')"
proof -
  obtain s1 where "write_file os (PathJoin os d (t1_name n)) b s = (Inr (), s1)"
    using reliable_write [OF assms(1)] by blast
  with assms(2) show ?thesis
    by (cases "remove_file os (PathJoin os d n) s1")
      (auto simp: migrate_blob_def t1_name_def Let_def read_file_def orGiveUp_def orWarn_def split: sum.splits)
qed

lemma blobs_run:
  assumes "os_sound os d" and "reliable os" and "\<forall>e \<in> set es. plain (fst e)" and "distinct (map fst es)"
    and "\<And>n. n \<in> renamed es \<Longrightarrow> file_at os d n s \<noteq> None"
  shows "\<exists>s'. migrate_blobs os d es s = (Inr (), s')"
  using assms(3-5)
proof (induction es arbitrary: s)
  case (Cons e es)
  obtain k b where e: "e = (k, b)" by (cases e)
  show ?case
  proof (cases "b \<or> \<not> migrates_name k")
    case True
    with Cons e show ?thesis by (simp add: renamed_Cons)
  next
    case False
    then have k: "k \<in> renamed (e # es)" "plain k" "migrates_name k" "k \<notin> renamed es"
      using Cons.prems(1,2) e by (auto simp: renamed_def image_iff)
    then obtain s1 where s1: "migrate_blob os d k s = (Inr (), s1)"
      using Cons.prems(3) blob_runs [OF assms(2)] by (metis not_None_eq)
    have "file_at os d n s1 \<noteq> None" if n: "n \<in> renamed es" for n
    proof -
      have p: "plain n" "migrates_name n" using n Cons.prems(1) by (auto simp: renamed_def)
      have "quiet os d {k, t1_name k} s s1" using migrate_blob_quiet [OF assms(1) k(2,3), of s] s1 by simp
      from touches_file_at(1) [OF frame_touches [OF quiet_frame [OF this]] p(1)]
      have "file_at os d n s1 = file_at os d n s"
        using n k(4) t1_name_not_renamed [OF k(3) p(2)] by auto
      moreover have "n \<in> renamed (e # es)" using n e False by (simp add: renamed_Cons)
      ultimately show ?thesis using Cons.prems(3) by simp
    qed
    then obtain s2 where "migrate_blobs os d es s1 = (Inr (), s2)"
      using Cons.IH [of s1] Cons.prems(1,2) by auto
    with s1 e False show ?thesis by auto
  qed
qed simp


lemma migrate_legacy_runs:
  assumes "os_sound os d" and "sigil_sound os" and "dependable os d"
    and "provides s tier1 kek" and "legacy_master_is os d kek lm s" and "tier0_ready os d lm s"
  shows "\<exists>s'. migrate_legacy os d s = (Inr (), s')"
proof -
  let ?SI = "singleInstanceRef @ legacyBlobSuffix"
  let ?si = "stat os s (PathJoin os d ?SI) \<noteq> None"
  have rel: "reliable os" using assms(3) by (simp add: dependable_def)
  have len: "length lm = masterKeySize" "length kek = masterKeySize"
    using assms(4,5) by (simp_all add: legacy_master_is_def provides_def)
  note lmr = legacy_master_runs [OF assms(2) len(2) assms(5)]
  obtain s2 where t0: "migrate_tier0_master os (PathJoin os d masterTier0FileName) s = (Inr (), s2)"
      "present os d ?SI s \<Longrightarrow> length (cached tier0 s2) = masterKeySize"
    using tier0_ready_runs [OF assms(1,2) rel assms(6)] by metis
  obtain s3 where w: "writeMasterLocked os (PathJoin os d masterTier1FileName) lm kek s2 = (Inr (), s3)"
    using reliable_master [OF rel assms(2) len(2)] by blast
  let ?s3 = "set_cached tier1 lm s3"
  have q3: "quiet os d {masterTier1FileName} s2 s3"
    using writeMasterLocked_quiet [OF assms(1), of masterTier1FileName "{masterTier1FileName}" s2 lm kek] w by simp
  have t2: "touches os d {masterTier0FileName} s s2"
    using settles_touches [OF migrate_tier0_settles [OF assms(1)], of s] t0(1) by simp
  have ne: "?SI \<noteq> masterTier0FileName" "?SI \<noteq> masterTier1FileName" by (simp_all add: keys_consts)
  have same: "file_at os d ?SI s3 = file_at os d ?SI s" "present os d ?SI s3 = present os d ?SI s"
    using touches_file_at [OF t2 plain_names(5)] touches_file_at [OF frame_touches [OF quiet_frame [OF q3]] plain_names(5)] ne
    by auto
  have c3: "length (cached tier0 ?s3) = masterKeySize" if "?si"
    using t0(2) that quiet_cached [OF q3, of tier0] by (simp add: present_def)
  have "\<exists>blob k. file_at os d ?SI ?s3 = Some blob \<and> sigil_Out os lm blob = Inr k" if "present os d ?SI ?s3"
    using assms(6) that same unfolding set_cached_world tier0_ready_def by metis
  then obtain s4 where si: "migrate_single_instance os d lm ?si ?s3 = (Inr (), s4)"
    using single_instance_runs [OF assms(1,2) rel c3 len(1)] by blast
  have "ok (ReadDir os (world s4) d)" using assms(3) by (simp add: dependable_def)
  then obtain es where es: "ReadDir os (world s4) d = Inr es" unfolding ok_iff ..
  have entries: "\<forall>e \<in> set es. plain (fst e)" "distinct (map fst es)"
    "\<And>n b. (n, b) \<in> set es \<longleftrightarrow> plain n \<and> (\<exists>fi. Stat os (world s4) (PathJoin os d n) = Some fi \<and> IsDir fi = b)"
    using assms(1) es unfolding os_sound_def read_sound_def by auto
  have "file_at os d n s4 \<noteq> None" if "n \<in> renamed es" for n
  proof -
    obtain fi where "plain n" "Stat os (world s4) (PathJoin os d n) = Some fi" "\<not> IsDir fi"
      using \<open>n \<in> renamed es\<close> entries(3) [of n False] by (auto simp: renamed_def)
    then have "ok (ReadFile os (world s4) (PathJoin os d n))" using assms(3) unfolding dependable_def by blast
    then show ?thesis by (auto simp: ok_iff file_at_def)
  qed
  then obtain s5 where bl: "migrate_blobs os d es s4 = (Inr (), s5)"
    using blobs_run [OF assms(1) rel entries(1,2)] by blast
  obtain s6 where rm: "orWarn ''keys: tier-1 migration Step 3g remove legacy .master failed''
      (remove_file os (PathJoin os d legacyMasterFileName) s5) = (Inr (), s6)"
    using orWarn_Inr by (metis surj_pair)
  show ?thesis
    unfolding migrate_legacy_def Let_def
    using need_kek_provides [OF assms(4)] lmr guard_runs [OF assms(6), unfolded present_def] t0(1) w si es bl rm
    by simp
qed

text \<open>
  C23.  On a system that does not fail, wiring the tier-1 key over a legacy directory completes the
  migration, provided that the legacy master opens under that key and tier 0 is ready: a tier-0 key is
  at hand, under which a tier-0 master opens if there is one, and a legacy single-instance blob, if there
  is one, opens under the legacy master; or there is neither a tier-0 key nor such a blob.
\<close>

theorem migration_completes:
  assumes "os_sound os d" and "sigil_sound os" and "dependable os d" and "pinned os d s"
    and "\<not> migrationComplete s" and "present os d legacyMasterFileName s"
    and "\<not> present os d masterTier1FileName s"
    and "\<forall>w. f w = (kek, True)" and "length kek = masterKeySize"
    and "legacy_master_is os d kek lm s" and "tier0_ready os d lm s"
  shows "migrationComplete (SetKEKProvider os (Some f) s)"
proof -
  obtain s1 where s1: "SetKEKProvider os (Some f) s = snd (migrate_legacy os d s1)" "quiet os d {} (wired f s) s1"
    using SetKEKProvider_migrates [OF assms(4-7)] by metis
  note t1 = frame_touches [OF quiet_frame [OF s1(2)]]
  have same: "file_at os d n s1 = file_at os d n s" "present os d n s1 = present os d n s" if "plain n" for n
    using touches_file_at [OF t1 that] by simp_all
  have p1: "provides s1 tier1 kek" using provides_touches [OF t1] wired_provides [OF assms(8,9)] by simp
  have pr: "provides s1 tier0 k" if "provides s tier0 k" for k
    using provides_touches [OF t1] wired_provides [OF assms(8,9)] that by simp
  have nk: "no_key tier0 s1" if "no_key tier0 s"
    using that no_key_config [of "wired f s" s1] t1 by (simp add: touches_def no_key_def)
  have "legacy_master_is os d kek lm s1" using assms(10) same(1) by (simp add: legacy_master_is_def)
  moreover have "backed os d k tier0 m s1 = backed os d k tier0 m s" for k m
    using same(1) [of "masterFileNameFor tier0"] by (simp add: backed_def)
  then have "tier0_ready os d lm s1"
    using assms(11) pr nk same plain_names(1,5) unfolding tier0_ready_def by metis
  ultimately obtain s' where "migrate_legacy os d s1 = (Inr (), s')"
    using migrate_legacy_runs [OF assms(1-3) p1] by blast
  with migrate_legacy_latches [OF assms(1), of s1] s1(1) show ?thesis by (simp add: latches_def)
qed

lemma disk_dependable: "dependable disk_os d"
  using disk_reliable by (auto simp: dependable_def disk_os_def split: option.splits)

lemma demo_legacy_ready: "tier0_ready disk_os ''/k'' (replicate 32 3) demo_legacy"
proof -
  have "provides demo_legacy tier0 (demo_kek tier0)"
    by (simp add: provides_def provider_for_def demo_legacy_def demo_defs masterKeySize_def)
  moreover have "\<exists>blob k. file_at disk_os ''/k'' (singleInstanceRef @ legacyBlobSuffix) demo_legacy = Some blob \<and>
      sigil_Out disk_os (replicate 32 3) blob = Inr k"
    by (simp add: demo_legacy_def disk_os_def keys_consts pad_def numeral_eq_Suc)
  moreover have "\<not> present disk_os ''/k'' masterTier0FileName demo_legacy"
    by (simp add: present_def stat_def demo_legacy_def disk_os_def keys_consts)
  ultimately show ?thesis unfolding tier0_ready_def by blast
qed

theorem migration_completes_witness:
  "migrationComplete (SetKEKProvider disk_os (Some (\<lambda>w. (demo_kek tier1, True))) demo_legacy)"
proof (rule migration_completes [OF disk_os_sound disk_sigil_sound disk_dependable,
    where d = "''/k''" and kek = "demo_kek tier1" and lm = "replicate 32 3"])
  show "pinned disk_os ''/k'' demo_legacy" by (simp add: demo_pinned demo_legacy_def demo_defs)
  show "legacy_master_is disk_os ''/k'' (demo_kek tier1) (replicate 32 3) demo_legacy"
    by (simp add: legacy_master_is_def demo_legacy_def disk_os_def keys_consts)
  show "tier0_ready disk_os ''/k'' (replicate 32 3) demo_legacy" by (rule demo_legacy_ready)
qed (simp_all add: demo_legacy_def demo_defs disk_os_def keys_consts present_def stat_def)

end
