(* ===== verification/KeysService.thy ===== *)
theory KeysService
  imports KeysMigration
begin

text \<open>
  The Service as a whole: any sequence of calls of its interface, from its construction.  A cached
  master is a master in every state such a run can reach.
\<close>

section \<open>Calls\<close>

datatype 'w keys_call =
    CPut tier string bytes string
  | CGet tier string
  | CHas tier string
  | CDelete tier string string
  | CList tier
  | CGetOrCreate tier string "'w \<Rightarrow> bytes res \<times> 'w"
  | CSingleInstanceKey
  | CSetKEKProviderTier0 "'w KEKProvider option"
  | CSetKEKProvider "'w KEKProvider option"
  | CSetCore bool
  | CShutdown

fun keys_step :: "'w os_lib \<Rightarrow> 'w keys_call \<Rightarrow> 'w Service \<Rightarrow> 'w Service" where
  "keys_step os (CPut t ref p src) s = snd (putWithSource os t ref p src s)"
| "keys_step os (CGet t ref) s = snd (getByTier os t ref s)"
| "keys_step os (CHas t ref) s = snd (if t = tier0 then HasTier0 os ref s else HasTier1 os ref s)"
| "keys_step os (CDelete t ref src) s = snd (deleteWithSource os t ref src s)"
| "keys_step os (CList t) s = snd (listTier os t s)"
| "keys_step os (CGetOrCreate t ref generate) s = snd (getOrCreate os t ref generate s)"
| "keys_step os CSingleInstanceKey s = snd (SingleInstanceKey os s)"
| "keys_step os (CSetKEKProviderTier0 p) s = SetKEKProviderTier0 p s"
| "keys_step os (CSetKEKProvider p) s = SetKEKProvider os p s"
| "keys_step os (CSetCore c) s = SetCore c s"
| "keys_step os CShutdown s = snd (ServiceShutdown s)"

inductive keys_reachable :: "'w os_lib \<Rightarrow> 'w Service \<Rightarrow> 'w Service \<Rightarrow> bool" for os s where
  keys_start: "keys_reachable os s s"
| keys_call: "keys_reachable os s s1 \<Longrightarrow> keys_reachable os s (keys_step os c s1)"

inductive_cases keys_reachableE: "keys_reachable os s s'"

section \<open>Cached masters\<close>

text \<open>The invariant: the resolver is the one configured, and the caches hold masters.\<close>

definition well_typed :: "'w os_lib \<Rightarrow> string \<Rightarrow> 'w Service \<Rightarrow> bool" where
  "well_typed os d s \<longleftrightarrow> pinned os d s \<and> typed s"

named_theorems typed_intros

lemma andThen_typed:
  assumes "well_typed os d (snd x)"
    and "\<And>a s1. x = (Inr a, s1) \<Longrightarrow> well_typed os d s1 \<Longrightarrow> well_typed os d (snd (f a s1))"
  shows "well_typed os d (snd (andThen x f))"
  using assms by (cases x; cases "fst x") auto

lemma well_typed_quiet: "quiet os d N s s' \<Longrightarrow> well_typed os d s \<Longrightarrow> well_typed os d s'"
  using typed_quiet [of os d N s s'] pinned_touches [OF frame_touches [OF quiet_frame], of os d N s s']
  by (simp add: well_typed_def)

lemma well_typed_emits: "emits s s' \<Longrightarrow> well_typed os d s \<Longrightarrow> well_typed os d s'"
  using pinned_touches [of os d "{}" s s'] emits_touches [of s s' os d "{}"]
  by (simp add: well_typed_def typed_def emits_same)

lemma well_typed_set_cached:
  "length m = masterKeySize \<or> m = [] \<Longrightarrow> well_typed os d s \<Longrightarrow> well_typed os d (set_cached t m s)"
  by (auto simp: well_typed_def typed_def)

lemma well_typed_world [simp]:
  "well_typed os d (s\<lparr>world := w\<rparr>) = well_typed os d s"
  by (simp add: well_typed_def typed_def pinned_def cached_def)

lemma well_typed_cong:
  assumes "well_typed os d s" and "dirResolver s' = dirResolver s"
    and "tier0Master s' = tier0Master s" and "tier1Master s' = tier1Master s"
  shows "well_typed os d s'"
proof -
  have "cached t s' = cached t s" for t using assms(3,4) by (simp add: cached_def)
  with assms(1,2) show ?thesis by (simp add: well_typed_def typed_def pinned_def keysDir_def)
qed

lemma load_master_length:
  "load_master os t name msg path s = (Inr m, s') \<Longrightarrow> length m = masterKeySize \<and> cached t s' = m"
  by (auto simp: load_master_def split: if_splits)

lemma ensureMaster_length:
  assumes "os_sound os d" and "ensureMaster os t s = (Inr m, s')"
  shows "length m = masterKeySize \<and> cached t s' = m"
proof -
  note rl = random_bytes_length [OF assms(1)]
  have gen: "generateTier0Locked os d' s1 = (Inr m, s') \<Longrightarrow> length m = masterKeySize \<and> cached tier0 s' = m"
    for d' s1 by (auto simp: generateTier0Locked_def dest: rl)
  have mig: "migrateTier0FromRawLegacyLocked os d' l s1 = (Inr m, s') \<Longrightarrow> length m = masterKeySize \<and> cached tier0 s' = m"
    for d' l s1 by (auto simp: migrateTier0FromRawLegacyLocked_def split: if_splits dest: rl)
  have t0: "ensureTier0Locked os d' s1 = (Inr m, s') \<Longrightarrow> length m = masterKeySize \<and> cached tier0 s' = m"
    for d' s1 by (auto simp: ensureTier0Locked_def Let_def split: if_splits
      dest: gen mig load_master_length)
  have t1: "ensureTier1Locked os d' s1 = (Inr m, s') \<Longrightarrow> length m = masterKeySize \<and> cached tier1 s' = m"
    for d' s1 by (auto simp: ensureTier1Locked_def Let_def split: if_splits dest: rl load_master_length)
  show ?thesis using assms(2) t0 t1
    by (cases t) (auto simp: ensureMaster_def split: if_splits)
qed

lemma ensureMaster_typed:
  assumes "os_sound os d" and "well_typed os d s"
  shows "well_typed os d (snd (ensureMaster os t s))"
proof -
  obtain r s' where e: "ensureMaster os t s = (r, s')" by fastforce
  have st: "settles os d (ensure_names t) t s s'"
    using ensureMaster_settles [OF assms(1), of s t] assms(2) e by (simp add: well_typed_def)
  have p: "pinned os d s'" using pinned_touches [OF settles_touches [OF st]] assms(2) by (simp add: well_typed_def)
  have "cached u s' = [] \<or> length (cached u s') = masterKeySize" for u
  proof (cases "u = t")
    case False
    with st assms(2) show ?thesis by (simp add: settles_def well_typed_def typed_def)
  next
    case True
    show ?thesis
    proof (cases r)
      case (Inl x)
      have "same_caches s s'"
        using ensureMaster_Inl_cache [OF assms(1)] assms(2) e Inl unfolding well_typed_def by blast
      then show ?thesis using assms(2) same_caches_cached by (metis well_typed_def typed_def)
    next
      case (Inr m)
      with ensureMaster_length [OF assms(1)] e True show ?thesis by simp
    qed
  qed
  with p e show ?thesis by (simp add: well_typed_def typed_def)
qed

lemma well_typed_pinned: "well_typed os d s \<Longrightarrow> pinned os d s"
  by (simp add: well_typed_def)

lemma put_typed:
  assumes "os_sound os d" and "well_typed os d s"
  shows "well_typed os d (snd (putWithSource os t ref p src s))"
proof -
  obtain r s1 where e: "ensureMaster os t s = (r, s1)" by fastforce
  have w1: "well_typed os d s1" using ensureMaster_typed [OF assms, of t] e by simp
  note p1 = well_typed_pinned [OF w1]
  show ?thesis
  proof (cases r)
    case (Inl x)
    have "well_typed os d (snd (HasTier1 os ref s1))"
      using well_typed_quiet [OF HasTier1_quiet [OF p1]] w1 by blast
    with Inl e w1 show ?thesis
      by (cases t; cases "HasTier1 os ref s1")
        (auto simp: putWithSource_def putTier0WithSource_def putTier1WithSource_def Let_def
          intro: well_typed_emits [OF emits_audit])
  next
    case (Inr m)
    obtain q s' where put: "putWithSource os t ref p src s = (q, s')" by fastforce
    obtain s2 s3 where st: "quiet os d {} s1 s2" "putLocked os t ref p m s2 = (q, s3)" "emits s3 s'"
      using putTier0_steps [of os ref p src s q s' m s1 d] putTier1_steps [of os ref p src s q s' m s1 d]
        put e Inr p1 by (cases t) (auto simp: putWithSource_def)
    have w2: "well_typed os d s2" using well_typed_quiet [OF st(1) w1] .
    have "well_typed os d s3"
      using well_typed_quiet [OF putLocked_quiet [OF assms(1) well_typed_pinned [OF w2]] w2] st(2) by (metis snd_conv)
    with well_typed_emits [OF st(3)] put show ?thesis by simp
  qed
qed

lemma getLocked_quiet: "pinned os d s \<Longrightarrow> quiet os d {} s (snd (getLocked os t ref m s))"
  unfolding getLocked_def by (auto intro!: andThen_quiet keyPath_quiet frame_rules)

lemma get_typed:
  assumes "os_sound os d" and "well_typed os d s"
  shows "well_typed os d (snd (getByTier os t ref s))"
proof -
  have "well_typed os d (snd (andThen (ensureMaster os t s) (\<lambda>m s. getLocked os t ref m s)))"
    by (rule andThen_typed [OF ensureMaster_typed [OF assms]])
      (auto intro: well_typed_quiet [OF getLocked_quiet] well_typed_pinned)
  then show ?thesis by (cases t) (simp_all add: getByTier_def GetTier0_def GetTier1_def)
qed

lemma delete_typed:
  assumes "os_sound os d" and "well_typed os d s"
  shows "well_typed os d (snd (deleteWithSource os t ref src s))"
proof -
  obtain r s' where del: "deleteWithSource os t ref src s = (r, s')" by fastforce
  show ?thesis
  proof (cases "valid_ref ref")
    case False
    with delete_invalid(2) [OF del] well_typed_emits assms(2) del show ?thesis by simp
  next
    case True
    obtain s1 where s1: "keyPath os ref t s = (Inr (PathJoin os d (ref @ blobSuffixFor t)), s1)" "quiet os d {} s s1"
      using keyPath_ok [OF well_typed_pinned [OF assms(2)] True] by metis
    obtain q s2 where q: "remove_file os (PathJoin os d (ref @ blobSuffixFor t)) s1 = (q, s2)" by fastforce
    have w1: "well_typed os d s1" using well_typed_quiet [OF s1(2) assms(2)] .
    have "well_typed os d s2"
      using well_typed_quiet [OF remove_file_quiet [OF assms(1) plain_blob [OF True]] w1] q by (metis snd_conv)
    with delete_at_path [OF del s1(1) q] w1 well_typed_emits del show ?thesis
      by (auto split: if_splits)
  qed
qed

lemma getOrCreate_typed:
  assumes "os_sound os d" and "well_typed os d s"
  shows "well_typed os d (snd (getOrCreate os t ref generate s))"
proof -
  have slow: "well_typed os d (snd (getOrCreate_slow os t ref generate s))" if "well_typed os d s" for s
  proof -
    obtain r s1 where g: "getByTier os t ref s = (r, s1)" by fastforce
    have w1: "well_typed os d s1" using get_typed [OF assms(1) that, of t ref] g by simp
    have "well_typed os d (snd (putByTier os t ref p (s1\<lparr>world := w\<rparr>)))" for p w
      using put_typed [OF assms(1)] w1 by (simp add: putByTier_WithSource)
    with g w1 show ?thesis
      by (auto simp: getOrCreate_slow_def split: sum.splits prod.splits intro!: andThen_typed)
  qed
  obtain r s1 where g: "getByTier os t ref s = (r, s1)" by fastforce
  have "well_typed os d s1" using get_typed [OF assms, of t ref] g by simp
  with g slow show ?thesis by (auto simp: getOrCreate_def split: sum.splits)
qed

text \<open>The migration: what it caches has the length of a master.\<close>

lemma tier0_master_typed:
  assumes "os_sound os d" and "well_typed os d s"
  shows "well_typed os d (snd (migrate_tier0_master os (PathJoin os d masterTier0FileName) s))"
proof -
  obtain r s1 where c: "currentKEKFor tier0 s = (r, s1)" by fastforce
  have w1: "well_typed os d s1" using well_typed_quiet [OF currentKEKFor_quiet assms(2), of tier0] c by simp
  note R = andThen_typed well_typed_set_cached
  note Q = well_typed_quiet [OF orGiveUp_quiet [OF random_bytes_quiet [OF assms(1)]]]
    well_typed_quiet [OF orGiveUp_quiet [OF writeMasterLocked_quiet [OF assms(1) plain_names(1)]]]
    well_typed_quiet [OF giveUp_quiet]
    well_typed_quiet [OF orGiveUp_quiet]
  have rb: "well_typed os d s \<Longrightarrow> well_typed os d (snd (orGiveUp m (random_bytes os n s)))" for m n s
    by (rule Q(1))
  have wr: "well_typed os d s \<Longrightarrow>
      well_typed os d (snd (orGiveUp m (writeMasterLocked os (PathJoin os d masterTier0FileName) v k s)))" for m v k s
    by (rule Q(2) [where N = "{masterTier0FileName}"]) simp_all
  have rd: "well_typed os d s \<Longrightarrow> well_typed os d (snd (orGiveUp m (read_file os p s)))"
    and nw: "well_typed os d s \<Longrightarrow> well_typed os d (snd (orGiveUp m (new_sigil os k s)))"
    and us: "well_typed os d s \<Longrightarrow> well_typed os d (snd (orGiveUp m (unseal os k v s)))" for m p k v s
    by (rule Q(4) [where N = "{}"], simp_all)+
  have gen: "well_typed os d (snd
      (andThen (orGiveUp m1 (random_bytes os masterKeySize s1)) (\<lambda>t0master s.
       andThen (orGiveUp m2 (writeMasterLocked os (PathJoin os d masterTier0FileName) t0master k s)) (\<lambda>_ s.
       (Inr (), set_cached tier0 t0master s)))))" for m1 m2 k
    using w1 by (auto intro!: R rb wr dest: random_bytes_length [OF assms(1)])
  have load: "well_typed os d (snd
      (andThen (orGiveUp m1 (read_file os p s1)) (\<lambda>blob s.
       if length blob \<noteq> kekWrappedMasterLen then giveUp m2 s
       else andThen (orGiveUp m3 (new_sigil os k s)) (\<lambda>_ s.
            andThen (orGiveUp m4 (unseal os k blob s)) (\<lambda>unwrapped s.
            if length unwrapped \<noteq> masterKeySize then giveUp m5 s
            else (Inr (), set_cached tier0 unwrapped s))))))" for m1 m2 m3 m4 m5 p k
    using w1 by (auto intro!: R rd nw us Q(3))
  show ?thesis
    using c w1 gen load assms(2) by (cases r) (simp_all add: migrate_tier0_master_def)
qed

lemma migrate_legacy_typed:
  assumes "os_sound os d" and "well_typed os d s"
  shows "well_typed os d (snd (migrate_legacy os d s))"
proof -
  have si: "well_typed os d s \<Longrightarrow> well_typed os d (snd (migrate_single_instance os d lm b s))" for s lm b
    using well_typed_quiet [OF migrate_single_instance_quiet [OF assms(1)]] .
  have bl: "well_typed os d (snd (migrate_blobs os d es s))"
    if "well_typed os d s" "ReadDir os w d = Inr es" for es w s
  proof (rule well_typed_quiet [OF migrate_blobs_quiet [OF assms(1)] that(1)])
    show "\<forall>e \<in> set es. plain (fst e)" using assms(1) that(2) unfolding os_sound_def read_sound_def by auto
  qed
  have wr: "well_typed os d s \<Longrightarrow>
      well_typed os d (snd (orGiveUp msg (writeMasterLocked os (PathJoin os d masterTier1FileName) m k s)))" for msg m k s
    using well_typed_quiet [OF orGiveUp_quiet [OF writeMasterLocked_quiet [OF assms(1) plain_names(2)]]]
    by blast
  have rm: "well_typed os d s \<Longrightarrow>
      well_typed os d (snd (orWarn msg (remove_file os (PathJoin os d legacyMasterFileName) s)))" for msg s
    using well_typed_quiet [OF orWarn_quiet [OF remove_file_quiet [OF assms(1) plain_names(3)]]] .
  have rd: "well_typed os d s \<Longrightarrow> well_typed os d (snd (orGiveUp msg (ReadDir os (world s) d, s)))" for msg s
    by (rule well_typed_quiet [OF orGiveUp_quiet [where N = "{}"]]) simp_all
  have fin: "well_typed os d s \<Longrightarrow> well_typed os d ((Info msg s)\<lparr>migrationComplete := True\<rparr>)" for msg s
    by (erule well_typed_cong) (simp_all add: Info_def)
  show ?thesis
    unfolding migrate_legacy_def Let_def
    apply (rule andThen_typed)
     apply (rule well_typed_quiet [OF need_kek_quiet assms(2)])
    apply (rule andThen_typed)
     apply (erule well_typed_quiet [OF migrate_legacy_master_quiet])
    apply (rule andThen_typed)
     apply (erule well_typed_quiet [OF migrate_guard_quiet])
    apply (rule andThen_typed)
     apply (erule tier0_master_typed [OF assms(1)])
    apply (rule andThen_typed)
     apply (erule wr)
    apply (rule andThen_typed)
     apply (rule si, rule well_typed_set_cached, simp)
      apply (drule migrate_legacy_master_Inr, simp add: legacy_master_is_def, assumption)
    apply (rule andThen_typed, erule rd)
    apply (rule andThen_typed, erule bl, simp)
    apply (rule andThen_typed, erule rm)
    apply (simp add: fin)
    done
qed

lemma SetKEKProvider_typed:
  assumes "os_sound os d" and "well_typed os d s"
  shows "well_typed os d (SetKEKProvider os p s)"
proof -
  let ?s = "set_cached tier1 [] (s\<lparr>tier1KEKProvider := p\<rparr>)"
  have w: "well_typed os d ?s"
    by (rule well_typed_set_cached [OF _ well_typed_cong [OF assms(2)]]) simp_all
  obtain s1 where s1: "keysDir os ?s = (Inr d, s1)" "quiet os d {} ?s s1"
    using keysDir_pinned [OF well_typed_pinned [OF w]] by metis
  have w1: "well_typed os d s1" using well_typed_quiet [OF s1(2) w] .
  have "well_typed os d (s1\<lparr>migrationComplete := True\<rparr>)"
    by (rule well_typed_cong [OF w1]) simp_all
  moreover have "well_typed os d (Warn msg s1)" for msg using well_typed_quiet [OF Warn_quiet w1] .
  ultimately show ?thesis
    using w s1(1) migrate_legacy_typed [OF assms(1) w1]
    by (auto simp: SetKEKProvider_def migrateTier1Locked_def Let_def)
qed

lemma keys_step_typed:
  assumes "os_sound os d" and "well_typed os d s"
  shows "well_typed os d (keys_step os c s)"
proof (cases c)
  case (CHas t ref)
  have "well_typed os d (snd (HasTier0 os ref s))"
    unfolding HasTier0_def
    by (rule andThen_typed [OF well_typed_quiet [OF keyPath_quiet [OF well_typed_pinned [OF assms(2)]] assms(2)]]) simp
  moreover have "well_typed os d (snd (HasTier1 os ref s))"
    using well_typed_quiet [OF HasTier1_quiet [OF well_typed_pinned [OF assms(2)]] assms(2)] .
  ultimately show ?thesis using CHas by simp
next
  case (CList t)
  obtain s1 where s1: "keysDir os s = (Inr d, s1)" "quiet os d {} s s1"
    using keysDir_pinned [OF well_typed_pinned [OF assms(2)]] by metis
  have "well_typed os d s1" using well_typed_quiet [OF s1(2) assms(2)] .
  with s1(1) CList show ?thesis
    by (cases "ReadDir os (world s1) d") (simp_all add: listTier_def)
next
  case CSingleInstanceKey
  have "well_typed os d (snd (SingleInstanceKey os s))"
    unfolding SingleInstanceKey_def GetOrCreateTier0_def
    by (rule andThen_typed [OF getOrCreate_typed [OF assms]]) simp
  with CSingleInstanceKey show ?thesis by simp
next
  case (CSetKEKProviderTier0 p)
  have "well_typed os d (set_cached tier0 [] (s\<lparr>tier0KEKProvider := p\<rparr>))"
    by (rule well_typed_set_cached [OF _ well_typed_cong [OF assms(2)]]) simp_all
  with CSetKEKProviderTier0 show ?thesis by (simp add: SetKEKProviderTier0_def)
next
  case (CSetCore b)
  have "well_typed os d (SetCore b s)"
    by (rule well_typed_cong [OF assms(2)]) (simp_all add: SetCore_def)
  with CSetCore show ?thesis by simp
next
  case CShutdown
  with assms(2) show ?thesis by (simp add: ServiceShutdown_def well_typed_set_cached)
qed (use put_typed [OF assms] get_typed [OF assms] delete_typed [OF assms]
    getOrCreate_typed [OF assms] SetKEKProvider_typed [OF assms] in simp_all)

lemma reachable_typed:
  "keys_reachable os s s' \<Longrightarrow> os_sound os d \<Longrightarrow> well_typed os d s \<Longrightarrow> well_typed os d s'"
  by (induction rule: keys_reachable.induct) (auto intro: keys_step_typed)

text \<open>
  C14.  Whatever sequence of calls a Service goes through from its construction - puts, gets,
  deletions, listings, key generation, wiring and unwiring of providers that answer anything at
  all, migrations that succeed or stop anywhere, shutdowns - each cached master is empty or has
  the 32 bytes of a key.
\<close>

theorem cached_masters_are_keys:
  assumes "os_sound os d" and "pinned os d s" and "tier0Master s = []" and "tier1Master s = []"
    and "keys_reachable os s s'"
  shows "length (tier0Master s') \<in> {0, 32} \<and> length (tier1Master s') \<in> {0, 32}"
proof -
  have "well_typed os d s" using assms(2-4) by (simp add: well_typed_def typed_def cached_def)
  from reachable_typed [OF assms(5,1) this]
  have "cached t s' = [] \<or> length (cached t s') = masterKeySize" for t
    by (simp add: well_typed_def typed_def)
  from this [of tier0] this [of tier1] show ?thesis by (auto simp: cached_def masterKeySize_def)
qed

theorem cached_masters_are_keys_witness:
  "length (tier0Master (keys_step disk_os CSingleInstanceKey demo_service)) \<in> {0, 32}"
proof -
  have "pinned disk_os ''/k'' demo_service" by (simp add: demo_pinned demo_service_def)
  moreover have "keys_reachable disk_os demo_service (keys_step disk_os CSingleInstanceKey demo_service)"
    by (intro keys_reachable.intros)
  ultimately show ?thesis
    using cached_masters_are_keys [OF disk_os_sound] by (simp add: demo_service_def)
qed

end
