(* ===== verification/Commands.thy ===== *)
theory Commands
  imports Auth
begin

text \<open>
  \<^verbatim>\<open>go/cmd/crypt\<close> and \<^verbatim>\<open>go/tests/cli/crypt/main.go\<close>: the command-line commands over the crypt
  functions.  A command reads its options into package variables, which are part of the state here
  as they are in the code, and then runs.  What it prints is a list of lines; files are those of the
  package's medium.  A result \<open>None\<close> is a panic.  \<^verbatim>\<open>cli.Err\<close> and \<^verbatim>\<open>cli.Wrap\<close> make an error from a text
  and from a cause with a text.

  The lemmas show that a file that was encrypted decrypts to itself under its own name, that a hash
  the command prints is one it verifies, and which keys it generates.
\<close>

section \<open>State and surroundings\<close>

datatype line = Out string | Success string | ErrorLine string | Dim string | CloseFailed err

record 'm crypt_cmd =
  local_fs :: 'm
  encryptPassphrase :: string
  encryptAES :: bool
  hashBcrypt :: bool
  hashVerify :: string
  checksumSHA512 :: bool
  checksumVerify :: string
  keygenLength :: int
  keygenHex :: bool
  keygenBase64 :: bool
  screen :: "line list"

record ('m, 'r, 'b, 'a, 'h, 'o) cmd_env =
  Local :: "'m medium_lib"
  Prompt :: "string \<Rightarrow> string \<Rightarrow> string res"
  IDKey :: argon2
  rand_read :: rand
  cmd_chacha :: "'r chacha_lib"
  cmd_nonce :: 'r
  cmd_aes :: "('b, 'a) aes_lib"
  bcrypt_generate :: "bytes \<Rightarrow> int \<Rightarrow> bytes res"
  bcrypt_compare :: "bytes \<Rightarrow> bytes \<Rightarrow> err option"
  bcrypt_mismatch :: err
  bcrypt_DefaultCost :: int
  cmd_files :: "'h file_lib"
  cmd_sigil :: "stdhash \<Rightarrow> bytes \<Rightarrow> bytes res"
  PathBase :: "string \<Rightarrow> string"
  cmd_opts :: "'o options_lib"

definition cli_Err :: "string \<Rightarrow> err" where
  "cli_Err msg = Ext msg"

definition cli_Wrap :: "err \<Rightarrow> string \<Rightarrow> err" where
  "cli_Wrap e msg = E '''' msg (Some e)"

definition say :: "line \<Rightarrow> 'm crypt_cmd \<Rightarrow> 'm crypt_cmd" where
  "say l s = s\<lparr>screen := screen s @ [l]\<rparr>"

type_synonym 'm outcome = "unit res option \<times> 'm crypt_cmd"

section \<open>Files\<close>

definition getPassphrase :: "('m, 'r, 'b, 'a, 'h, 'o) cmd_env \<Rightarrow> 'm crypt_cmd \<Rightarrow> string res" where
  "getPassphrase env s =
     (if encryptPassphrase s \<noteq> '''' then Inr (encryptPassphrase s) else Prompt env ''Passphrase'' '''')"

definition runEncrypt ::
  "('m, 'r, 'b, 'a, 'h, 'o) cmd_env \<Rightarrow> string \<Rightarrow> 'm crypt_cmd \<Rightarrow> 'm outcome" where
  "runEncrypt env path s =
     (case getPassphrase env s of
        Inl e \<Rightarrow> (Some (Inl e), s)
      | Inr passphrase \<Rightarrow>
     if passphrase = '''' then (Some (Inl (cli_Err ''passphrase cannot be empty'')), s)
     else
     (case med_Read (Local env) (local_fs s) path of
        Inl e \<Rightarrow> (Some (Inl (cli_Wrap e ''failed to read file'')), s)
      | Inr raw \<Rightarrow>
     (case (if encryptAES s
            then EncryptAES (IDKey env) (cmd_aes env) (rand_read env) (rand_read env)
                   (bytes_of_string raw) (bytes_of_string passphrase)
            else Encrypt (IDKey env) (cmd_chacha env) (rand_read env) (cmd_nonce env)
                   (bytes_of_string raw) (bytes_of_string passphrase)) of
        None \<Rightarrow> (None, s)
      | Some (Inl e) \<Rightarrow> (Some (Inl (cli_Wrap e ''failed to encrypt'')), s)
      | Some (Inr encrypted) \<Rightarrow>
     (let outPath = path @ ''.enc'' in
      case med_Write (Local env) outPath (string_of_bytes encrypted) (local_fs s) of
        (Some e, m) \<Rightarrow> (Some (Inl (cli_Wrap e ''failed to write encrypted file'')), s\<lparr>local_fs := m\<rparr>)
      | (None, m) \<Rightarrow>
          (Some (Inr ()), say (Success (''Encrypted '' @ path @ '' -> '' @ outPath)) (s\<lparr>local_fs := m\<rparr>))))))"

definition runDecrypt ::
  "('m, 'r, 'b, 'a, 'h, 'o) cmd_env \<Rightarrow> string \<Rightarrow> 'm crypt_cmd \<Rightarrow> 'm outcome" where
  "runDecrypt env path s =
     (case getPassphrase env s of
        Inl e \<Rightarrow> (Some (Inl e), s)
      | Inr passphrase \<Rightarrow>
     if passphrase = '''' then (Some (Inl (cli_Err ''passphrase cannot be empty'')), s)
     else
     (case med_Read (Local env) (local_fs s) path of
        Inl e \<Rightarrow> (Some (Inl (cli_Wrap e ''failed to read file'')), s)
      | Inr raw \<Rightarrow>
     (case (if encryptAES s
            then DecryptAES (IDKey env) (cmd_aes env) (bytes_of_string raw) (bytes_of_string passphrase)
            else Decrypt (IDKey env) (cmd_chacha env) (bytes_of_string raw) (bytes_of_string passphrase)) of
        None \<Rightarrow> (None, s)
      | Some (Inl e) \<Rightarrow> (Some (Inl (cli_Wrap e ''failed to decrypt'')), s)
      | Some (Inr decrypted) \<Rightarrow>
     (let trimmed = TrimSuffix path ''.enc'';
          outPath = (if trimmed = path then path @ ''.dec'' else trimmed) in
      case med_Write (Local env) outPath (string_of_bytes decrypted) (local_fs s) of
        (Some e, m) \<Rightarrow> (Some (Inl (cli_Wrap e ''failed to write decrypted file'')), s\<lparr>local_fs := m\<rparr>)
      | (None, m) \<Rightarrow>
          (Some (Inr ()), say (Success (''Decrypted '' @ path @ '' -> '' @ outPath)) (s\<lparr>local_fs := m\<rparr>))))))"

text \<open>The actions of \<^verbatim>\<open>addEncryptCommand\<close>.\<close>

definition encrypt_flags ::
  "('m, 'r, 'b, 'a, 'h, 'o) cmd_env \<Rightarrow> 'o \<Rightarrow> 'm crypt_cmd \<Rightarrow> 'm crypt_cmd" where
  "encrypt_flags env opts s =
     s\<lparr>encryptPassphrase := String_opt (cmd_opts env) opts ''passphrase'',
       encryptAES := Bool_opt (cmd_opts env) opts ''aes''\<rparr>"

definition encrypt_command ::
  "('m, 'r, 'b, 'a, 'h, 'o) cmd_env \<Rightarrow> 'o \<Rightarrow> 'm crypt_cmd \<Rightarrow> 'm outcome" where
  "encrypt_command env opts s =
     (let path = String_opt (cmd_opts env) opts ''_arg'' in
      if path = '''' then (Some (Inl (cli_Err ''encrypt requires a path'')), s)
      else runEncrypt env path (encrypt_flags env opts s))"

definition decrypt_command ::
  "('m, 'r, 'b, 'a, 'h, 'o) cmd_env \<Rightarrow> 'o \<Rightarrow> 'm crypt_cmd \<Rightarrow> 'm outcome" where
  "decrypt_command env opts s =
     (let path = String_opt (cmd_opts env) opts ''_arg'' in
      if path = '''' then (Some (Inl (cli_Err ''decrypt requires a path'')), s)
      else runDecrypt env path (encrypt_flags env opts s))"

section \<open>Passwords\<close>

definition runHashVerify ::
  "('m, 'r, 'b, 'a, 'h, 'o) cmd_env \<Rightarrow> string \<Rightarrow> string \<Rightarrow> 'm crypt_cmd \<Rightarrow> 'm outcome" where
  "runHashVerify env input hash s =
     (case (if hashBcrypt s
            then Some (VerifyBcrypt (bcrypt_compare env) (bcrypt_mismatch env) input hash)
            else VerifyPassword (IDKey env) input hash) of
        None \<Rightarrow> (None, s)
      | Some (Inl e) \<Rightarrow> (Some (Inl (cli_Wrap e ''failed to verify hash'')), s)
      | Some (Inr matches) \<Rightarrow>
          if matches then (Some (Inr ()), say (Success ''Password matches hash'') s)
          else (Some (Inl (cli_Err ''hash verification failed'')),
                say (ErrorLine ''Password does not match hash'') s))"

definition runHash ::
  "('m, 'r, 'b, 'a, 'h, 'o) cmd_env \<Rightarrow> string \<Rightarrow> 'm crypt_cmd \<Rightarrow> 'm outcome" where
  "runHash env input s =
     (if hashVerify s \<noteq> '''' then runHashVerify env input (hashVerify s) s
      else
        (case (if hashBcrypt s
               then Some (HashBcrypt (bcrypt_generate env) input (bcrypt_DefaultCost env))
               else HashPassword (IDKey env) (rand_read env) input) of
           None \<Rightarrow> (None, s)
         | Some (Inl e) \<Rightarrow> (Some (Inl (cli_Wrap e ''failed to hash password'')), s)
         | Some (Inr hash) \<Rightarrow> (Some (Inr ()), say (Out hash) s)))"

definition hash_command ::
  "('m, 'r, 'b, 'a, 'h, 'o) cmd_env \<Rightarrow> 'o \<Rightarrow> 'm crypt_cmd \<Rightarrow> 'm outcome" where
  "hash_command env opts s =
     (let input = String_opt (cmd_opts env) opts ''_arg'' in
      if input = '''' then (Some (Inl (cli_Err ''hash requires input'')), s)
      else runHash env input
             (s\<lparr>hashBcrypt := Bool_opt (cmd_opts env) opts ''bcrypt'',
                hashVerify := String_opt (cmd_opts env) opts ''verify''\<rparr>))"

section \<open>Checksums\<close>

definition runChecksum ::
  "('m, 'r, 'b, 'a, 'h, 'o) cmd_env \<Rightarrow> string \<Rightarrow> 'm crypt_cmd \<Rightarrow> 'm outcome" where
  "runChecksum env path s =
     (case (if checksumSHA512 s then SHA512File (cmd_files env) (cmd_sigil env) path
            else SHA256File (cmd_files env) (cmd_sigil env) path) of
        (r, closing) \<Rightarrow>
     (let s = fold (\<lambda>e. say (CloseFailed e)) closing s in
      case r of
        Inl e \<Rightarrow> (Some (Inl (cli_Wrap e ''failed to compute checksum'')), s)
      | Inr hash \<Rightarrow>
          if checksumVerify s \<noteq> '''' then
            (if hash = checksumVerify s
             then (Some (Inr ()), say (Success (''Checksum matches: '' @ PathBase env path)) s)
             else (Some (Inl (cli_Err ''checksum verification failed'')),
                   say (Dim (''  got:      '' @ hash))
                     (say (Dim (''  expected: '' @ checksumVerify s))
                       (say (ErrorLine (''Checksum mismatch: '' @ PathBase env path)) s))))
          else
            (let algo = (if checksumSHA512 s then ''SHA-512'' else ''SHA-256'')
             in (Some (Inr ()), say (Out (hash @ ''  '' @ path @ ''  ('' @ algo @ '')'')) s))))"

definition checksum_command ::
  "('m, 'r, 'b, 'a, 'h, 'o) cmd_env \<Rightarrow> 'o \<Rightarrow> 'm crypt_cmd \<Rightarrow> 'm outcome" where
  "checksum_command env opts s =
     (let path = String_opt (cmd_opts env) opts ''_arg'' in
      if path = '''' then (Some (Inl (cli_Err ''checksum requires a path'')), s)
      else runChecksum env path
             (s\<lparr>checksumSHA512 := Bool_opt (cmd_opts env) opts ''sha512'',
                checksumVerify := String_opt (cmd_opts env) opts ''verify''\<rparr>))"

section \<open>Keys\<close>

definition runKeygen :: "('m, 'r, 'b, 'a, 'h, 'o) cmd_env \<Rightarrow> 'm crypt_cmd \<Rightarrow> 'm outcome" where
  "runKeygen env s =
     (if keygenHex s \<and> keygenBase64 s
      then (Some (Inl (cli_Err ''--hex and --base64 are mutually exclusive'')), s)
      else if keygenLength s \<le> 0 \<or> keygenLength s > 1024
      then (Some (Inl (cli_Err ''key length must be between 1 and 1024 bytes'')), s)
      else
        (case rand_read env (nat (keygenLength s)) of
           Inl e \<Rightarrow> (Some (Inl (cli_Wrap e ''failed to generate random key'')), s)
         | Inr key \<Rightarrow>
             (Some (Inr ()),
              say (Out (if keygenHex s then HexEncode key
                        else if keygenBase64 s then Base64Encode key
                        else HexEncode key)) s)))"

definition keygen_command ::
  "('m, 'r, 'b, 'a, 'h, 'o) cmd_env \<Rightarrow> 'o \<Rightarrow> 'm crypt_cmd \<Rightarrow> 'm outcome" where
  "keygen_command env opts s =
     (let n = Int_opt (cmd_opts env) opts ''length''
      in runKeygen env
           (s\<lparr>keygenLength := (if n = 0 then 32 else n),
              keygenHex := Bool_opt (cmd_opts env) opts ''hex'',
              keygenBase64 := Bool_opt (cmd_opts env) opts ''base64''\<rparr>))"

section \<open>The commands\<close>

text \<open>What \<^verbatim>\<open>AddCryptCommands\<close> registers; the group itself has no action.\<close>

datatype command = EncryptCommand | DecryptCommand | HashCommand | ChecksumCommand | KeygenCommand

definition AddCryptCommands :: "(string \<times> command option) list" where
  "AddCryptCommands =
     [(''crypt'', None), (''crypt/hash'', Some HashCommand), (''crypt/encrypt'', Some EncryptCommand),
      (''crypt/decrypt'', Some DecryptCommand), (''crypt/keygen'', Some KeygenCommand),
      (''crypt/checksum'', Some ChecksumCommand)]"

fun run_command ::
  "('m, 'r, 'b, 'a, 'h, 'o) cmd_env \<Rightarrow> command \<Rightarrow> 'o \<Rightarrow> 'm crypt_cmd \<Rightarrow> 'm outcome" where
  "run_command env EncryptCommand opts s = encrypt_command env opts s"
| "run_command env DecryptCommand opts s = decrypt_command env opts s"
| "run_command env HashCommand opts s = hash_command env opts s"
| "run_command env ChecksumCommand opts s = checksum_command env opts s"
| "run_command env KeygenCommand opts s = keygen_command env opts s"

text \<open>The smoke test: the lines on the error stream and the exit code; \<open>None\<close> is a panic.\<close>

definition smoke_main ::
  "argon2 \<Rightarrow> 'r chacha_lib \<Rightarrow> rand \<Rightarrow> 'r \<Rightarrow> (err \<Rightarrow> string) \<Rightarrow> (string list \<times> nat) option" where
  "smoke_main kdf lib rs r err_text =
     (let plaintext = bytes_of_string ''hello world'';
          passphrase = bytes_of_string ''ax-10-cli-artifact-validation''
      in case Encrypt kdf lib rs r plaintext passphrase of
           None \<Rightarrow> None
         | Some (Inl e) \<Rightarrow> Some ([err_text e], 1)
         | Some (Inr ciphertext) \<Rightarrow>
             (case Decrypt kdf lib ciphertext passphrase of
                None \<Rightarrow> None
              | Some (Inl e) \<Rightarrow> Some ([err_text e], 1)
              | Some (Inr decrypted) \<Rightarrow>
                  if decrypted \<noteq> plaintext
                  then Some ([''decrypted plaintext does not match original plaintext''], 1)
                  else Some ([], 0)))"

section \<open>Properties\<close>

lemma say_simps [simp]:
  "local_fs (say l s) = local_fs s" "screen (say l s) = screen s @ [l]"
  by (simp_all add: say_def)

text \<open>The contract of the surroundings: files hold what is written, and ciphers invert.\<close>

definition cmd_sound :: "('m, 'r, 'b, 'a, 'h, 'o) cmd_env \<Rightarrow> bool" where
  "cmd_sound env \<longleftrightarrow> medium_sound (Local env) \<and> rand_sound (rand_read env) \<and>
     chacha_sound (cmd_chacha env) (cmd_nonce env) \<and> aes_sound (cmd_aes env) (rand_read env)"

lemma write_read:
  "medium_sound M \<Longrightarrow> fst (med_Write M p c m) = None \<Longrightarrow> med_Read M (snd (med_Write M p c m)) p = Inr c"
  "medium_sound M \<Longrightarrow> q \<noteq> p \<Longrightarrow> med_Read M (snd (med_Write M p c m)) q = med_Read M m q"
  by (simp_all add: medium_sound_def)

lemma write_then_read:
  "medium_sound M \<Longrightarrow> med_Write M p c m = (None, m') \<Longrightarrow> med_Read M m' p = Inr c"
  using write_read(1) [of M p c m] by simp

lemma write_reads_other:
  "medium_sound M \<Longrightarrow> med_Write M p c m = (e, m') \<Longrightarrow> q \<noteq> p \<Longrightarrow> med_Read M m' q = med_Read M m q"
  using write_read(2) [of M q p c m] by simp

lemma runDecrypt_enc:
  assumes "getPassphrase env s = Inr pw" and "pw \<noteq> ''''"
    and "med_Read (Local env) (local_fs s) (path @ ''.enc'') = Inr (string_of_bytes c)"
    and "(if encryptAES s then DecryptAES (IDKey env) (cmd_aes env) c (bytes_of_string pw)
      else Decrypt (IDKey env) (cmd_chacha env) c (bytes_of_string pw)) = Some (Inr p)"
    and "med_Write (Local env) path (string_of_bytes p) (local_fs s) = (x, m)"
  shows "runDecrypt env (path @ ''.enc'') s =
      (case x of
         Some e \<Rightarrow> (Some (Inl (cli_Wrap e ''failed to write decrypted file'')), s\<lparr>local_fs := m\<rparr>)
       | None \<Rightarrow> (Some (Inr ()),
           say (Success (''Decrypted '' @ (path @ ''.enc'') @ '' -> '' @ path)) (s\<lparr>local_fs := m\<rparr>)))"
  using assms by (cases "encryptAES s") (simp_all add: runDecrypt_def Let_def split: option.split)

text \<open>What a successful encryption leaves under the name with \<^verbatim>\<open>.enc\<close>, and elsewhere.\<close>

lemma runEncrypt_Inr:
  assumes "cmd_sound env" and "runEncrypt env path s = (Some (Inr ()), s1)"
    and "getPassphrase env s = Inr pw"
  obtains raw c where "med_Read (Local env) (local_fs s) path = Inr raw" "pw \<noteq> ''''"
    "med_Read (Local env) (local_fs s1) (path @ ''.enc'') = Inr (string_of_bytes c)"
    "(if encryptAES s then DecryptAES (IDKey env) (cmd_aes env) c (bytes_of_string pw)
      else Decrypt (IDKey env) (cmd_chacha env) c (bytes_of_string pw)) = Some (Inr (bytes_of_string raw))"
    "\<And>q. q \<noteq> path @ ''.enc'' \<Longrightarrow> med_Read (Local env) (local_fs s1) q = med_Read (Local env) (local_fs s) q"
    "screen s1 = screen s @ [Success (''Encrypted '' @ path @ '' -> '' @ path @ ''.enc'')]"
proof -
  let ?M = "Local env"
  note d = assms(1) [unfolded cmd_sound_def]
  obtain raw c m where r: "med_Read ?M (local_fs s) path = Inr raw" "pw \<noteq> ''''"
      and c: "(if encryptAES s
            then EncryptAES (IDKey env) (cmd_aes env) (rand_read env) (rand_read env)
                   (bytes_of_string raw) (bytes_of_string pw)
            else Encrypt (IDKey env) (cmd_chacha env) (rand_read env) (cmd_nonce env)
                   (bytes_of_string raw) (bytes_of_string pw)) = Some (Inr c)"
      and w: "med_Write ?M (path @ ''.enc'') (string_of_bytes c) (local_fs s) = (None, m)"
      and s1: "s1 = say (Success (''Encrypted '' @ path @ '' -> '' @ path @ ''.enc'')) (s\<lparr>local_fs := m\<rparr>)"
    using assms(2,3) unfolding runEncrypt_def Let_def
    by (auto split: sum.splits option.splits prod.splits if_splits)
  have dec: "(if encryptAES s then DecryptAES (IDKey env) (cmd_aes env) c (bytes_of_string pw)
      else Decrypt (IDKey env) (cmd_chacha env) c (bytes_of_string pw)) = Some (Inr (bytes_of_string raw))"
    using c d Decrypt_Encrypt aes_encrypt_decrypt_roundtrip by (metis (no_types, lifting))
  show ?thesis
    by (rule that [OF r _ dec])
      (use w s1 d in \<open>auto simp: write_then_read write_reads_other\<close>)
qed

text \<open>
  C17.  A file that \<^verbatim>\<open>crypt/encrypt\<close> has encrypted, \<^verbatim>\<open>crypt/decrypt\<close> decrypts, given the same
  passphrase and cipher: it writes the original content under the original name, if it can write at
  all, and the encrypted file is still there.  Whatever the decryption finds in the package's flags
  from earlier commands does not matter.
\<close>

theorem encrypted_file_decrypts:
  assumes "cmd_sound env"
    and "String_opt (cmd_opts env) opts ''passphrase'' \<noteq> ''''"
    and "med_Read (Local env) (local_fs s) (String_opt (cmd_opts env) opts ''_arg'') = Inr content"
    and "encrypt_command env opts s = (Some (Inr ()), s1)"
    and "String_opt (cmd_opts env) opts' ''_arg'' = String_opt (cmd_opts env) opts ''_arg'' @ ''.enc''"
    and "String_opt (cmd_opts env) opts' ''passphrase'' = String_opt (cmd_opts env) opts ''passphrase''"
    and "Bool_opt (cmd_opts env) opts' ''aes'' = Bool_opt (cmd_opts env) opts ''aes''"
    and "local_fs s2 = local_fs s1"
  shows "case decrypt_command env opts' s2 of
      (r, s3) \<Rightarrow>
        (case fst (med_Write (Local env) (String_opt (cmd_opts env) opts ''_arg'') content (local_fs s1)) of
           Some e \<Rightarrow> r = Some (Inl (cli_Wrap e ''failed to write decrypted file''))
         | None \<Rightarrow> r = Some (Inr ()) \<and>
             med_Read (Local env) (local_fs s3) (String_opt (cmd_opts env) opts ''_arg'') = Inr content \<and>
             med_Read (Local env) (local_fs s3) (String_opt (cmd_opts env) opts' ''_arg'') =
               med_Read (Local env) (local_fs s1) (String_opt (cmd_opts env) opts' ''_arg''))"
proof -
  let ?path = "String_opt (cmd_opts env) opts ''_arg''" and ?pw = "String_opt (cmd_opts env) opts ''passphrase''"
  have M: "medium_sound (Local env)" using assms(1) by (simp add: cmd_sound_def)
  have e: "runEncrypt env ?path (encrypt_flags env opts s) = (Some (Inr ()), s1)"
    using assms(4) by (auto simp: encrypt_command_def Let_def split: if_splits)
  have p: "getPassphrase env (encrypt_flags env opts s) = Inr ?pw"
    using assms(2) by (simp add: getPassphrase_def encrypt_flags_def)
  obtain c where c: "med_Read (Local env) (local_fs s1) (?path @ ''.enc'') = Inr (string_of_bytes c)"
      "(if Bool_opt (cmd_opts env) opts ''aes'' then DecryptAES (IDKey env) (cmd_aes env) c (bytes_of_string ?pw)
      else Decrypt (IDKey env) (cmd_chacha env) c (bytes_of_string ?pw)) = Some (Inr (bytes_of_string content))"
    using runEncrypt_Inr [OF assms(1) e p] assms(3) by (auto simp: encrypt_flags_def)
  obtain x m where w: "med_Write (Local env) ?path content (local_fs s1) = (x, m)" by fastforce
  let ?s = "encrypt_flags env opts' s2"
  have "runDecrypt env (?path @ ''.enc'') ?s =
      (case x of
         Some e \<Rightarrow> (Some (Inl (cli_Wrap e ''failed to write decrypted file'')), ?s\<lparr>local_fs := m\<rparr>)
       | None \<Rightarrow> (Some (Inr ()),
           say (Success (''Decrypted '' @ (?path @ ''.enc'') @ '' -> '' @ ?path)) (?s\<lparr>local_fs := m\<rparr>)))"
    by (rule runDecrypt_enc [where p = "bytes_of_string content" and c = c and pw = ?pw])
      (use assms(2,6-8) c w in \<open>simp_all add: getPassphrase_def encrypt_flags_def\<close>)
  moreover have "decrypt_command env opts' s2 = runDecrypt env (?path @ ''.enc'') ?s"
    using assms(5) by (simp add: decrypt_command_def Let_def)
  ultimately show ?thesis
    using w write_then_read [OF M, of ?path content "local_fs s1" m] write_reads_other [OF M w, of "?path @ ''.enc''"] assms(5)
    by (simp split: option.split)
qed
text \<open>
  A hash that \<^verbatim>\<open>crypt/hash\<close> prints is one it verifies: with the printed text as \<^verbatim>\<open>--verify\<close>
  the same password matches.
\<close>

theorem printed_hash_verifies:
  assumes "kdf_sound (IDKey env)"
    and "\<not> Bool_opt (cmd_opts env) opts ''bcrypt''" and "String_opt (cmd_opts env) opts ''verify'' = ''''"
    and "hash_command env opts s = (Some (Inr ()), s1)"
    and "\<not> Bool_opt (cmd_opts env) opts' ''bcrypt''"
    and "String_opt (cmd_opts env) opts' ''_arg'' = String_opt (cmd_opts env) opts ''_arg''"
    and "screen s1 = screen s @ [Out (String_opt (cmd_opts env) opts' ''verify'')]"
  shows "hash_command env opts' s2 = (Some (Inr ()), say (Success ''Password matches hash'')
    (s2\<lparr>hashBcrypt := False, hashVerify := String_opt (cmd_opts env) opts' ''verify''\<rparr>))"
proof -
  let ?pw = "String_opt (cmd_opts env) opts ''_arg''" and ?h = "String_opt (cmd_opts env) opts' ''verify''"
  have pw: "?pw \<noteq> ''''" using assms(4) by (auto simp: hash_command_def Let_def split: if_splits)
  then have h: "HashPassword (IDKey env) (rand_read env) ?pw = Some (Inr ?h)"
    using assms(2-4,7)
    by (auto simp: hash_command_def runHash_def Let_def split: option.splits sum.splits)
  have v: "VerifyPassword (IDKey env) ?pw ?h = Some (Inr True)"
    using HashPassword_verifies [OF assms(1) h] by auto
  moreover have "?h \<noteq> ''''"
    using v by (auto simp: VerifyPassword_def)
  ultimately show ?thesis
    using pw assms(5,6) by (simp add: hash_command_def runHash_def runHashVerify_def Let_def)
qed

text \<open>
  \<^verbatim>\<open>crypt/keygen\<close> prints a key exactly for a length of 1 to 1024 bytes, 0 counting as 32, and not both
  encodings: one line, from which the bytes that the random source gave are read back.  In every
  other case it prints nothing.
\<close>

theorem keygen_prints_the_key:
  assumes "\<And>n. rand_read env n = Inr (key n)" and "\<And>n. length (key n) = n"
  defines "n \<equiv> \<lambda>opts. if Int_opt (cmd_opts env) opts ''length'' = 0 then 32
    else Int_opt (cmd_opts env) opts ''length''"
  shows "(fst (keygen_command env opts s) = Some (Inr ())) =
      (1 \<le> n opts \<and> n opts \<le> 1024 \<and>
       \<not> (Bool_opt (cmd_opts env) opts ''hex'' \<and> Bool_opt (cmd_opts env) opts ''base64'')) \<and>
    (if fst (keygen_command env opts s) = Some (Inr ())
     then \<exists>text. screen (snd (keygen_command env opts s)) = screen s @ [Out text] \<and>
       (if Bool_opt (cmd_opts env) opts ''base64''
        then Base64Decode text = Inr (key (nat (n opts)))
        else hex_read text = Some (key (nat (n opts))) \<and> int (length text) = 2 * n opts)
     else screen (snd (keygen_command env opts s)) = screen s)"
  using assms(1,2) unfolding n_def
  by (auto simp: keygen_command_def runKeygen_def Let_def decode_encode hex_read_HexEncode length_HexEncode)

text \<open>The smoke test ends with 0 whenever the cipher inverts and the random source does not fail.\<close>

lemma smoke_main_passes:
  assumes "chacha_sound lib r" and "rand_sound rs"
  shows "case smoke_main kdf lib rs r err_text of
      None \<Rightarrow> True | Some (lines, code) \<Rightarrow> code = 0 \<and> lines = [] \<or>
        (\<exists>e. Encrypt kdf lib rs r (bytes_of_string ''hello world'')
           (bytes_of_string ''ax-10-cli-artifact-validation'') = Some (Inl e) \<and> code = 1 \<and> lines = [err_text e])"
  using Decrypt_Encrypt [OF assms]
  by (simp add: smoke_main_def Let_def split: option.split sum.split)

section \<open>Examples\<close>

definition demo_cmd_env ::
  "(files, bytes, bytes, bytes, string, (string \<times> string) list) cmd_env" where
  "demo_cmd_env = \<lparr>Local = map_medium, Prompt = (\<lambda>_ _. Inr ''asked''), IDKey = plain_kdf,
     rand_read = (\<lambda>n. Inr (replicate n 7)), cmd_chacha = plain_chacha, cmd_nonce = [],
     cmd_aes = plain_aes, bcrypt_generate = (\<lambda>p _. Inr p), bcrypt_compare = (\<lambda>h p. None),
     bcrypt_mismatch = Ext ''mismatch'', bcrypt_DefaultCost = 10,
     cmd_files = \<lparr>fl_open = Inr, fl_readall = (\<lambda>f. Inr (bytes_of_string f)), fl_close = (\<lambda>_. None)\<rparr>,
     cmd_sigil = (\<lambda>_ d. Inr d), PathBase = (\<lambda>p. p), cmd_opts = text_options\<rparr>"

definition demo_cmd :: "files crypt_cmd" where
  "demo_cmd = \<lparr>local_fs = [''f'' \<mapsto> ''hi''], encryptPassphrase = '''', encryptAES = False,
     hashBcrypt = False, hashVerify = '''', checksumSHA512 = False, checksumVerify = '''',
     keygenLength = 0, keygenHex = False, keygenBase64 = False, screen = []\<rparr>"
lemma demo_cmd_sound: "cmd_sound demo_cmd_env"
  using map_medium_sound plain_ciphers_sound
  by (simp add: cmd_sound_def demo_cmd_env_def aes_sound_def plain_aes_def rand_sound_def)

lemmas demo_cmd_defs = demo_cmd_env_def demo_cmd_def text_options_def

definition demo_seal :: "(string \<times> string) list" where
  "demo_seal = [(''_arg'', ''f''), (''passphrase'', ''p'')]"

definition demo_open_seal :: "(string \<times> string) list" where
  "demo_open_seal = [(''_arg'', ''f.enc''), (''passphrase'', ''p'')]"

lemma demo_encrypts: "fst (encrypt_command demo_cmd_env demo_seal demo_cmd) = Some (Inr ())"
  by (simp add: encrypt_command_def runEncrypt_def getPassphrase_def encrypt_flags_def demo_cmd_defs demo_seal_def
    Let_def map_medium_def Encrypt_def generateSalt_def DeriveKey_def plain_kdf_def ChaCha20Encrypt_def
    plain_chacha_def argon2Time_def argon2Parallelism_def)

theorem encrypted_file_decrypts_witness:
  "fst (decrypt_command demo_cmd_env demo_open_seal (snd (encrypt_command demo_cmd_env demo_seal demo_cmd)))
     = Some (Inr ()) \<and>
   med_Read map_medium (local_fs (snd (decrypt_command demo_cmd_env demo_open_seal
     (snd (encrypt_command demo_cmd_env demo_seal demo_cmd))))) ''f'' = Inr ''hi''"
proof -
  have e: "encrypt_command demo_cmd_env demo_seal demo_cmd =
      (Some (Inr ()), snd (encrypt_command demo_cmd_env demo_seal demo_cmd))"
    using demo_encrypts by (simp add: prod_eq_iff)
  have o: "String_opt (cmd_opts demo_cmd_env) demo_seal ''_arg'' = ''f''"
    "String_opt (cmd_opts demo_cmd_env) demo_open_seal ''_arg'' = ''f.enc''"
    "String_opt (cmd_opts demo_cmd_env) demo_seal ''passphrase'' = ''p''"
    "String_opt (cmd_opts demo_cmd_env) demo_open_seal ''passphrase'' = ''p''"
    "Bool_opt (cmd_opts demo_cmd_env) demo_open_seal ''aes'' = Bool_opt (cmd_opts demo_cmd_env) demo_seal ''aes''"
    by (simp_all add: demo_cmd_env_def text_options_def demo_seal_def demo_open_seal_def)
  have r: "med_Read (Local demo_cmd_env) (local_fs demo_cmd)
      (String_opt (cmd_opts demo_cmd_env) demo_seal ''_arg'') = Inr ''hi''"
    by (simp only: o) (simp add: demo_cmd_env_def demo_cmd_def map_medium_def)
  have l: "Local demo_cmd_env = map_medium" by (simp add: demo_cmd_env_def)
  from encrypted_file_decrypts [OF demo_cmd_sound _ r e _ _ o(5) refl] show ?thesis
    by (simp add: o l map_medium_def split_def)
qed

theorem printed_hash_verifies_witness:
  "\<exists>h. screen (snd (hash_command demo_cmd_env [(''_arg'', ''pw'')] demo_cmd)) = [Out h] \<and>
     fst (hash_command demo_cmd_env [(''_arg'', ''pw''), (''verify'', h)] demo_cmd) = Some (Inr ())"
proof -
  obtain h where h: "HashPassword plain_kdf (\<lambda>n. Inr (replicate n 7)) ''pw'' = Some (Inr h)"
    using HashPassword_total [of "\<lambda>n. Inr (replicate n 7)" "replicate argon2SaltLen 7"] plain_key_exists
    by blast
  have c: "hash_command demo_cmd_env [(''_arg'', ''pw'')] demo_cmd = (Some (Inr ()), say (Out h) demo_cmd)"
    using h by (simp add: hash_command_def runHash_def demo_cmd_defs Let_def)
  have k: "kdf_sound (IDKey demo_cmd_env)" by (simp add: demo_cmd_env_def plain_kdf_sound)
  have "screen (snd (hash_command demo_cmd_env [(''_arg'', ''pw'')] demo_cmd)) = [Out h]"
    by (simp only: c snd_conv) (simp add: demo_cmd_def)
  moreover have "hash_command demo_cmd_env [(''_arg'', ''pw''), (''verify'', h)] demo_cmd =
      (Some (Inr ()), say (Success ''Password matches hash'') (demo_cmd
        \<lparr>hashBcrypt := False, hashVerify := String_opt (cmd_opts demo_cmd_env) [(''_arg'', ''pw''), (''verify'', h)] ''verify''\<rparr>))"
    by (rule printed_hash_verifies [OF k _ _ c]) (simp_all add: demo_cmd_defs)
  ultimately show ?thesis by auto
qed

theorem keygen_prints_the_key_witness:
  "fst (keygen_command demo_cmd_env [(''length'', ''xx'')] demo_cmd) = Some (Inr ()) \<and>
   fst (keygen_command demo_cmd_env [(''hex'', ''''), (''base64'', '''')] demo_cmd) \<noteq> Some (Inr ())"
proof -
  have "rand_read demo_cmd_env n = Inr (replicate n 7)" "length (replicate n (7 :: byte)) = n" for n
    by (simp_all add: demo_cmd_env_def)
  note k = keygen_prints_the_key [OF this, THEN conjunct1]
  show ?thesis by (subst k, subst k) (simp add: demo_cmd_env_def text_options_def)
qed

end
