(* ===== verification/Regexp.thy ===== *)
theory Regexp
  imports Prelude
begin

text \<open>
  The two parts of Go's standard library that \<^verbatim>\<open>go/cmd/testcmd\<close> reads text with.  \<^verbatim>\<open>regexp\<close>: the
  fragment of its syntax that the patterns there use, with the leftmost-first choice among matches
  that its documentation promises, the one a backtracking engine finds first.  \<^verbatim>\<open>bufio.Scanner\<close> with
  its default split function and buffer: lines without their end of line, up to the first line that
  does not fit into the buffer.

  The lemmas find the first match of a sequence from the first matches of its parts, and cut a text
  that was put together from lines back into them.
\<close>

section \<open>Patterns\<close>

datatype char_class = Space | NonSpace | Numeric

definition newline :: char where
  "newline = CHR 0x0A"

definition tab :: string where
  "tab = [CHR 0x09]"

text \<open>\<^verbatim>\<open>\s\<close>, \<^verbatim>\<open>\S\<close> and \<^verbatim>\<open>[\d.]\<close>.\<close>

definition is_space :: "char \<Rightarrow> bool" where
  "is_space c \<longleftrightarrow> c \<in> {CHR 0x09, CHR 0x0A, CHR 0x0C, CHR 0x0D, CHR '' ''}"

fun in_class :: "char_class \<Rightarrow> char \<Rightarrow> bool" where
  "in_class Space c = is_space c"
| "in_class NonSpace c = (\<not> is_space c)"
| "in_class Numeric c = (c \<in> set ''0123456789.'')"

text \<open>\<open>Many\<close> is a greedy \<^verbatim>\<open>+\<close> on a class, \<open>Opt\<close> a greedy \<^verbatim>\<open>?\<close>, \<open>Group\<close> a capturing group.\<close>

datatype rx = Lit string | Many char_class | Cat rx rx | Alt rx rx | Opt rx | Group nat rx

type_synonym match = "string \<times> string \<times> (nat \<times> string) list"

text \<open>
  The matches at the head of a text in the order in which they are preferred: what is matched, what
  follows, and the groups.
\<close>

fun runs :: "rx \<Rightarrow> string \<Rightarrow> match list" where
  "runs (Lit w) s = (if HasPrefix s w then [(w, drop (length w) s, [])] else [])"
| "runs (Many c) s =
     map (\<lambda>n. (take n s, drop n s, [])) (rev [1..<Suc (length (takeWhile (in_class c) s))])"
| "runs (Cat a b) s =
     concat (map (\<lambda>(x, r, g). map (\<lambda>(y, t, h). (x @ y, t, g @ h)) (runs b r)) (runs a s))"
| "runs (Alt a b) s = runs a s @ runs b s"
| "runs (Opt a) s = runs a s @ [([], s, [])]"
| "runs (Group i a) s = map (\<lambda>(x, r, g). (x, r, (i, x) # g)) (runs a s)"

fun sequence :: "rx list \<Rightarrow> rx" where
  "sequence [] = Lit ''''"
| "sequence [r] = r"
| "sequence (r # q # rs) = Cat r (sequence (q # rs))"

definition first :: "rx \<Rightarrow> string \<Rightarrow> match option" where
  "first r s = (case runs r s of [] \<Rightarrow> None | m # _ \<Rightarrow> Some m)"

text \<open>\<^verbatim>\<open>FindStringSubmatch\<close> for a pattern that starts with \<^verbatim>\<open>^\<close>, and for one that does not.\<close>

definition match_head :: "rx \<Rightarrow> string \<Rightarrow> (nat \<times> string) list option" where
  "match_head r s = map_option (\<lambda>(x, t, g). g) (first r s)"

fun match_in :: "rx \<Rightarrow> string \<Rightarrow> (nat \<times> string) list option" where
  "match_in r [] = match_head r []"
| "match_in r (c # s) = (case match_head r (c # s) of Some g \<Rightarrow> Some g | None \<Rightarrow> match_in r s)"

text \<open>A group that took no part in the match is the empty text.\<close>

definition submatch :: "(nat \<times> string) list \<Rightarrow> nat \<Rightarrow> string" where
  "submatch g i = (case map_of g i of None \<Rightarrow> '''' | Some w \<Rightarrow> w)"

lemma first_Lit: "first (Lit w) (w @ s) = Some (w, s, [])"
  by (simp add: first_def)

lemma first_Many:
  assumes "w \<noteq> []" and "\<forall>c\<in>set w. in_class k c" and "s = [] \<or> \<not> in_class k (hd s)"
  shows "first (Many k) (w @ s) = Some (w, s, [])"
proof -
  have "takeWhile (in_class k) (w @ s) = w"
    using assms(2,3) by (cases s) (auto simp: takeWhile_append)
  then show ?thesis using assms(1) by (cases w) (simp_all add: first_def)
qed

lemma runs_Many_Nil: "s = [] \<or> \<not> in_class k (hd s) \<Longrightarrow> runs (Many k) s = []"
  by (cases s) auto

lemma first_Cat:
  assumes "first a s = Some (x, r, g)" and "first b r = Some (y, t, h)"
  shows "first (Cat a b) s = Some (x @ y, t, g @ h)"
  using assms by (auto simp: first_def split: list.splits)

lemma runs_Cat_Nil: "runs a s = [] \<Longrightarrow> runs (Cat a b) s = []"
  by simp

lemma first_Alt_left: "first a s = Some m \<Longrightarrow> first (Alt a b) s = Some m"
  by (auto simp: first_def split: list.splits)

lemma first_Alt_right: "runs a s = [] \<Longrightarrow> first (Alt a b) s = first b s"
  by (simp add: first_def)

lemma first_Opt: "first a s = Some m \<Longrightarrow> first (Opt a) s = Some m"
  by (auto simp: first_def split: list.splits)

lemma first_Opt_none: "runs a s = [] \<Longrightarrow> first (Opt a) s = Some ([], s, [])"
  by (simp add: first_def)

lemma first_Group: "first a s = Some (x, r, g) \<Longrightarrow> first (Group i a) s = Some (x, r, (i, x) # g)"
  by (auto simp: first_def split: list.splits)

lemma first_None: "runs r s = [] \<Longrightarrow> first r s = None"
  by (simp add: first_def)

lemma match_head_None: "runs r s = [] \<Longrightarrow> match_head r s = None"
  by (simp add: match_head_def first_None)

text \<open>A pattern that opens with a word is found in no text without the word.\<close>

lemma match_in_None:
  "\<not> Contains s w \<Longrightarrow> w \<noteq> [] \<Longrightarrow> match_in (Cat (Lit w) r) s = None"
  by (induction s) (auto simp: match_head_None)

text \<open>The search passes over a text without the word, up to a character that is not in the word.\<close>

lemma HasPrefix_before: "c \<notin> set w \<Longrightarrow> HasPrefix (x @ c # s) w \<Longrightarrow> HasPrefix x w"
  by (auto simp: HasPrefix_iff append_eq_append_conv2 Cons_eq_append_conv)

lemma match_in_skip:
  "\<not> Contains x w \<Longrightarrow> w \<noteq> [] \<Longrightarrow> c \<notin> set w \<Longrightarrow>
     match_in (Cat (Lit w) r) (x @ c # s) = match_in (Cat (Lit w) r) s"
proof (induction x)
  case Nil
  then have "\<not> HasPrefix (c # s) w" using HasPrefix_before [of c w "[]" s] by auto
  then show ?case by (simp add: match_head_None)
next
  case (Cons b x)
  then have "\<not> HasPrefix ((b # x) @ c # s) w" using HasPrefix_before [of c w "b # x" s] by auto
  with Cons show ?case by (simp add: match_head_None)
qed

lemma match_in_head: "match_head r s = Some g \<Longrightarrow> match_in r s = Some g"
  by (cases s) auto

section \<open>Lines\<close>

definition MaxScanTokenSize :: nat where
  "MaxScanTokenSize = 64 * 1024"

definition dropCR :: "string \<Rightarrow> string" where
  "dropCR l = (if l \<noteq> [] \<and> last l = CHR 0x0D then butlast l else l)"

text \<open>
  What \<^verbatim>\<open>Scan\<close> yields: the end of line and one carriage return before it are dropped, a text that ends
  with an end of line has no empty last line, and the first line that fills the buffer ends the scan.
\<close>

function scan_lines :: "string \<Rightarrow> string list" where
  "scan_lines s =
     (if s = [] then []
      else let l = takeWhile (\<lambda>c. c \<noteq> newline) s; r = dropWhile (\<lambda>c. c \<noteq> newline) s in
        if MaxScanTokenSize \<le> length l then []
        else dropCR l # scan_lines (tl r))"
  by pat_completeness auto
termination
proof (relation "measure length")
  fix s :: string and l r
  assume "s \<noteq> []" and r: "r = dropWhile (\<lambda>c. c \<noteq> newline) s"
  have "length r \<le> length s" unfolding r by (rule length_dropWhile_le)
  moreover have "0 < length s" using \<open>s \<noteq> []\<close> by simp
  ultimately have "length (tl r) < length s" unfolding length_tl by arith
  then show "(tl r, s) \<in> measure length" by simp
qed simp

declare scan_lines.simps [simp del]

lemma scan_lines_Nil [simp]: "scan_lines [] = []"
  by (simp add: scan_lines.simps)

lemma scan_lines_Cons:
  assumes "newline \<notin> set l" and "length l < MaxScanTokenSize"
  shows "scan_lines (l @ newline # s) = dropCR l # scan_lines s"
proof -
  have "takeWhile (\<lambda>c. c \<noteq> newline) (l @ newline # s) = l"
    "dropWhile (\<lambda>c. c \<noteq> newline) (l @ newline # s) = newline # s"
    using assms(1) by (auto simp: takeWhile_append dropWhile_append)
  then show ?thesis
    using assms(2) by (subst scan_lines.simps) simp
qed

text \<open>Lines that fit, each with its end of line.\<close>

definition unlines :: "string list \<Rightarrow> string" where
  "unlines ls = concat (map (\<lambda>l. l @ [newline]) ls)"

definition plain_line :: "string \<Rightarrow> bool" where
  "plain_line l \<longleftrightarrow> newline \<notin> set l \<and> length l < MaxScanTokenSize \<and> dropCR l = l"

lemma scan_unlines: "\<forall>l\<in>set ls. plain_line l \<Longrightarrow> scan_lines (unlines ls @ s) = ls @ scan_lines s"
  by (induction ls) (simp_all add: unlines_def plain_line_def scan_lines_Cons)

lemma scan_stops:
  assumes "MaxScanTokenSize \<le> length (takeWhile (\<lambda>c. c \<noteq> newline) s)"
  shows "scan_lines s = []"
  using assms by (subst scan_lines.simps) (simp add: Let_def)

lemma unlines_append: "unlines (xs @ ys) = unlines xs @ unlines ys"
  by (simp add: unlines_def)

lemma scan_no_newline: "l \<in> set (scan_lines s) \<Longrightarrow> newline \<notin> set l"
proof (induction s rule: scan_lines.induct)
  case (1 s)
  have d: "set (dropCR m) \<subseteq> set m" for m by (auto simp: dropCR_def dest: in_set_butlastD)
  show ?case
    using 1 d set_takeWhileD by (subst (asm) (2) scan_lines.simps) (fastforce simp: Let_def split: if_splits)
qed

end
