(* ===== verification/TestCommand.thy ===== *)
theory TestCommand
  imports Regexp Json
begin

text \<open>
  \<^verbatim>\<open>go/cmd/testcmd\<close>: the command that runs \<^verbatim>\<open>go test\<close>, reads its output and reports.  The patterns
  are those of the source; the parser keeps its counters in \<open>testResults\<close>; what is printed is a list
  of lines.  Coverages are 64-bit floating-point numbers, of which only the operations the code uses
  are given, as arguments; so are the translations and styles, the framework's path and JSON
  functions and the run of the child process.

  The lemmas show that the parser recovers what \<^verbatim>\<open>go test\<close> reported about each package, where it
  does not, and when the command succeeds.
\<close>

section \<open>Data\<close>

record 'f packageCoverage =
  name :: string
  coverage :: 'f
  hasCov :: bool

record 'f testResults =
  packages :: "'f packageCoverage list"
  passed :: nat
  failed :: nat
  skipped :: nat
  totalCov :: 'f
  covCount :: nat
  failedPkgs :: "string list"

text \<open>
  The floating-point operations: zero, \<^verbatim>\<open>strconv.ParseFloat\<close> without its error, addition, division by
  an integer, the comparisons, \<^verbatim>\<open>%.1f%%\<close>, and the number in a JSON document.
\<close>

record 'f floats =
  zero :: 'f
  ParseFloat :: "string \<Rightarrow> 'f"
  add :: "'f \<Rightarrow> 'f \<Rightarrow> 'f"
  div_int :: "'f \<Rightarrow> nat \<Rightarrow> 'f"
  positive :: "'f \<Rightarrow> bool"
  at_least :: "'f \<Rightarrow> nat \<Rightarrow> bool"
  is_zero :: "'f \<Rightarrow> bool"
  percent :: "'f \<Rightarrow> string"
  number :: "'f \<Rightarrow> json"

section \<open>Parsing\<close>

definition okPattern :: rx where
  "okPattern = sequence [Lit ''ok'', Many Space, Group 1 (Many NonSpace), Many Space,
     Alt (Cat (Many Numeric) (Lit ''s'')) (Lit ''(cached)''),
     Opt (sequence [Many Space, Lit ''coverage:'', Many Space, Group 2 (Many Numeric), Lit ''%''])]"

definition failPattern :: rx where
  "failPattern = sequence [Lit ''FAIL'', Many Space, Group 1 (Many NonSpace)]"

definition skipPattern :: rx where
  "skipPattern = sequence [Lit ''?'', Many Space, Group 1 (Many NonSpace), Many Space, Lit ''[no test files]'']"

definition coverPattern :: rx where
  "coverPattern = sequence [Lit ''coverage:'', Many Space, Group 1 (Many Numeric), Lit ''%'']"

definition empty_results :: "'f floats \<Rightarrow> 'f testResults" where
  "empty_results F = \<lparr>packages = [], passed = 0, failed = 0, skipped = 0, totalCov = zero F,
     covCount = 0, failedPkgs = []\<rparr>"

text \<open>The loop over the packages, from the last one: the first without a coverage gets it.\<close>

fun cover_last :: "'f \<Rightarrow> 'f packageCoverage list \<Rightarrow> 'f packageCoverage list option" where
  "cover_last cov [] = None"
| "cover_last cov (p # ps) =
     (if \<not> hasCov p then Some (p\<lparr>coverage := cov, hasCov := True\<rparr> # ps)
      else map_option ((#) p) (cover_last cov ps))"

definition parse_ok :: "'f floats \<Rightarrow> (nat \<times> string) list \<Rightarrow> 'f testResults \<Rightarrow> 'f testResults" where
  "parse_ok F g r =
     (let pkg = \<lparr>name = submatch g 1, coverage = zero F, hasCov = False\<rparr>;
          (pkg, r) =
            (if submatch g 2 \<noteq> '''' then
               (let cov = ParseFloat F (submatch g 2)
                in (pkg\<lparr>coverage := cov, hasCov := True\<rparr>,
                    r\<lparr>totalCov := add F (totalCov r) cov, covCount := covCount r + 1\<rparr>))
             else (pkg, r))
      in r\<lparr>packages := packages r @ [pkg], passed := passed r + 1\<rparr>)"

definition parse_cover :: "'f floats \<Rightarrow> (nat \<times> string) list \<Rightarrow> 'f testResults \<Rightarrow> 'f testResults" where
  "parse_cover F g r =
     (let cov = ParseFloat F (submatch g 1) in
      if positive F cov then
        (case cover_last cov (rev (packages r)) of
           None \<Rightarrow> r
         | Some ps \<Rightarrow> r\<lparr>packages := rev ps, totalCov := add F (totalCov r) cov, covCount := covCount r + 1\<rparr>)
      else r)"

definition parse_line :: "'f floats \<Rightarrow> string \<Rightarrow> 'f testResults \<Rightarrow> 'f testResults" where
  "parse_line F line r =
     (case match_head okPattern line of
        Some g \<Rightarrow> parse_ok F g r
      | None \<Rightarrow>
     (case match_head failPattern line of
        Some g \<Rightarrow> r\<lparr>failed := failed r + 1, failedPkgs := failedPkgs r @ [submatch g 1]\<rparr>
      | None \<Rightarrow>
     (case match_head skipPattern line of
        Some g \<Rightarrow> r\<lparr>skipped := skipped r + 1\<rparr>
      | None \<Rightarrow>
     (case match_in coverPattern line of
        Some g \<Rightarrow> parse_cover F g r
      | None \<Rightarrow> r))))"

definition parseTestOutput :: "'f floats \<Rightarrow> string \<Rightarrow> 'f testResults" where
  "parseTestOutput F output = fold (parse_line F) (scan_lines output) (empty_results F)"

definition kept_line :: "string \<Rightarrow> bool" where
  "kept_line line \<longleftrightarrow>
     (if HasPrefix line ''ld: warning:'' then False
      else if HasPrefix line ''# '' \<and> HasSuffix line ''.test'' then False
      else True)"

definition filterLinkerWarnings :: "string \<Rightarrow> string" where
  "filterLinkerWarnings output = Join [newline] (filter kept_line (scan_lines output))"

section \<open>Printing\<close>

datatype style = HeaderStyle | PassStyle | FailStyle | SkipStyle | DimStyle | CovHighStyle | CovMedStyle | CovLowStyle

datatype i18n_arg = IntArg int | StrArg string

text \<open>What is printed: a line, or the two streams of the child process as they come.\<close>

datatype out = Println string | Streamed string string

text \<open>How the child process ended: well, with an exit code (negative after a signal), or not at all.\<close>

datatype proc_end = Finished | ExitError int err | RunError err

record ('f, 'o) test_env =
  floats_of :: "'f floats"
  T :: "string \<Rightarrow> i18n_arg list \<Rightarrow> string"
  Label :: "string \<Rightarrow> string"
  ProgressSubject :: "string \<Rightarrow> string \<Rightarrow> string"
  Render :: "style \<Rightarrow> string \<Rightarrow> string"
  PathBase :: "string \<Rightarrow> string"
  SortByName :: "'f packageCoverage list \<Rightarrow> 'f packageCoverage list"
  JSONMarshalString :: "json \<Rightarrow> string"
  has_go_mod :: bool
  DIR_CWD :: string
  GOOS :: string
  run_go :: "string list \<Rightarrow> string option \<Rightarrow> string option \<Rightarrow> string \<times> string \<times> proc_end"
  opts_of :: "'o options_lib"

definition tick_mark :: string where
  "tick_mark = map char_of [226, 156, 147 :: nat]"

definition cross_mark :: string where
  "cross_mark = map char_of [226, 156, 151 :: nat]"

definition circle_mark :: string where
  "circle_mark = map char_of [226, 151, 139 :: nat]"

definition repeatString :: "string \<Rightarrow> int \<Rightarrow> string" where
  "repeatString part count = (if count \<le> 0 then '''' else concat (replicate (nat count) part))"

definition repeatSpaces :: "int \<Rightarrow> string" where
  "repeatSpaces n = (if n \<le> 0 then '''' else concat (replicate (nat n) '' ''))"

definition shortenPackageName :: "('f, 'o) test_env \<Rightarrow> string \<Rightarrow> string" where
  "shortenPackageName L pkg =
     (if HasPrefix pkg ''dappco.re/go/'' then TrimPrefix pkg ''dappco.re/go/'' else PathBase L pkg)"

definition formatCoverage :: "('f, 'o) test_env \<Rightarrow> 'f \<Rightarrow> string" where
  "formatCoverage L cov =
     (let s = percent (floats_of L) cov in
      if at_least (floats_of L) cov 80 then Render L CovHighStyle s
      else if at_least (floats_of L) cov 50 then Render L CovMedStyle s
      else Render L CovLowStyle s)"

definition average :: "('f, 'o) test_env \<Rightarrow> 'f testResults \<Rightarrow> 'f" where
  "average L r = div_int (floats_of L) (totalCov r) (covCount r)"

definition max_name :: "('f, 'o) test_env \<Rightarrow> 'f packageCoverage list \<Rightarrow> nat" where
  "max_name L ps =
     fold (\<lambda>p m. let n = shortenPackageName L (name p) in if m < length n then length n else m) ps 0"

definition pad_to :: "nat \<Rightarrow> string \<Rightarrow> string" where
  "pad_to maxLen s =
     (let padLen = int maxLen - int (length s) + 2
      in repeatString '' '' (if padLen < 0 then 2 else padLen))"

definition package_line :: "('f, 'o) test_env \<Rightarrow> nat \<Rightarrow> 'f packageCoverage \<Rightarrow> out" where
  "package_line L maxLen p =
     (let s = shortenPackageName L (name p)
      in Println (''    '' @ s @ pad_to maxLen s @ formatCoverage L (coverage p)))"

definition printCoverageSummary :: "('f, 'o) test_env \<Rightarrow> 'f testResults \<Rightarrow> out list" where
  "printCoverageSummary L r =
     (if packages r = [] then []
      else
        let ps = SortByName L (packages r);
            maxLen = max_name L ps;
            avgLabel = T L ''cmd.test.label.average'' []
        in [Println '''', Println (''  '' @ Render L HeaderStyle (T L ''cmd.test.coverage_by_package'' []))] @
           map (package_line L maxLen) (filter hasCov ps) @
           (if covCount r > 0
            then [Println '''', Println (''    '' @ Render L HeaderStyle avgLabel @ pad_to maxLen avgLabel @
                    formatCoverage L (average L r))]
            else []))"

definition printTestSummary :: "('f, 'o) test_env \<Rightarrow> 'f testResults \<Rightarrow> bool \<Rightarrow> out list" where
  "printTestSummary L r showCoverage =
     (let total = passed r + failed r in
      (if total > 0
       then [Println (''  '' @ Render L PassStyle tick_mark @ '' '' @
               T L ''i18n.count.passed'' [IntArg (int (passed r))] @
               (if failed r > 0
                then ''  '' @ Render L FailStyle cross_mark @ '' '' @
                  T L ''i18n.count.failed'' [IntArg (int (failed r))] else '''') @
               (if skipped r > 0
                then ''  '' @ Render L SkipStyle circle_mark @ '' '' @
                  T L ''i18n.count.skipped'' [IntArg (int (skipped r))] else ''''))]
       else [])) @
     (if failedPkgs r \<noteq> []
      then [Println '''', Println (''  '' @ T L ''cmd.test.failed_packages'' [])] @
        map (\<lambda>pkg. Println (''    '' @ Render L FailStyle cross_mark @ '' '' @ pkg)) (failedPkgs r)
      else []) @
     (if showCoverage then printCoverageSummary L r
      else if covCount r > 0
      then [Println '''', Println (''  '' @ Label L ''coverage'' @ '' '' @ formatCoverage L (average L r))]
      else [])"

definition results_json :: "('f, 'o) test_env \<Rightarrow> 'f testResults \<Rightarrow> int \<Rightarrow> json" where
  "results_json L r exitCode =
     (let F = floats_of L; cov = (if covCount r > 0 then average L r else zero F) in
      JObj ([(''passed'', JInt (int (passed r))), (''failed'', JInt (int (failed r))),
             (''skipped'', JInt (int (skipped r)))] @
            (if is_zero F cov then [] else [(''coverage'', number F cov)]) @
            [(''exit_code'', JInt exitCode), (''failed_packages'', encode_strings (failedPkgs r))]))"

definition printJSONResults :: "('f, 'o) test_env \<Rightarrow> 'f testResults \<Rightarrow> int \<Rightarrow> out list" where
  "printJSONResults L r exitCode = [Println (JSONMarshalString L (results_json L r exitCode))]"

section \<open>Running\<close>

definition getMacOSDeploymentTarget :: "('f, 'o) test_env \<Rightarrow> string" where
  "getMacOSDeploymentTarget L =
     (if GOOS L = ''darwin'' then ''MACOSX_DEPLOYMENT_TARGET=26.0'' else '''')"

definition test_args :: "bool \<Rightarrow> bool \<Rightarrow> string \<Rightarrow> string \<Rightarrow> bool \<Rightarrow> string list" where
  "test_args verbose short pkg run race =
     [''test''] @ (if verbose then [''-v''] else []) @ (if short then [''-short''] else []) @
     (if run \<noteq> '''' then [''-run'', run] else []) @ (if race then [''-race''] else []) @
     [''-cover'', pkg]"

definition test_header :: "('f, 'o) test_env \<Rightarrow> string \<Rightarrow> string \<Rightarrow> out list" where
  "test_header L pkg run =
     [Println (Render L HeaderStyle (Label L ''test'') @ '' '' @ ProgressSubject L ''run'' ''tests''),
      Println (''  '' @ Label L ''package'' @ '' '' @ Render L DimStyle pkg)] @
     (if run \<noteq> '''' then [Println (''  '' @ Label L ''filter'' @ ''  '' @ Render L DimStyle run)] else []) @
     [Println '''']"

definition test_failure :: "('f, 'o) test_env \<Rightarrow> err option \<Rightarrow> unit res" where
  "test_failure L cause = Inl (E ''cmd.test'' (T L ''i18n.fail.run'' [StrArg ''tests'']) cause)"

text \<open>The report on a process that ran, with its exit code and error.\<close>

definition report ::
  "('f, 'o) test_env \<Rightarrow> bool \<Rightarrow> bool \<Rightarrow> bool \<Rightarrow> string \<Rightarrow> int \<Rightarrow> err option \<Rightarrow> unit res \<times> out list" where
  "report L verbose showCoverage jsonOutput combined exitCode waitErr =
     (let results = parseTestOutput (floats_of L) combined in
      if jsonOutput then
        (if exitCode \<noteq> 0 then test_failure L None else Inr (), printJSONResults L results exitCode)
      else
        let body =
          (if \<not> verbose then printTestSummary L results showCoverage
           else if showCoverage then
             (if combined \<noteq> '''' then [Println combined] else []) @ [Println ''''] @
             printCoverageSummary L results
           else if combined \<noteq> '''' then [Println combined] else [])
        in if exitCode \<noteq> 0
           then (test_failure L waitErr,
             body @ [Println '''', Println (Render L FailStyle (T L ''cli.fail'' []) @ '' '' @
               T L ''cmd.test.tests_failed'' [])])
           else (Inr (), body @ [Println '''', Println (Render L PassStyle (T L ''cli.pass'' []) @ '' '' @
               T L ''common.result.all_passed'' [])]))"

definition runTest ::
  "('f, 'o) test_env \<Rightarrow> bool \<Rightarrow> bool \<Rightarrow> bool \<Rightarrow> string \<Rightarrow> string \<Rightarrow> bool \<Rightarrow> bool \<Rightarrow> unit res \<times> out list" where
  "runTest L verbose showCoverage short pkg run race jsonOutput =
     (if \<not> has_go_mod L then (Inl (E ''cmd.test'' (T L ''cmd.test.error.no_go_mod'' []) None), [])
      else
        let pkg = (if pkg = '''' then ''./...'' else pkg);
            header = (if jsonOutput then [] else test_header L pkg run);
            dir = (if DIR_CWD L \<noteq> '''' then Some (DIR_CWD L) else None);
            target = getMacOSDeploymentTarget L;
            (stdout, stderr, end) =
              run_go L (test_args verbose short pkg run race) dir
                (if target \<noteq> '''' then Some target else None);
            live = (if verbose \<and> \<not> jsonOutput then [Streamed stdout stderr] else []);
            combined = filterLinkerWarnings (stdout @ stderr)
        in case end of
             RunError e \<Rightarrow> (test_failure L (Some e), header @ live)
           | ExitError code e \<Rightarrow>
               if combined = '''' then (test_failure L (Some e), header @ live)
               else (case report L verbose showCoverage jsonOutput combined (if code < 0 then 1 else code) (Some e) of
                       (r, ls) \<Rightarrow> (r, header @ live @ ls))
           | Finished \<Rightarrow>
               (case report L verbose showCoverage jsonOutput combined 0 None of
                  (r, ls) \<Rightarrow> (r, header @ live @ ls)))"

text \<open>The command: its options go into package variables first.\<close>

record test_flags =
  testVerbose :: bool
  testCoverage :: bool
  testShort :: bool
  testPkg :: string
  testRun :: string
  testRace :: bool
  testJSON :: bool

definition AddTestCommands ::
  "('f, 'o) test_env \<Rightarrow> 'o \<Rightarrow> test_flags \<Rightarrow> (unit res \<times> out list) \<times> test_flags" where
  "AddTestCommands L opts flags =
     (let flags = flags\<lparr>testVerbose := Bool_opt (opts_of L) opts ''verbose'',
            testCoverage := Bool_opt (opts_of L) opts ''coverage'',
            testShort := Bool_opt (opts_of L) opts ''short'',
            testPkg := String_opt (opts_of L) opts ''pkg'',
            testRun := String_opt (opts_of L) opts ''run'',
            testRace := Bool_opt (opts_of L) opts ''race'',
            testJSON := Bool_opt (opts_of L) opts ''json''\<rparr>
      in (runTest L (testVerbose flags) (testCoverage flags) (testShort flags) (testPkg flags)
            (testRun flags) (testRace flags) (testJSON flags), flags))"

section \<open>What go test prints\<close>

text \<open>
  The lines of \<^verbatim>\<open>go test -cover\<close>: a package that passed, timed or from the cache, with its coverage and,
  where the filter left no test, a note; one that failed, with what follows its name; one without tests;
  a coverage on a line of its own, as a failed package has it, every package with \<^verbatim>\<open>-v\<close>, and since
  Go 1.22, with its name, a package without test files; and any other line.
\<close>

datatype cover = Percent string | NoStatements | NoCover

datatype outcome =
    Passed string "string option" cover bool
  | Failed string string
  | NoTests string
  | Alone "string option" cover
  | Noise string

definition coverage_of :: "string \<Rightarrow> string" where
  "coverage_of v = ''coverage: '' @ v @ ''% of statements''"

fun show_cover :: "cover \<Rightarrow> string" where
  "show_cover (Percent v) = tab @ coverage_of v"
| "show_cover NoStatements = tab @ ''coverage: [no statements]''"
| "show_cover NoCover = ''''"

fun show_time :: "string option \<Rightarrow> string" where
  "show_time (Some d) = d @ ''s''"
| "show_time None = ''(cached)''"

fun show_note :: "bool \<Rightarrow> string" where
  "show_note True = '' [no tests to run]''"
| "show_note False = ''''"

fun show_alone :: "cover \<Rightarrow> string" where
  "show_alone (Percent v) = coverage_of v"
| "show_alone c = ''coverage: [no statements]''"

fun show_line :: "outcome \<Rightarrow> string" where
  "show_line (Passed n t c b) = ''ok  '' @ tab @ n @ tab @ show_time t @ show_cover c @ show_note b"
| "show_line (Failed n rest) = ''FAIL'' @ tab @ n @ rest"
| "show_line (NoTests n) = ''?   '' @ tab @ n @ tab @ ''[no test files]''"
| "show_line (Alone None c) = show_alone c"
| "show_line (Alone (Some n) c) = tab @ n @ tab @ tab @ show_alone c"
| "show_line (Noise w) = w"

definition all_in :: "char_class \<Rightarrow> string \<Rightarrow> bool" where
  "all_in k w \<longleftrightarrow> w \<noteq> [] \<and> (\<forall>c\<in>set w. in_class k c)"

definition noise :: "string \<Rightarrow> bool" where
  "noise w \<longleftrightarrow> w = ''FAIL'' \<or>
     \<not> HasPrefix w ''ok'' \<and> \<not> HasPrefix w ''FAIL'' \<and> \<not> HasPrefix w ''?'' \<and> \<not> Contains w ''coverage:''"

fun parts_ok :: "outcome \<Rightarrow> bool" where
  "parts_ok (Passed n t c b) = (all_in NonSpace n \<and> (\<forall>d. t = Some d \<longrightarrow> all_in Numeric d) \<and>
     (\<forall>v. c = Percent v \<longrightarrow> all_in Numeric v))"
| "parts_ok (Failed n rest) = (all_in NonSpace n \<and> (rest = [] \<or> is_space (hd rest)))"
| "parts_ok (NoTests n) = all_in NonSpace n"
| "parts_ok (Alone n c) = ((\<forall>m. n = Some m \<longrightarrow> all_in NonSpace m \<and> \<not> Contains m ''coverage:'') \<and>
     c \<noteq> NoCover \<and> (\<forall>v. c = Percent v \<longrightarrow> all_in Numeric v))"
| "parts_ok (Noise w) = noise w"

definition go_line :: "outcome \<Rightarrow> bool" where
  "go_line r \<longleftrightarrow> parts_ok r \<and> plain_line (show_line r)"

lemma space_tab [simp]: "is_space CHR 0x09" "is_space CHR '' ''"
  by (simp_all add: is_space_def)

lemma first_Many_all_in:
  "all_in k w \<Longrightarrow> s = [] \<or> \<not> in_class k (hd s) \<Longrightarrow> first (Many k) (w @ s) = Some (w, s, [])"
  by (simp add: all_in_def first_Many)

lemma hd_all_in: "all_in k w \<Longrightarrow> in_class k (hd (w @ s))"
  by (cases w) (auto simp: all_in_def)

text \<open>A pattern's parts one after the other: spaces before a name, a name before a space.\<close>

lemma first_spaces:
  assumes "\<forall>c\<in>set w. is_space c" and "w \<noteq> []" and "s = [] \<or> \<not> is_space (hd s)"
  shows "first (Many Space) (w @ s) = Some (w, s, [])"
  using assms by (intro first_Many_all_in) (auto simp: all_in_def)

lemma first_name:
  "all_in NonSpace n \<Longrightarrow> s = [] \<or> is_space (hd s) \<Longrightarrow>
    first (Group i (Many NonSpace)) (n @ s) = Some (n, s, [(i, n)])"
  by (intro first_Group first_Many_all_in) auto

lemma first_number:
  "all_in Numeric v \<Longrightarrow> s = [] \<or> \<not> in_class Numeric (hd s) \<Longrightarrow>
    first (Group i (Many Numeric)) (v @ s) = Some (v, s, [(i, v)])"
  by (intro first_Group first_Many_all_in) auto

lemma name_not_space: "all_in NonSpace n \<Longrightarrow> n @ s = [] \<or> \<not> is_space (hd (n @ s))"
  using hd_all_in [of NonSpace n s] by simp

lemma number_not_space: "all_in Numeric v \<Longrightarrow> v @ s = [] \<or> \<not> is_space (hd (v @ s))"
  using hd_all_in [of Numeric v s] by (auto simp: is_space_def)

lemma first_coverage:
  assumes "all_in Numeric v"
  shows "first (sequence [Lit ''coverage:'', Many Space, Group i (Many Numeric), Lit ''%''])
      (coverage_of v @ s) = Some (''coverage: '' @ v @ ''%'', '' of statements'' @ s, [(i, v)])"
proof -
  let ?s = "''% of statements'' @ s"
  have l: "first (Lit ''coverage:'') (coverage_of v @ s) = Some (''coverage:'', '' '' @ v @ ?s, [])"
    using first_Lit [of "''coverage:''" "'' '' @ v @ ?s"] by (simp add: coverage_of_def)
  have b: "first (Many Space) ('' '' @ v @ ?s) = Some ('' '', v @ ?s, [])"
    by (rule first_spaces) (use number_not_space [OF assms] in auto)
  have n: "first (Group i (Many Numeric)) (v @ ?s) = Some (v, ?s, [(i, v)])"
    by (rule first_number [OF assms]) simp
  have p: "first (Lit ''%'') ?s = Some (''%'', '' of statements'' @ s, [])"
    using first_Lit [of "''%''" "'' of statements'' @ s"] by simp
  show ?thesis
    using first_Cat [OF l first_Cat [OF b first_Cat [OF n p]]] by simp
qed

definition ok_groups :: "string \<Rightarrow> cover \<Rightarrow> (nat \<times> string) list" where
  "ok_groups n c = (1, n) # (case c of Percent v \<Rightarrow> [(2, v)] | _ \<Rightarrow> [])"

lemma first_time:
  assumes "\<forall>d. t = Some d \<longrightarrow> all_in Numeric d"
  shows "first (Alt (Cat (Many Numeric) (Lit ''s'')) (Lit ''(cached)'')) (show_time t @ s)
    = Some (show_time t, s, [])"
proof (cases t)
  case None
  then show ?thesis
    using first_Lit [of "''(cached)''" s] by (simp add: first_Alt_right del: runs.simps(1))
next
  case (Some d)
  have "first (Many Numeric) (d @ ''s'' @ s) = Some (d, ''s'' @ s, [])"
    by (rule first_Many_all_in) (use assms Some in auto)
  from first_Cat [OF this first_Lit] show ?thesis
    using Some by (auto intro!: first_Alt_left)
qed

lemma first_cover:
  assumes "\<forall>v. c = Percent v \<longrightarrow> all_in Numeric v"
  shows "\<exists>x t. first (Opt (sequence [Many Space, Lit ''coverage:'', Many Space, Group 2 (Many Numeric), Lit ''%'']))
    (show_cover c @ show_note b) = Some (x, t, case c of Percent v \<Rightarrow> [(2, v)] | _ \<Rightarrow> [])"
proof (cases c)
  case (Percent v)
  have "first (Many Space) (tab @ coverage_of v @ show_note b) = Some (tab, coverage_of v @ show_note b, [])"
    by (rule first_spaces) (simp_all add: tab_def coverage_of_def is_space_def)
  from first_Cat [OF this first_coverage] Percent assms show ?thesis
    by (auto dest: first_Opt)
qed (cases b; auto simp: first_def tab_def is_space_def HasPrefix_def)+

lemma match_ok:
  assumes "parts_ok (Passed n t c b)"
  shows "match_head okPattern (show_line (Passed n t c b)) = Some (ok_groups n c)"
proof -
  let ?b = "show_cover c @ show_note b" and ?a = "show_time t @ show_cover c @ show_note b"
  obtain x r where c: "first (Opt (sequence [Many Space, Lit ''coverage:'', Many Space, Group 2 (Many Numeric), Lit ''%'']))
      ?b = Some (x, r, case c of Percent v \<Rightarrow> [(2, v)] | _ \<Rightarrow> [])"
    using first_cover assms by fastforce
  have t: "first (Alt (Cat (Many Numeric) (Lit ''s'')) (Lit ''(cached)'')) ?a = Some (show_time t, ?b, [])"
    by (rule first_time) (use assms in auto)
  have "\<not> is_space (hd ?a)"
    using assms number_not_space by (cases t) (auto simp: is_space_def all_in_def)
  then have s2: "first (Many Space) (tab @ ?a) = Some (tab, ?a, [])"
    by (intro first_spaces) (simp_all add: tab_def)
  have n: "first (Group 1 (Many NonSpace)) (n @ tab @ ?a) = Some (n, tab @ ?a, [(1, n)])"
    by (rule first_name) (use assms in \<open>simp_all add: tab_def\<close>)
  have s1: "first (Many Space) ((''  '' @ tab) @ n @ tab @ ?a) = Some (''  '' @ tab, n @ tab @ ?a, [])"
    by (rule first_spaces) (use assms name_not_space in \<open>auto simp: tab_def\<close>)
  have l: "first (Lit ''ok'') (''ok'' @ (''  '' @ tab) @ n @ tab @ ?a) =
      Some (''ok'', (''  '' @ tab) @ n @ tab @ ?a, [])"
    by (rule first_Lit)
  from first_Cat [OF l first_Cat [OF s1 first_Cat [OF n first_Cat [OF s2 first_Cat [OF t c]]]]]
  show ?thesis
    by (simp add: match_head_def okPattern_def ok_groups_def)
qed

lemma match_ok_None: "\<not> HasPrefix w ''ok'' \<Longrightarrow> match_head okPattern w = None"
  by (simp add: okPattern_def match_head_None)

lemma match_fail_None: "\<not> HasPrefix w ''FAIL'' \<Longrightarrow> match_head failPattern w = None"
  by (simp add: failPattern_def match_head_None)

lemma match_skip_None: "\<not> HasPrefix w ''?'' \<Longrightarrow> match_head skipPattern w = None"
  by (simp add: skipPattern_def match_head_None)

lemma match_fail:
  assumes "parts_ok (Failed n rest)"
  shows "match_head failPattern (show_line (Failed n rest)) = Some [(1, n)]"
proof -
  have n: "first (Group 1 (Many NonSpace)) (n @ rest) = Some (n, rest, [(1, n)])"
    by (rule first_name) (use assms in auto)
  have s: "first (Many Space) (tab @ n @ rest) = Some (tab, n @ rest, [])"
    by (rule first_spaces) (use assms name_not_space in \<open>auto simp: tab_def\<close>)
  from first_Cat [OF first_Lit [of "''FAIL''"] first_Cat [OF s n]] show ?thesis
    by (simp add: match_head_def failPattern_def)
qed

lemma match_skip:
  assumes "parts_ok (NoTests n)"
  shows "match_head skipPattern (show_line (NoTests n)) = Some [(1, n)]"
proof -
  let ?a = "''[no test files]''"
  have s2: "first (Many Space) (tab @ ?a) = Some (tab, ?a, [])"
    by (intro first_spaces) (simp_all add: tab_def is_space_def)
  have n: "first (Group 1 (Many NonSpace)) (n @ tab @ ?a) = Some (n, tab @ ?a, [(1, n)])"
    by (rule first_name) (use assms in \<open>simp_all add: tab_def\<close>)
  have s1: "first (Many Space) ((''   '' @ tab) @ n @ tab @ ?a) = Some (''   '' @ tab, n @ tab @ ?a, [])"
    by (rule first_spaces) (use assms name_not_space in \<open>auto simp: tab_def\<close>)
  have l: "first (Lit ''?'') (''?'' @ (''   '' @ tab) @ n @ tab @ ?a) =
      Some (''?'', (''   '' @ tab) @ n @ tab @ ?a, [])"
    by (rule first_Lit)
  have f: "first (Lit ?a) ?a = Some (?a, [], [])"
    using first_Lit [of ?a "[]"] by simp
  from first_Cat [OF l first_Cat [OF s1 first_Cat [OF n first_Cat [OF s2 f]]]]
  show ?thesis
    by (simp add: match_head_def skipPattern_def)
qed

lemma coverPattern_Lit:
  "coverPattern = Cat (Lit ''coverage:'') (sequence [Many Space, Group 1 (Many Numeric), Lit ''%''])"
  by (simp add: coverPattern_def)

lemma match_coverage:
  assumes "all_in Numeric v"
  shows "match_in coverPattern (coverage_of v) = Some [(1, v)]"
  using first_coverage [OF assms, of 1 "[]"] by (simp add: match_in_head match_head_def coverPattern_def)

lemma match_no_statements: "match_in coverPattern ''coverage: [no statements]'' = None"
  by (simp add: coverPattern_def match_head_def first_def HasPrefix_def is_space_def)

lemma match_alone:
  assumes "parts_ok (Alone n c)"
  shows "match_in coverPattern (show_line (Alone n c)) = (case c of Percent v \<Rightarrow> Some [(1, v)] | _ \<Rightarrow> None)"
proof -
  have c: "match_in coverPattern (show_alone c) = (case c of Percent v \<Rightarrow> Some [(1, v)] | _ \<Rightarrow> None)"
    using assms match_coverage match_no_statements by (cases c) auto
  show ?thesis
  proof (cases n)
    case None
    with c show ?thesis by simp
  next
    case (Some m)
    let ?t = "CHR 0x09"
    have skip: "match_in coverPattern (x @ ?t # s) = match_in coverPattern s" if "\<not> Contains x ''coverage:''" for x s
      unfolding coverPattern_Lit by (rule match_in_skip [OF that]) simp_all
    show ?thesis
      using c skip [of "''''" "m @ ?t # ?t # show_alone c"] skip [of m "?t # show_alone c"]
        skip [of "''''" "show_alone c"] assms Some by (simp add: tab_def)
  qed
qed

lemma match_alone_None:
  "match_head okPattern (show_line (Alone n c)) = None" "match_head failPattern (show_line (Alone n c)) = None"
  "match_head skipPattern (show_line (Alone n c)) = None"
proof -
  have "\<not> HasPrefix (show_line (Alone n c)) p" if "p \<in> {''ok'', ''FAIL'', ''?''}" for p
    using that by (cases n; cases c) (auto simp: HasPrefix_def tab_def coverage_of_def)
  then show "match_head okPattern (show_line (Alone n c)) = None" "match_head failPattern (show_line (Alone n c)) = None"
    "match_head skipPattern (show_line (Alone n c)) = None"
    by (auto intro!: match_ok_None match_fail_None match_skip_None)
qed

text \<open>
  What a report says, read off the outcomes from the front.  A package that passed without a coverage
  of its own waits for a positive one on a line of its own; of several that wait the latest gets it.
  \<open>credit F k rs\<close> is what the lines \<open>rs\<close> give to a package that waits behind \<open>k\<close> later ones.
\<close>

definition given :: "'f floats \<Rightarrow> cover \<Rightarrow> 'f option" where
  "given F c =
     (case c of Percent v \<Rightarrow> if positive F (ParseFloat F v) then Some (ParseFloat F v) else None | _ \<Rightarrow> None)"

fun credit :: "'f floats \<Rightarrow> nat \<Rightarrow> outcome list \<Rightarrow> 'f option" where
  "credit F k [] = None"
| "credit F k (Passed n t (Percent v) b # rs) = credit F k rs"
| "credit F k (Passed n t c b # rs) = credit F (Suc k) rs"
| "credit F k (Alone n c # rs) =
     (case given F c of
        None \<Rightarrow> credit F k rs
      | Some f \<Rightarrow> (case k of 0 \<Rightarrow> Some f | Suc j \<Rightarrow> credit F j rs))"
| "credit F k (r # rs) = credit F k rs"

definition covered_by :: "'f option \<Rightarrow> 'f packageCoverage \<Rightarrow> 'f packageCoverage" where
  "covered_by x p = (case x of None \<Rightarrow> p | Some f \<Rightarrow> p\<lparr>coverage := f, hasCov := True\<rparr>)"

fun pkg_of :: "'f floats \<Rightarrow> string \<Rightarrow> cover \<Rightarrow> 'f packageCoverage" where
  "pkg_of F n (Percent v) = \<lparr>name = n, coverage = ParseFloat F v, hasCov = True\<rparr>"
| "pkg_of F n c = \<lparr>name = n, coverage = zero F, hasCov = False\<rparr>"

fun passed_of :: "'f floats \<Rightarrow> outcome list \<Rightarrow> 'f packageCoverage list" where
  "passed_of F [] = []"
| "passed_of F (Passed n t (Percent v) b # rs) = pkg_of F n (Percent v) # passed_of F rs"
| "passed_of F (Passed n t c b # rs) = covered_by (credit F 0 rs) (pkg_of F n c) # passed_of F rs"
| "passed_of F (r # rs) = passed_of F rs"

definition failed_of :: "outcome list \<Rightarrow> string list" where
  "failed_of rs = concat (map (\<lambda>r. case r of Failed n _ \<Rightarrow> [n] | _ \<Rightarrow> []) rs)"

definition untested_of :: "outcome list \<Rightarrow> string list" where
  "untested_of rs = concat (map (\<lambda>r. case r of NoTests n \<Rightarrow> [n] | _ \<Rightarrow> []) rs)"

text \<open>The coverages in the order of their lines, \<open>k\<close> packages waiting before the first.\<close>

fun covered_of :: "'f floats \<Rightarrow> nat \<Rightarrow> outcome list \<Rightarrow> 'f list" where
  "covered_of F k [] = []"
| "covered_of F k (Passed n t (Percent v) b # rs) = ParseFloat F v # covered_of F k rs"
| "covered_of F k (Passed n t c b # rs) = covered_of F (Suc k) rs"
| "covered_of F k (Alone n c # rs) =
     (case (given F c, k) of (Some f, Suc j) \<Rightarrow> f # covered_of F j rs | _ \<Rightarrow> covered_of F k rs)"
| "covered_of F k (r # rs) = covered_of F k rs"

definition summary :: "'f floats \<Rightarrow> outcome list \<Rightarrow> 'f testResults" where
  "summary F rs =
     \<lparr>packages = passed_of F rs, passed = length (passed_of F rs), failed = length (failed_of rs),
      skipped = length (untested_of rs), totalCov = foldl (add F) (zero F) (covered_of F 0 rs),
      covCount = length (filter hasCov (passed_of F rs)), failedPkgs = failed_of rs\<rparr>"

lemmas summary_defs = summary_def failed_of_def untested_of_def

lemma parse_line_noise: "noise w \<Longrightarrow> parse_line F w r = r"
proof (cases "w = ''FAIL''")
  case True
  have "match_head failPattern ''FAIL'' = None" "match_in coverPattern ''FAIL'' = None"
    by (simp_all add: failPattern_def coverPattern_def match_head_def first_def)
  then show ?thesis
    using True by (simp add: parse_line_def match_ok_None match_skip_None)
next
  case False
  moreover assume "noise w"
  ultimately show ?thesis
    by (simp add: noise_def parse_line_def match_ok_None match_fail_None match_skip_None
      coverPattern_def match_in_None)
qed

text \<open>One line, from any state of the parser.\<close>

lemma parse_passed:
  assumes "parts_ok (Passed n t c b)"
  shows "parse_line F (show_line (Passed n t c b)) r =
    (case c of
       Percent v \<Rightarrow> r\<lparr>packages := packages r @ [pkg_of F n c], passed := passed r + 1,
         totalCov := add F (totalCov r) (ParseFloat F v), covCount := covCount r + 1\<rparr>
     | _ \<Rightarrow> r\<lparr>packages := packages r @ [pkg_of F n c], passed := passed r + 1\<rparr>)"
proof -
  have "v \<noteq> ''''" if "c = Percent v" for v using assms that by (simp add: all_in_def)
  with match_ok [OF assms] show ?thesis
    by (cases c) (simp_all add: parse_line_def parse_ok_def ok_groups_def submatch_def Let_def
      del: show_line.simps)
qed

lemma parse_alone:
  assumes "parts_ok (Alone n c)"
  shows "parse_line F (show_line (Alone n c)) r =
    (case given F c of
       None \<Rightarrow> r
     | Some f \<Rightarrow>
         (case cover_last f (rev (packages r)) of
            None \<Rightarrow> r
          | Some ps \<Rightarrow> r\<lparr>packages := rev ps, totalCov := add F (totalCov r) f, covCount := covCount r + 1\<rparr>))"
  using match_alone [OF assms]
  by (cases c) (simp_all add: parse_line_def match_alone_None parse_cover_def given_def submatch_def Let_def
    del: show_line.simps)

lemma parse_failed:
  "parts_ok (Failed n rest) \<Longrightarrow> parse_line F (show_line (Failed n rest)) r =
     r\<lparr>failed := failed r + 1, failedPkgs := failedPkgs r @ [n]\<rparr>"
  using match_fail [of n rest] match_ok_None [of "show_line (Failed n rest)"]
  by (simp add: parse_line_def submatch_def)

lemma parse_no_tests:
  "parts_ok (NoTests n) \<Longrightarrow> parse_line F (show_line (NoTests n)) r = r\<lparr>skipped := skipped r + 1\<rparr>"
  using match_skip [of n] match_ok_None [of "show_line (NoTests n)"] match_fail_None [of "show_line (NoTests n)"]
  by (simp add: parse_line_def)

text \<open>
  The packages so far, the latest first, with what the lines to come will give them.
\<close>

fun settled :: "'f floats \<Rightarrow> outcome list \<Rightarrow> nat \<Rightarrow> 'f packageCoverage list \<Rightarrow> 'f packageCoverage list" where
  "settled F rs k [] = []"
| "settled F rs k (p # ps) =
     (if hasCov p then p # settled F rs k ps
      else covered_by (credit F k rs) p # settled F rs (Suc k) ps)"

definition waiting :: "'f packageCoverage list \<Rightarrow> nat" where
  "waiting ps = length (filter (\<lambda>p. \<not> hasCov p) ps)"

lemma settled_cong: "(\<And>k. credit F k rs = credit F k rs') \<Longrightarrow> settled F rs k ps = settled F rs' k ps"
  by (induction ps arbitrary: k) auto

lemma settled_shift: "(\<And>k. credit F k rs = credit F (Suc k) rs') \<Longrightarrow> settled F rs k ps = settled F rs' (Suc k) ps"
  by (induction ps arbitrary: k) auto

lemma settled_back: "(\<And>k. credit F (Suc k) rs = credit F k rs') \<Longrightarrow> settled F rs (Suc k) ps = settled F rs' k ps"
  by (induction ps arbitrary: k) auto

lemma settled_Nil [simp]: "settled F [] k ps = ps"
  by (induction ps arbitrary: k) (auto simp: covered_by_def)

lemma settled_none: "waiting ps = 0 \<Longrightarrow> settled F rs k ps = ps"
  by (induction ps) (auto simp: waiting_def split: if_splits)

lemma cover_last_None: "cover_last f ps = None \<longleftrightarrow> waiting ps = 0"
  by (induction ps) (auto simp: waiting_def)

lemma cover_last_settled:
  assumes "cover_last f ps = Some qs" and "given F c = Some f"
  shows "settled F (Alone n c # rs) 0 ps = settled F rs 0 qs \<and> waiting ps = Suc (waiting qs)"
  using assms(1)
proof (induction ps arbitrary: qs)
  case (Cons p ps)
  show ?case
  proof (cases "hasCov p")
    case True
    with Cons show ?thesis by (auto simp: waiting_def)
  next
    case False
    have "settled F (Alone n c # rs) (Suc 0) ps = settled F rs 0 ps"
      by (rule settled_back) (simp add: assms(2))
    with False Cons.prems show ?thesis by (auto simp: waiting_def covered_by_def assms(2))
  qed
qed simp

lemma waiting_rev [simp]: "waiting (rev ps) = waiting ps"
  by (simp add: waiting_def rev_filter [symmetric])

lemma waiting_append: "waiting (ps @ qs) = waiting ps + waiting qs"
  by (simp add: waiting_def)

text \<open>A run of the parser over the lines, from any state.\<close>

lemma fold_parse_from:
  assumes "\<forall>r\<in>set rs. parts_ok r"
  shows "fold (parse_line F) (map show_line rs) st =
    st\<lparr>packages := rev (settled F rs 0 (rev (packages st))) @ passed_of F rs,
       passed := passed st + length (passed_of F rs),
       failed := failed st + length (failed_of rs), skipped := skipped st + length (untested_of rs),
       totalCov := foldl (add F) (totalCov st) (covered_of F (waiting (packages st)) rs),
       covCount := covCount st + length (covered_of F (waiting (packages st)) rs),
       failedPkgs := failedPkgs st @ failed_of rs\<rparr>"
  using assms
proof (induction rs arbitrary: st)
  case Nil
  then show ?case by (simp add: failed_of_def untested_of_def)
next
  case (Cons r rs)
  then have p: "parts_ok r" and rs: "\<forall>r\<in>set rs. parts_ok r" by simp_all
  note IH = Cons.IH [OF rs]
  show ?case
  proof (cases r)
    case (Passed n t c b)
    note l = parse_passed [OF p [unfolded Passed], of F st]
    show ?thesis
    proof (cases "\<exists>v. c = Percent v")
      case True
      then obtain v where v: "c = Percent v" by blast
      have "settled F (r # rs) 0 ps = settled F rs 0 ps" for ps
        by (rule settled_cong) (simp add: Passed v)
      then show ?thesis
        using l by (simp add: Passed v IH waiting_append failed_of_def untested_of_def
          del: show_line.simps) (simp add: waiting_def)
    next
      case False
      have "settled F (r # rs) 0 ps = settled F rs (Suc 0) ps" for ps
        by (rule settled_shift) (use False Passed in \<open>cases c; simp\<close>)
      then show ?thesis
        using l False by (cases c) (simp_all add: Passed IH waiting_append waiting_def failed_of_def untested_of_def
          del: show_line.simps)
    qed
  next
    case (Failed n rest)
    have "settled F (r # rs) 0 ps = settled F rs 0 ps" for ps by (rule settled_cong) (simp add: Failed)
    then show ?thesis
      using parse_failed [OF p [unfolded Failed], of F st]
      by (simp add: Failed IH failed_of_def untested_of_def del: show_line.simps)
  next
    case (NoTests n)
    have "settled F (r # rs) 0 ps = settled F rs 0 ps" for ps by (rule settled_cong) (simp add: NoTests)
    then show ?thesis
      using parse_no_tests [OF p [unfolded NoTests], of F st]
      by (simp add: NoTests IH failed_of_def untested_of_def del: show_line.simps)
  next
    case (Alone n c)
    note l = parse_alone [OF p [unfolded Alone], of F st]
    show ?thesis
    proof (cases "given F c")
      case None
      have "settled F (r # rs) 0 ps = settled F rs 0 ps" for ps
        by (rule settled_cong) (simp add: Alone None)
      with None l show ?thesis
        by (simp add: Alone IH failed_of_def untested_of_def del: show_line.simps)
    next
      case (Some f)
      show ?thesis
      proof (cases "cover_last f (rev (packages st))")
        case None
        then have "waiting (packages st) = 0" by (simp add: cover_last_None)
        with None Some l show ?thesis
          by (simp add: Alone IH settled_none failed_of_def untested_of_def del: show_line.simps)
      next
        case (Some qs)
        note q = cover_last_settled [OF Some \<open>given F c = Some f\<close>, of n rs]
        show ?thesis
          using q Some \<open>given F c = Some f\<close> l
          by (simp add: Alone IH failed_of_def untested_of_def del: show_line.simps)
      qed
    qed
  next
    case (Noise w)
    have "settled F (r # rs) 0 ps = settled F rs 0 ps" for ps by (rule settled_cong) (simp add: Noise)
    then show ?thesis
      using p by (simp add: Noise IH parse_line_noise failed_of_def untested_of_def)
  qed
qed

text \<open>The count of coverages is the number of the packages that have one, for any text.\<close>

definition counted :: "'f testResults \<Rightarrow> bool" where
  "counted r \<longleftrightarrow> covCount r = length (filter hasCov (packages r))"

lemma cover_last_counts: "cover_last f ps = Some qs \<Longrightarrow> length (filter hasCov qs) = Suc (length (filter hasCov ps))"
  by (induction ps arbitrary: qs) (auto split: if_splits)

lemma parse_line_counted:
  assumes "counted r"
  shows "counted (parse_line F l r)"
proof -
  have "counted (parse_ok F g r)" for g
    using assms by (simp add: parse_ok_def counted_def Let_def)
  moreover have "counted (parse_cover F g r)" for g
    using assms cover_last_counts [of _ "rev (packages r)"]
    by (auto simp: parse_cover_def counted_def Let_def rev_filter [symmetric] split: option.splits)
  ultimately show ?thesis
    using assms by (auto simp: parse_line_def counted_def split: option.splits)
qed

lemma fold_parse_counted: "counted r \<Longrightarrow> counted (fold (parse_line F) ls r)"
  by (induction ls arbitrary: r) (simp_all add: parse_line_counted)

lemma fold_parse:
  assumes "\<forall>r\<in>set rs. go_line r"
  shows "fold (parse_line F) (map show_line rs) (empty_results F) = summary F rs"
proof -
  have "counted (empty_results F)" by (simp add: counted_def empty_results_def)
  from fold_parse_counted [OF this, of F "map show_line rs"]
  show ?thesis
    using fold_parse_from [of rs F "empty_results F"] assms
    by (simp add: go_line_def empty_results_def waiting_def summary_def counted_def)
qed

lemma go_lines_scan: "\<forall>r\<in>set rs. go_line r \<Longrightarrow> scan_lines (unlines (map show_line rs) @ s) = map show_line rs @ scan_lines s"
  by (rule scan_unlines) (simp add: go_line_def)

section \<open>Properties\<close>


text \<open>
  A line of 65536 characters or more hides the rest of the output from the parser and from the
  filter: the scan stops there without a trace, and what failed after it is not reported.
\<close>

theorem long_line_hides_the_rest:
  assumes "\<forall>r\<in>set rs. go_line r" and "newline \<notin> set l" and "MaxScanTokenSize \<le> length l"
  shows "parseTestOutput F (unlines (map show_line rs) @ l @ [newline] @ s) = summary F rs \<and>
    filterLinkerWarnings (unlines (map show_line rs) @ l @ [newline] @ s) =
      filterLinkerWarnings (unlines (map show_line rs))"
proof -
  have "takeWhile (\<lambda>c. c \<noteq> newline) (l @ [newline] @ s) = l"
    using assms(2) by (auto simp: takeWhile_append)
  then have "scan_lines (unlines (map show_line rs) @ l @ [newline] @ s) = scan_lines (unlines (map show_line rs))"
    using go_lines_scan [OF assms(1), of "l @ [newline] @ s"] go_lines_scan [OF assms(1), of "[]"]
      scan_stops assms(3) by simp
  then show ?thesis
    using go_lines_scan [OF assms(1), of "[]"] fold_parse [OF assms(1)]
    by (simp add: parseTestOutput_def filterLinkerWarnings_def)
qed

text \<open>
  With \<^verbatim>\<open>-v\<close> a package's coverage has a line of its own before the line of the package.  It goes to the
  package before, when that one has no coverage, and counts twice in the average.
\<close>

theorem verbose_coverage_is_counted_twice:
  assumes "go_line (Passed a t NoStatements False)" and "go_line (Passed b u (Percent v) False)"
    and "positive F (ParseFloat F v)"
  shows "parseTestOutput F (unlines [show_line (Passed a t NoStatements False), coverage_of v,
      show_line (Passed b u (Percent v) False)]) =
    (let cov = ParseFloat F v in
     \<lparr>packages = [\<lparr>name = a, coverage = cov, hasCov = True\<rparr>, \<lparr>name = b, coverage = cov, hasCov = True\<rparr>],
      passed = 2, failed = 0, skipped = 0, totalCov = add F (add F (zero F) cov) cov, covCount = 2,
      failedPkgs = []\<rparr>)"
proof -
  let ?rs = "[Passed a t NoStatements False, Alone None (Percent v), Passed b u (Percent v) False]"
  have "plain_line (coverage_of v)"
    using assms(2) by (auto simp: go_line_def plain_line_def coverage_of_def dropCR_def)
  with assms(1,2) have ok: "\<forall>r\<in>set ?rs. go_line r" by (auto simp: go_line_def)
  show ?thesis
    using go_lines_scan [OF ok, of "[]"] fold_parse [OF ok, of F] assms(3)
    by (simp add: parseTestOutput_def summary_defs given_def covered_by_def Let_def)
qed

text \<open>How the process ended, as an exit code; \<open>None\<close> when it did not run.\<close>

fun exit_of :: "proc_end \<Rightarrow> int option" where
  "exit_of Finished = Some 0"
| "exit_of (ExitError code e) = Some (if code < 0 then 1 else code)"
| "exit_of (RunError e) = None"

text \<open>The run of \<^verbatim>\<open>go test\<close> that \<^verbatim>\<open>runTest\<close> makes.\<close>

definition go_test ::
  "('f, 'o) test_env \<Rightarrow> bool \<Rightarrow> bool \<Rightarrow> string \<Rightarrow> string \<Rightarrow> bool \<Rightarrow> string \<times> string \<times> proc_end" where
  "go_test L verbose short pkg run race =
     run_go L (test_args verbose short (if pkg = '''' then ''./...'' else pkg) run race)
       (if DIR_CWD L \<noteq> '''' then Some (DIR_CWD L) else None)
       (if getMacOSDeploymentTarget L \<noteq> '''' then Some (getMacOSDeploymentTarget L) else None)"

lemma runTest_go_test:
  "has_go_mod L \<Longrightarrow> go_test L verbose short pkg run race = (stdout, stderr, e) \<Longrightarrow>
    runTest L verbose showCoverage short pkg run race jsonOutput =
     (let header = (if jsonOutput then [] else test_header L (if pkg = '''' then ''./...'' else pkg) run);
          live = (if verbose \<and> \<not> jsonOutput then [Streamed stdout stderr] else []);
          combined = filterLinkerWarnings (stdout @ stderr)
      in case e of
           RunError e \<Rightarrow> (test_failure L (Some e), header @ live)
         | ExitError code e \<Rightarrow>
             if combined = '''' then (test_failure L (Some e), header @ live)
             else (case report L verbose showCoverage jsonOutput combined (if code < 0 then 1 else code) (Some e) of
                     (r, ls) \<Rightarrow> (r, header @ live @ ls))
         | Finished \<Rightarrow>
             (case report L verbose showCoverage jsonOutput combined 0 None of
                (r, ls) \<Rightarrow> (r, header @ live @ ls)))"
  by (simp add: runTest_def go_test_def Let_def)

lemma fst_report: "fst (report L v c j t n e) = Inr () \<longleftrightarrow> n = 0"
  by (simp add: report_def test_failure_def Let_def)

lemma scan_single:
  assumes "plain_line l" and "l \<noteq> []"
  shows "scan_lines l = [l]"
proof -
  have "takeWhile (\<lambda>c. c \<noteq> newline) l = l" and d: "dropWhile (\<lambda>c. c \<noteq> newline) l = []"
    using assms(1) by (auto simp: plain_line_def)
  then show ?thesis
    using assms by (subst scan_lines.simps) (simp only: Let_def d, simp add: plain_line_def)
qed

lemma scan_Join: "\<forall>l\<in>set ls. plain_line l \<and> l \<noteq> [] \<Longrightarrow> scan_lines (Join [newline] ls) = ls"
  by (induction "[newline]" ls rule: Join.induct) (auto simp: scan_single plain_line_def scan_lines_Cons)

lemma kept_failed: "kept_line (show_line (Failed n rest))"
  by (simp add: kept_line_def)

lemma failed_of_member: "failed_of rs \<noteq> [] \<Longrightarrow> \<exists>n rest. Failed n rest \<in> set rs"
proof (induction rs)
  case (Cons r rs)
  then show ?case by (cases r) (auto simp: failed_of_def)
qed (simp add: failed_of_def)

lemma kept_outcome: "\<not> kept_line (show_line r) \<Longrightarrow> \<exists>w. r = Noise w"
proof (cases r)
  case (Alone n c)
  moreover have "kept_line (show_line (Alone n c))"
    by (cases n; cases c) (simp_all add: kept_line_def coverage_of_def tab_def HasPrefix_def)
  ultimately show "\<not> kept_line (show_line r) \<Longrightarrow> \<exists>w. r = Noise w" by simp
qed (auto simp: kept_line_def)

text \<open>Dropping the lines of the linker changes nothing of what the parser counts.\<close>

abbreviation kept :: "outcome list \<Rightarrow> outcome list" where
  "kept rs \<equiv> filter (\<lambda>r. kept_line (show_line r)) rs"

lemma kept_shown:
  "kept_line (show_line (Passed n t c b))" "kept_line (show_line (Failed n rest))"
  "kept_line (show_line (NoTests n))" "kept_line (show_line (Alone m c))"
  using kept_outcome by blast+

lemma credit_kept: "credit F k (kept rs) = credit F k rs"
proof (induction F k rs rule: credit.induct)
qed (auto simp: kept_shown simp del: show_line.simps split: option.split nat.split)

lemma covered_of_kept: "covered_of F k (kept rs) = covered_of F k rs"
proof (induction F k rs rule: covered_of.induct)
qed (auto simp: kept_shown simp del: show_line.simps split: option.split nat.split)

lemma passed_of_kept: "passed_of F (kept rs) = passed_of F rs"
proof (induction F rs rule: passed_of.induct)
qed (auto simp: kept_shown credit_kept simp del: show_line.simps)

lemma summary_filter: "summary F (kept rs) = summary F rs"
proof -
  have "failed_of (kept rs) = failed_of rs \<and> untested_of (kept rs) = untested_of rs"
  proof (induction rs)
    case (Cons r rs)
    then show ?case
      using kept_outcome [of r] by (cases "kept_line (show_line r)")
        (auto simp: failed_of_def untested_of_def simp del: show_line.simps)
  qed simp
  then show ?thesis by (simp add: summary_def covered_of_kept passed_of_kept)
qed

lemma filter_unlines:
  assumes "\<forall>r\<in>set rs. go_line r \<and> show_line r \<noteq> ''''"
  shows "scan_lines (filterLinkerWarnings (unlines (map show_line rs))) =
    map show_line (filter (\<lambda>r. kept_line (show_line r)) rs)"
proof -
  have "scan_lines (unlines (map show_line rs)) = map show_line rs"
    using go_lines_scan [of rs "[]"] assms by simp
  then show ?thesis
    using assms by (simp add: filterLinkerWarnings_def filter_map comp_def scan_Join go_line_def)
qed

text \<open>
  The command succeeds exactly in a Go module whose test process ran and ended with exit code 0,
  having printed something if the system reports that code as an error.
\<close>

theorem test_succeeds_iff:
  "(fst (runTest L verbose showCoverage short pkg run race jsonOutput) = Inr ()) =
   (has_go_mod L \<and>
    (case go_test L verbose short pkg run race of (stdout, stderr, e) \<Rightarrow>
       exit_of e = Some 0 \<and> (e = Finished \<or> filterLinkerWarnings (stdout @ stderr) \<noteq> '''')))"
proof (cases "has_go_mod L")
  case True
  obtain so se e where g: "go_test L verbose short pkg run race = (so, se, e)"
    by (metis prod_cases3)
  show ?thesis
    unfolding runTest_go_test [OF True g] Let_def g
    by (cases e) (simp_all add: True test_failure_def split_def fst_report)
qed (simp add: runTest_def)

text \<open>
  C29.  With \<^verbatim>\<open>--json\<close> the command prints one document, which holds the outcomes of the packages as
  \<^verbatim>\<open>go test\<close> reported them, whatever the linker printed between them, and the exit code.
\<close>

theorem json_reports_the_outcomes:
  assumes "has_go_mod L" and "\<forall>r\<in>set rs. go_line r \<and> show_line r \<noteq> ''''"
    and "go_test L verbose short pkg run race = (unlines (map show_line rs), '''', e)"
    and "exit_of e = Some code" and "e = Finished \<or> failed_of rs \<noteq> []"
  shows "runTest L verbose showCoverage short pkg run race True =
    (if code = 0 then Inr () else test_failure L None,
     [Println (JSONMarshalString L (results_json L (summary (floats_of L) rs) code))])"
proof -
  let ?c = "filterLinkerWarnings (unlines (map show_line rs))"
  have "parseTestOutput (floats_of L) ?c = summary (floats_of L) rs"
    using fold_parse [of "filter (\<lambda>r. kept_line (show_line r)) rs"] assms(2)
    by (simp add: parseTestOutput_def filter_unlines [OF assms(2)] summary_filter)
  then have r: "report L verbose showCoverage True ?c code w =
      (if code = 0 then Inr () else test_failure L None,
       [Println (JSONMarshalString L (results_json L (summary (floats_of L) rs) code))])" for w
    by (simp add: report_def printJSONResults_def)
  have n: "?c \<noteq> ''''" if f: "failed_of rs \<noteq> []"
  proof
    assume "?c = ''''"
    then have "filter (\<lambda>r. kept_line (show_line r)) rs = []"
      using filter_unlines [OF assms(2)] by simp
    moreover obtain n rest where "Failed n rest \<in> set rs" using failed_of_member [OF f] by blast
    ultimately show False using kept_failed [of n rest] unfolding filter_empty_conv by blast
  qed
  show ?thesis
    using assms(4,5) n r by (cases e) (auto simp: runTest_go_test [OF assms(1,3)])
qed

section \<open>Examples\<close>

text \<open>Numbers for the examples: a coverage is the natural number its first digits spell.\<close>

definition demo_floats :: "nat floats" where
  "demo_floats = \<lparr>zero = 0, ParseFloat = length, add = (+), div_int = (div), positive = (\<lambda>n. 0 < n),
     at_least = (\<lambda>n k. k \<le> n), is_zero = (\<lambda>n. n = 0), percent = (\<lambda>n. nat_to_dec n),
     number = (\<lambda>n. JInt (int n))\<rparr>"

definition demo_outcomes :: "outcome list" where
  "demo_outcomes =
     [Passed ''a'' (Some ''0.1'') (Percent ''91.2'') False, Noise ''ld: warning: x'', NoTests ''b'',
      Passed ''c'' None NoStatements True, Alone (Some ''e'') NoStatements, Alone None (Percent ''40.0''),
      Noise ''FAIL'', Failed ''d'' '''', Noise ''FAIL'']"

definition demo_test_env :: "(nat, (string \<times> string) list) test_env" where
  "demo_test_env = \<lparr>floats_of = demo_floats, T = (\<lambda>k _. k), Label = (\<lambda>k. k), ProgressSubject = (\<lambda>a b. a),
     Render = (\<lambda>_ s. s), PathBase = (\<lambda>p. p), SortByName = (\<lambda>ps. ps), JSONMarshalString = (\<lambda>_. ''{}''),
     has_go_mod = True, DIR_CWD = '''', GOOS = ''linux'',
     run_go = (\<lambda>_ _ _. (unlines (map show_line demo_outcomes), '''', ExitError 1 (Ext ''exit status 1''))),
     opts_of = text_options\<rparr>"

lemmas line_defs = go_line_def plain_line_def MaxScanTokenSize_def dropCR_def newline_def tab_def
  all_in_def is_space_def noise_def coverage_of_def

lemma demo_outcomes_ok: "\<forall>r\<in>set demo_outcomes. go_line r \<and> show_line r \<noteq> ''''"
  by (simp add: demo_outcomes_def line_defs HasPrefix_def)


theorem long_line_hides_the_rest_witness:
  "failed (parseTestOutput demo_floats
     (replicate 65536 CHR ''x'' @ [newline] @ show_line (Failed ''d'' '''') @ [newline])) = 0"
  using long_line_hides_the_rest [of "[]" "replicate 65536 CHR ''x''" demo_floats
    "show_line (Failed ''d'' '''') @ [newline]"]
  by (simp add: unlines_def newline_def MaxScanTokenSize_def summary_defs)

theorem verbose_coverage_is_counted_twice_witness:
  "covCount (parseTestOutput demo_floats (unlines [show_line (Passed ''a'' None NoStatements False),
     coverage_of ''80.0'', show_line (Passed ''b'' None (Percent ''80.0'') False)])) = 2"
proof -
  have "go_line (Passed ''a'' None NoStatements False)" "go_line (Passed ''b'' None (Percent ''80.0'') False)"
    by (simp_all add: line_defs)
  moreover have "positive demo_floats (ParseFloat demo_floats ''80.0'')"
    by (simp add: demo_floats_def)
  ultimately show ?thesis
    by (subst verbose_coverage_is_counted_twice) (simp_all add: Let_def)
qed

theorem json_reports_the_outcomes_witness:
  "runTest demo_test_env True False False '''' '''' False True =
     (test_failure demo_test_env None, [Println ''{}''])"
proof -
  have g: "go_test demo_test_env True False '''' '''' False =
      (unlines (map show_line demo_outcomes), '''', ExitError 1 (Ext ''exit status 1''))"
    by (simp add: go_test_def demo_test_env_def)
  have f: "failed_of demo_outcomes \<noteq> []" by (simp add: failed_of_def demo_outcomes_def)
  show ?thesis
    using json_reports_the_outcomes [OF _ demo_outcomes_ok g, of 1 False] f
    by (simp add: demo_test_env_def)
qed

end
