(* ===== verification/Forwarders.thy ===== *)
theory Forwarders
  imports Auth
begin

text \<open>
  The parts of the program that hand over to a library or store a value: \<^verbatim>\<open>go/crypt/rsa/rsa.go\<close>, the
  package functions of \<^verbatim>\<open>go/crypt/lthn/lthn.go\<close> and the option of \<^verbatim>\<open>go/auth/hardware.go\<close>.  The
  libraries are arguments: the RSA backend with its random source, and the hash with the key map it
  keeps in the package.

  The lemmas carry the contracts of the libraries over to every Service, the nil one among them, and
  show that the option changes nothing an Authenticator does.
\<close>

section \<open>RSA\<close>

record ('e, 'r) rsa_lib =
  rsa_NewService :: 'e
  rsa_GenerateKeyPair :: "'e \<Rightarrow> int \<Rightarrow> 'r \<Rightarrow> (bytes \<times> bytes) res"
  rsa_Encrypt :: "'e \<Rightarrow> bytes \<Rightarrow> bytes \<Rightarrow> bytes \<Rightarrow> 'r \<Rightarrow> bytes res"
  rsa_Decrypt :: "'e \<Rightarrow> bytes \<Rightarrow> bytes \<Rightarrow> bytes \<Rightarrow> bytes res"

text \<open>A pointer to a Service: \<open>None\<close> is nil, and so is an inner \<open>None\<close>.\<close>

record 'e RsaService =
  inner :: "'e option"

definition NewRsaService :: "('e, 'r) rsa_lib \<Rightarrow> 'e RsaService option" where
  "NewRsaService lib = Some \<lparr>inner = Some (rsa_NewService lib)\<rparr>"

definition enchantrix :: "('e, 'r) rsa_lib \<Rightarrow> 'e RsaService option \<Rightarrow> 'e" where
  "enchantrix lib s =
     (case s of
        Some sv \<Rightarrow> (case inner sv of Some e \<Rightarrow> e | None \<Rightarrow> rsa_NewService lib)
      | None \<Rightarrow> rsa_NewService lib)"

definition RsaGenerateKeyPair ::
  "('e, 'r) rsa_lib \<Rightarrow> 'e RsaService option \<Rightarrow> int \<Rightarrow> 'r \<Rightarrow> (bytes \<times> bytes) res" where
  "RsaGenerateKeyPair lib s bits = rsa_GenerateKeyPair lib (enchantrix lib s) bits"

definition RsaEncrypt ::
  "('e, 'r) rsa_lib \<Rightarrow> 'e RsaService option \<Rightarrow> bytes \<Rightarrow> bytes \<Rightarrow> bytes \<Rightarrow> 'r \<Rightarrow> bytes res" where
  "RsaEncrypt lib s publicKey data label = rsa_Encrypt lib (enchantrix lib s) publicKey data label"

definition RsaDecrypt ::
  "('e, 'r) rsa_lib \<Rightarrow> 'e RsaService option \<Rightarrow> bytes \<Rightarrow> bytes \<Rightarrow> bytes \<Rightarrow> bytes res" where
  "RsaDecrypt lib s privateKey ciphertext label = rsa_Decrypt lib (enchantrix lib s) privateKey ciphertext label"

text \<open>The backend keeps no state of its own: what one encrypts another opens.\<close>

definition rsa_sound :: "('e, 'r) rsa_lib \<Rightarrow> bool" where
  "rsa_sound lib \<longleftrightarrow>
     (\<forall>d e f bits q r pub priv data label c.
        rsa_GenerateKeyPair lib d bits q = Inr (pub, priv) \<longrightarrow>
        rsa_Encrypt lib e pub data label r = Inr c \<longrightarrow> rsa_Decrypt lib f priv c label = Inr data)"

lemma rsa_roundtrip:
  "rsa_sound lib \<Longrightarrow> RsaGenerateKeyPair lib s bits q = Inr (pub, priv) \<Longrightarrow>
    RsaEncrypt lib t pub data label r = Inr c \<Longrightarrow> RsaDecrypt lib u priv c label = Inr data"
  unfolding rsa_sound_def RsaGenerateKeyPair_def RsaEncrypt_def RsaDecrypt_def by blast

lemma nil_service_is_a_new_one:
  "enchantrix lib None = enchantrix lib (NewRsaService lib)"
  "enchantrix lib (Some \<lparr>inner = None\<rparr>) = enchantrix lib (NewRsaService lib)"
  by (simp_all add: enchantrix_def NewRsaService_def)

section \<open>LTHN\<close>

type_synonym key_map = "char list \<rightharpoonup> char list"

record 's lthn_lib =
  lib_SetKeyMap :: "key_map \<Rightarrow> 's \<Rightarrow> 's"
  lib_GetKeyMap :: "'s \<Rightarrow> key_map"
  lib_Hash :: "'s \<Rightarrow> string \<Rightarrow> string"

definition SetKeyMap :: "'s lthn_lib \<Rightarrow> key_map \<Rightarrow> 's \<Rightarrow> 's" where
  "SetKeyMap lib newKeyMap s = lib_SetKeyMap lib newKeyMap s"

definition GetKeyMap :: "'s lthn_lib \<Rightarrow> 's \<Rightarrow> key_map" where
  "GetKeyMap lib s = lib_GetKeyMap lib s"

definition LthnHash :: "'s lthn_lib \<Rightarrow> 's \<Rightarrow> string \<Rightarrow> string" where
  "LthnHash lib s input = lib_Hash lib s input"

text \<open>
  A hash verifies exactly while the library gives the same hash: after a change of the key map the
  hashes on file count by what the new map makes of the input.
\<close>

lemma lthn_verifies_across_key_maps:
  "lthn_Verify (LthnHash lib (SetKeyMap lib m s)) input (LthnHash lib s input) \<longleftrightarrow>
    lib_Hash lib (lib_SetKeyMap lib m s) input = lib_Hash lib s input"
  by (simp add: lthn_Verify_iff LthnHash_def SetKeyMap_def)

section \<open>Hardware keys\<close>

record HardwareKey =
  hw_Sign :: "bytes \<Rightarrow> bytes res"
  hw_Decrypt :: "bytes \<Rightarrow> bytes res"
  hw_GetPublicKey :: "string res"
  hw_IsAvailable :: bool

text \<open>The field of the Authenticator for it, which no operation reads.\<close>

record ('m, 'k) hw_Authenticator = "('m, 'k) Authenticator" +
  hardwareKey :: "HardwareKey option"

definition WithHardwareKey ::
  "HardwareKey option \<Rightarrow> ('m, 'k) hw_Authenticator \<Rightarrow> ('m, 'k) hw_Authenticator" where
  "WithHardwareKey hk a = a\<lparr>hardwareKey := hk\<rparr>"

lemma WithHardwareKey_truncate:
  "Authenticator.truncate (WithHardwareKey hk a) = Authenticator.truncate a"
  by (simp add: WithHardwareKey_def Authenticator.truncate_def)

end
