(* ===== verification/Spec2Isabelle.thy ===== *)
theory Spec2Isabelle
  imports Policy Approval AuditLog Config Encode Hash Symmetric Pgp Sessions Auth AuthFlows AuthSteps AuthRaces
    TrustService KeysService Commands TestCommand Forwarders
begin

text \<open>
  A verification development for go-crypt: the cryptographic helpers, authentication, trust policy,
  key store and commands of the Lethean agent platform, all of the Go code under \<^verbatim>\<open>go/\<close>.

  \<^bold>\<open>The program and its theories.\<close>

  \<^item> Shared: \<^verbatim>\<open>Prelude\<close> (errors of \<^verbatim>\<open>coreerr.E\<close>, the functions of \<^verbatim>\<open>strings\<close>, \<^verbatim>\<open>strconv\<close> and \<^verbatim>\<open>fmt\<close> in
    use, instants, the order of a map iteration, option bags, the contract \<^verbatim>\<open>keyed_store\<close>), \<^verbatim>\<open>Json\<close>
    (documents as trees) and \<^verbatim>\<open>Regexp\<close> (patterns with the leftmost-first choice, line scanning).
  \<^item> Trust, \<^verbatim>\<open>go/trust\<close>: \<^verbatim>\<open>Trust\<close> (\<^verbatim>\<open>trust.go\<close>: tiers, agents, the registry), \<^verbatim>\<open>Policy\<close> (\<^verbatim>\<open>policy.go\<close>: the
    engine, \<^verbatim>\<open>Evaluate\<close>, scope patterns, default policies), \<^verbatim>\<open>Approval\<close> (\<^verbatim>\<open>approval.go\<close>: the queue and its
    step relation), \<^verbatim>\<open>AuditLog\<close> (\<^verbatim>\<open>audit.go\<close>), \<^verbatim>\<open>Config\<close> (\<^verbatim>\<open>config.go\<close>: loading, applying, exporting).
  \<^item> Cryptography, \<^verbatim>\<open>go/crypt\<close> and \<^verbatim>\<open>go/internal/corecompat\<close>: \<^verbatim>\<open>Encode\<close> (hexadecimal, base64), \<^verbatim>\<open>Hash\<close>
    (\<^verbatim>\<open>hash.go\<close>, \<^verbatim>\<open>kdf.go\<close>), \<^verbatim>\<open>Symmetric\<close> (\<^verbatim>\<open>symmetric.go\<close>, \<^verbatim>\<open>crypt.go\<close>, \<^verbatim>\<open>chachapoly.go\<close>, \<^verbatim>\<open>hmac.go\<close>,
    \<^verbatim>\<open>checksum.go\<close>), \<^verbatim>\<open>Pgp\<close> (\<^verbatim>\<open>pgp/pgp.go\<close>, \<^verbatim>\<open>openpgp/service.go\<close>), \<^verbatim>\<open>Forwarders\<close> (\<^verbatim>\<open>rsa/rsa.go\<close>,
    \<^verbatim>\<open>lthn/lthn.go\<close>, and \<^verbatim>\<open>auth/hardware.go\<close>).
  \<^item> Authentication, \<^verbatim>\<open>go/auth\<close>: \<^verbatim>\<open>Sessions\<close> (the in-memory and the SQLite session store behind one
    interface), \<^verbatim>\<open>Auth\<close> (every method of the Authenticator), \<^verbatim>\<open>AuthFlows\<close> (the flows of several calls),
    \<^verbatim>\<open>AuthSteps\<close> (the methods as sequences of accesses to medium, store and challenges) and \<^verbatim>\<open>AuthRaces\<close>
    (what holds of concurrent calls), over \<^verbatim>\<open>Resumption\<close> (calls that yield between accesses, schedules).
  \<^item> Keys, \<^verbatim>\<open>go/keys\<close>: \<^verbatim>\<open>Keys\<close> (state, construction, masters, paths), \<^verbatim>\<open>KeysApi\<close> (put, get, delete, list,
    get-or-create for both tiers, audit rows, broadcasts), \<^verbatim>\<open>KeysVault\<close> (what they promise),
    \<^verbatim>\<open>KeysMigration\<close> (wiring a key-encryption key over a legacy directory), \<^verbatim>\<open>KeysService\<close> (all calls).
  \<^item> Composition: \<^verbatim>\<open>TrustService\<close> (\<^verbatim>\<open>go/trust/service.go\<close>: the Service whose actions call the components
    above), \<^verbatim>\<open>Commands\<close> (\<^verbatim>\<open>go/cmd/crypt\<close> and the smoke test \<^verbatim>\<open>go/tests/cli/crypt\<close>), \<^verbatim>\<open>TestCommand\<close>
    (\<^verbatim>\<open>go/cmd/testcmd\<close>).

  \<^bold>\<open>State and effects.\<close>  A struct is a record with the source's fields and a method that changes it
  returns it changed; a Go \<^verbatim>\<open>error\<close> or failed \<^verbatim>\<open>core.Result\<close> is the left side of a sum; where the code can
  panic the result is an option, and \<open>None\<close> is the panic.  A handler keeps the source's guards in their
  order, with the error texts.  Integers kept at a width are words (bytes, the parameters of Argon2,
  the groups of base64); those that only count are \<open>nat\<close> or \<open>int\<close>.  Iteration over a Go map takes the
  order as an argument.

  \<^bold>\<open>Surroundings.\<close>  Code that is not under \<^verbatim>\<open>go/\<close> is an argument: the file system and media, the key-value
  store, the random source, the clock, the ciphers, digests and Argon2, the OpenPGP and RSA libraries,
  the framework's option bags, prompts and translations, the child process, floating-point operations.
  What a theorem needs of them is a named predicate that states their documented behaviour:
  \<open>medium_sound\<close> (a medium reads back what was written and deleting removes), \<open>kv_sound\<close> (the same of
  the key-value store), \<open>os_sound\<close> and its parts (the same of a directory, with paths that are told
  apart and as many random bytes as asked for), \<open>sigil_sound\<close>, \<open>aes_sound\<close> and \<open>chacha_sound\<close> (opening inverts sealing),
  \<open>kdf_sound\<close> (Argon2 yields keys of the length asked for),
  \<open>rand_sound\<close>, \<open>cmd_sound\<close>, \<open>rsa_sound\<close>.  Each is met by a concrete instance in the examples at the end
  of its theory, on which the witnesses of the properties rest.

  \<^bold>\<open>What is shown.\<close>

  \<^item> Decisions: when a request is allowed, and that within their scopes tiers are ordered by what they may do (\<^verbatim>\<open>Policy\<close>);
    the scope match as written is the match by path segments; a decided approval stays decided and
    ids are never reused (\<^verbatim>\<open>Approval\<close>); every evaluation that the Service answers is in its log, and on
    a Service fed through its actions repository scopes have no effect (\<^verbatim>\<open>TrustService\<close>); policies are
    applied all or not at all and survive export and import (\<^verbatim>\<open>Config\<close>).
  \<^item> Sessions: the two stores are observably equal (\<^verbatim>\<open>Sessions\<close>); a session exists only if a login or an
    answered challenge of the run granted it, in the Authenticator (\<^verbatim>\<open>Auth\<close>, \<^verbatim>\<open>AuthFlows\<close>) and through
    the actions (\<^verbatim>\<open>TrustService\<close>); registration, rotation, revocation and deletion do what they say, and
    one thing they do not: a challenge pending at a revocation can still be answered.
  \<^item> Concurrency of the Authenticator: each method alone is the sequence of its accesses (\<^verbatim>\<open>AuthSteps\<close>);
    under every schedule of any calls sessions still come from logins and answered challenges only, a
    challenge is spent once, and a revoked token stays dead for later calls (\<^verbatim>\<open>AuthRaces\<close>).  What does not
    survive concurrency is shown too: a refresh can undo a revocation, and a login can outlive one.
  \<^item> Secrets: either tier of the key store behaves as a map from references to secrets across restarts
    and under wrong keys; paths of references and tiers are apart; get-or-create gives racing callers one
    key; a completed migration has kept every secret, it completes on a sound system once tier 0 is ready,
    and it does not start without the keys it needs; a read before it blocks it for good (\<^verbatim>\<open>KeysVault\<close>, \<^verbatim>\<open>KeysMigration\<close>).
  \<^item> Round trips: base64, password hashes, encryption under a passphrase, encrypted files of the
    commands, generated keys, exported policies, reports of \<^verbatim>\<open>go test\<close>.
  \<^item> Limits: stored Argon2 parameters are taken as they are, zero passes or lanes panic; a line of 64 KiB
    ends what the test command sees; a coverage on a line of its own goes to the latest package before it
    that has none, which may be the wrong one.

  \<^bold>\<open>Interfaces.\<close>  \<open>keyed_store\<close> is the contract of a map under a key (the registry, the session map);
  \<open>session_store\<close> that of the two stores and their dispatcher; \<open>cipher\<close> that of the two ciphers behind
  the passphrase functions; \<open>review_operation\<close> that of approving and denying; \<open>vault\<close> that of a tier and
  of both together.  Each is interpreted on the definitions of the code.

  \<^bold>\<open>Loops and bounds.\<close>  All loops end: they recurse on a list or, for lines and base64 groups, on the
  length of what is left, so no fuel is used.  The sequences of calls in the properties on whole runs
  are lists of any length.

  \<^bold>\<open>Not modelled.\<close>  Mutexes: a critical section is one step.  The methods of the Authenticator are
  also given as their accesses under every schedule, and get-or-create is split at its lock; every other
  method, whether it holds a lock throughout (the registry, the approval queue, the audit log, the session
  stores) or not (the policy engine, the key service around its masters), is one step only.  The cleanup loop is a function of the events its channels deliver.  Constant-time comparison, zeroing of
  memory and log lines of the framework have no counterpart.  The JSON text format, the OpenPGP packet
  format and the ciphers themselves are in libraries.  Left out are the registrations in \<^verbatim>\<open>init\<close>, the
  two unused printers of \<^verbatim>\<open>cmd_print.go\<close>, and the tests.
\<close>

end
